theory Spec2Isabelle
  imports Complex_Main
begin

section \<open>The loader (database\_loader.py)\<close>

subsection \<open>Files, frames and the destination store\<close>

text \<open>
  A data frame is a header and rows of cells; a missing cell (NaN) is \<open>None\<close>. A CSV file
  either parses into a frame or makes \<^verbatim>\<open>pd.read_csv\<close> raise. The file system maps a path
  to the file stored there.
\<close>

record frame =
  columns :: "string list"
  cells :: "string option list list"

datatype csv_file = Malformed | Table frame

type_synonym filesystem = "string \<rightharpoonup> csv_file"

text \<open>A stored row pairs each column name with its value; a table is a list of rows.\<close>

type_synonym db_row = "(string \<times> string) list"

type_synonym database = "string \<Rightarrow> db_row list"

text \<open>
  The destination store is the loader's environment: whether the connection and the
  schema statements succeed, whether \<^verbatim>\<open>TRUNCATE\<close> of a table succeeds, and whether the
  store accepts the rows of a frame appended to a table with the given contents
  (\<^verbatim>\<open>to_sql\<close> inserts inside one transaction: all rows or none).
\<close>

record store_env =
  connect_ok :: bool
  schema_ok :: bool
  truncate_ok :: "string \<Rightarrow> bool"
  accepts :: "string \<Rightarrow> db_row list \<Rightarrow> db_row list \<Rightarrow> bool"

subsection \<open>load\_csv\_to\_table\<close>

definition lower_char :: "char \<Rightarrow> char" where
  "lower_char c =
     (if (65::nat) \<le> of_char c \<and> of_char c \<le> (90::nat)
      then char_of (of_char c + (32::nat)) else c)"

definition replace_char :: "char \<Rightarrow> char \<Rightarrow> string \<Rightarrow> string" where
  "replace_char old new s = map (\<lambda>c. if c = old then new else c) s"

text \<open>\<^verbatim>\<open>col.lower().replace(' ', '_').replace('-', '_')\<close>\<close>

definition clean_column :: "string \<Rightarrow> string" where
  "clean_column col =
     replace_char (CHR ''-'') (CHR ''_'') (replace_char (CHR '' '') (CHR ''_'') (map lower_char col))"

text \<open>\<^verbatim>\<open>df.fillna('')\<close>\<close>

definition fillna :: "string option list \<Rightarrow> string list" where
  "fillna row = map (\<lambda>c. case c of None \<Rightarrow> [] | Some v \<Rightarrow> v) row"

definition frame_rows :: "frame \<Rightarrow> db_row list" where
  "frame_rows df = map (\<lambda>row. zip (map clean_column (columns df)) (fillna row)) (cells df)"

text \<open>\<^verbatim>\<open>df.empty\<close>: one of the two axes has length zero.\<close>

definition df_empty :: "frame \<Rightarrow> bool" where
  "df_empty df = (columns df = [] \<or> cells df = [])"

text \<open>
  Every exception inside \<^verbatim>\<open>load_csv_to_table\<close> is caught and turns into the result
  \<open>False\<close>: a path that does not exist, a file that does not parse, rows the store rejects.
\<close>

definition load_csv_to_table ::
  "store_env \<Rightarrow> filesystem \<Rightarrow> string \<Rightarrow> string \<Rightarrow> database \<Rightarrow> bool \<times> database" where
  "load_csv_to_table env fs csv_path table_name db =
     (case fs csv_path of
        None \<Rightarrow> (False, db)
      | Some Malformed \<Rightarrow> (False, db)
      | Some (Table df) \<Rightarrow>
          if df_empty df then (True, db)
          else if accepts env table_name (db table_name) (frame_rows df)
            then (True, db(table_name := db table_name @ frame_rows df))
            else (False, db))"

subsection \<open>clear\_table and load\_all\_data\<close>

definition clear_table :: "store_env \<Rightarrow> string \<Rightarrow> database \<Rightarrow> bool \<times> database" where
  "clear_table env table_name db =
     (if truncate_ok env table_name then (True, db(table_name := [])) else (False, db))"

definition file_mappings :: "(string \<times> string) list" where
  "file_mappings =
     [(''players_all_seasons.csv'', ''players''),
      (''player_stats_per_game.csv'', ''player_season_stats''),
      (''player_stats_totals.csv'', ''player_season_stats''),
      (''player_stats_per_36.csv'', ''player_season_stats''),
      (''teams_all_seasons.csv'', ''teams'')]"

definition table_names :: "string list" where
  "table_names = [''players'', ''player_season_stats'', ''teams'']"

text \<open>\<^verbatim>\<open>os.path.join(data_directory, filename)\<close>, for a directory name without a final slash.\<close>

definition path_join :: "string \<Rightarrow> string \<Rightarrow> string" where
  "path_join data_directory filename = data_directory @ ''/'' @ filename"

text \<open>What the loop over the mapping logs for one file.\<close>

datatype file_outcome = Loaded | LoadFailed | NotFound

record load_state =
  success_count :: nat
  total_files :: nat
  store :: database
  report :: "(string \<times> file_outcome) list"

definition load_one ::
  "store_env \<Rightarrow> filesystem \<Rightarrow> string \<Rightarrow> load_state \<Rightarrow> string \<times> string \<Rightarrow> load_state" where
  "load_one env fs data_directory st m =
     (let filename = fst m; table_name = snd m; file_path = path_join data_directory filename in
      if fs file_path \<noteq> None then
        (let r = load_csv_to_table env fs file_path table_name (store st) in
         if fst r
         then st\<lparr>success_count := success_count st + 1, total_files := total_files st + 1,
                 store := snd r, report := report st @ [(filename, Loaded)]\<rparr>
         else st\<lparr>total_files := total_files st + 1,
                 store := snd r, report := report st @ [(filename, LoadFailed)]\<rparr>)
      else st\<lparr>report := report st @ [(filename, NotFound)]\<rparr>)"

text \<open>The loop that clears the three tables ignores what \<^verbatim>\<open>clear_table\<close> returns.\<close>

definition clear_all :: "store_env \<Rightarrow> database \<Rightarrow> database" where
  "clear_all env db = foldl (\<lambda>d table. snd (clear_table env table d)) db table_names"

definition get_table_counts :: "database \<Rightarrow> nat list" where
  "get_table_counts db = map (\<lambda>table. length (db table)) table_names"

record load_result =
  succeeded :: bool
  final_store :: database
  file_report :: "(string \<times> file_outcome) list"

definition load_all_data ::
  "store_env \<Rightarrow> filesystem \<Rightarrow> string \<Rightarrow> bool \<Rightarrow> database \<Rightarrow> load_result" where
  "load_all_data env fs data_directory clear_existing db =
     (if \<not> connect_ok env then \<lparr>succeeded = False, final_store = db, file_report = []\<rparr>
      else if \<not> schema_ok env then \<lparr>succeeded = False, final_store = db, file_report = []\<rparr>
      else
        (let db1 = (if clear_existing then clear_all env db else db);
             st = foldl (load_one env fs data_directory)
                    \<lparr>success_count = 0, total_files = 0, store = db1, report = []\<rparr> file_mappings
         in \<lparr>succeeded = (success_count st = total_files st),
             final_store = store st, file_report = report st\<rparr>))"

section \<open>The generator's files (save\_data of nba\_ingest.py)\<close>

text \<open>
  \<^verbatim>\<open>save_data\<close> writes the three frames under \<^verbatim>\<open>data/\<close> and again under
  \<^verbatim>\<open>data/postgres_ready/\<close>. The arguments are the CSV renderings of the three frames.
\<close>

definition save_data :: "csv_file \<Rightarrow> csv_file \<Rightarrow> csv_file \<Rightarrow> filesystem \<Rightarrow> filesystem" where
  "save_data teams_csv players_csv stats_csv fs =
     fs(''data/teams_all_seasons.csv'' \<mapsto> teams_csv,
        ''data/players_all_seasons.csv'' \<mapsto> players_csv,
        ''data/player_season_stats.csv'' \<mapsto> stats_csv,
        ''data/postgres_ready/teams_all_seasons.csv'' \<mapsto> teams_csv,
        ''data/postgres_ready/players_all_seasons.csv'' \<mapsto> players_csv,
        ''data/postgres_ready/player_season_stats.csv'' \<mapsto> stats_csv)"

section \<open>The generator (nba\_ingest.py)\<close>

subsection \<open>Errors\<close>

text \<open>
  The exceptions the generator can raise, as values: \<^verbatim>\<open>ValueError\<close> (an integer that does
  not parse, an empty range for \<^verbatim>\<open>randint\<close>), \<^verbatim>\<open>IndexError\<close> (the first element or a random
  choice of an empty list), \<^verbatim>\<open>KeyError\<close> (a key a dictionary does not have) and
  \<^verbatim>\<open>ZeroDivisionError\<close>. A computation returns \<open>Inl\<close> of the error or \<open>Inr\<close> of its value.
\<close>

datatype error = ValueError | IndexError | KeyError | ZeroDivisionError

definition bind_result :: "error + 'a \<Rightarrow> ('a \<Rightarrow> error + 'b) \<Rightarrow> error + 'b" where
  "bind_result r f = (case r of Inl e \<Rightarrow> Inl e | Inr x \<Rightarrow> f x)"

subsection \<open>Integers as text\<close>

definition digit_char :: "nat \<Rightarrow> char" where
  "digit_char d = char_of (48 + d)"

fun str_nat :: "nat \<Rightarrow> string" where
  "str_nat n = (if n < 10 then [digit_char n] else str_nat (n div 10) @ [digit_char (n mod 10)])"

declare str_nat.simps [simp del]

text \<open>\<^verbatim>\<open>str(i)\<close> for a Python integer.\<close>

definition str_int :: "int \<Rightarrow> string" where
  "str_int i = (if i < 0 then CHR ''-'' # str_nat (nat (- i)) else str_nat (nat i))"

definition is_digit :: "char \<Rightarrow> bool" where
  "is_digit c \<longleftrightarrow> (48::nat) \<le> of_char c \<and> of_char c \<le> (57::nat)"

definition nat_of_digits :: "string \<Rightarrow> nat" where
  "nat_of_digits s = foldl (\<lambda>a c. 10 * a + (of_char c - 48)) 0 s"

text \<open>
  \<^verbatim>\<open>int(s)\<close> on the strings the generator hands to it: the text before the first hyphen of
  a season string. A non-empty string of decimal digits is its value; the empty string
  raises \<^verbatim>\<open>ValueError\<close>, as does every other string without sign, blank or underscore.
\<close>

definition int_of_str :: "string \<Rightarrow> error + int" where
  "int_of_str s = (if s \<noteq> [] \<and> list_all is_digit s then Inr (int (nat_of_digits s)) else Inl ValueError)"

subsection \<open>Seasons\<close>

text \<open>\<^verbatim>\<open>f"{year}-{str(year+1)[2:]}"\<close>\<close>

definition season_str :: "int \<Rightarrow> string" where
  "season_str year = str_int year @ ''-'' @ drop 2 (str_int (year + 1))"

text \<open>\<^verbatim>\<open>self.seasons\<close>, as \<^verbatim>\<open>__init__\<close> computes it from the two years.\<close>

definition seasons :: "int \<Rightarrow> int \<Rightarrow> string list" where
  "seasons start_year end_year = map season_str [start_year..end_year]"

text \<open>\<^verbatim>\<open>int(season.split('-')[0])\<close>\<close>

definition year_of_season :: "string \<Rightarrow> error + int" where
  "year_of_season season = int_of_str (takeWhile (\<lambda>c. c \<noteq> CHR ''-'') season)"

text \<open>
  The format the specification gives for a season, \<^verbatim>\<open>"{year}-{(year+1) mod 100:02d}"\<close>:
  the year, a hyphen, and \<open>(year + 1) mod 100\<close> padded with zeros to two characters.
\<close>

definition zero_pad2 :: "string \<Rightarrow> string" where
  "zero_pad2 s = replicate (2 - length s) (CHR ''0'') @ s"

definition spec_season :: "int \<Rightarrow> string" where
  "spec_season year = str_int year @ ''-'' @ zero_pad2 (str_int ((year + 1) mod 100))"

subsection \<open>The team and player tables\<close>

record team_info =
  name :: string
  city :: string
  conference :: string
  division :: string

record player_info =
  info_name :: string
  info_position :: string
  teams :: "string list"
  era :: string

definition historical_teams :: "(string \<times> team_info) list" where
  "historical_teams =
     [(''ATL'', \<lparr>name = ''Atlanta Hawks'', city = ''Atlanta'',
        conference = ''Eastern'', division = ''Central''\<rparr>),
      (''BOS'', \<lparr>name = ''Boston Celtics'', city = ''Boston'',
        conference = ''Eastern'', division = ''Atlantic''\<rparr>),
      (''CHI'', \<lparr>name = ''Chicago Bulls'', city = ''Chicago'',
        conference = ''Eastern'', division = ''Central''\<rparr>),
      (''CLE'', \<lparr>name = ''Cleveland Cavaliers'', city = ''Cleveland'',
        conference = ''Eastern'', division = ''Central''\<rparr>),
      (''DAL'', \<lparr>name = ''Dallas Mavericks'', city = ''Dallas'',
        conference = ''Western'', division = ''Midwest''\<rparr>),
      (''DEN'', \<lparr>name = ''Denver Nuggets'', city = ''Denver'',
        conference = ''Western'', division = ''Midwest''\<rparr>),
      (''DET'', \<lparr>name = ''Detroit Pistons'', city = ''Detroit'',
        conference = ''Eastern'', division = ''Central''\<rparr>),
      (''GSW'', \<lparr>name = ''Golden State Warriors'', city = ''San Francisco'',
        conference = ''Western'', division = ''Pacific''\<rparr>),
      (''HOU'', \<lparr>name = ''Houston Rockets'', city = ''Houston'',
        conference = ''Western'', division = ''Midwest''\<rparr>),
      (''IND'', \<lparr>name = ''Indiana Pacers'', city = ''Indianapolis'',
        conference = ''Eastern'', division = ''Central''\<rparr>),
      (''LAC'', \<lparr>name = ''LA Clippers'', city = ''Los Angeles'',
        conference = ''Western'', division = ''Pacific''\<rparr>),
      (''LAL'', \<lparr>name = ''Los Angeles Lakers'', city = ''Los Angeles'',
        conference = ''Western'', division = ''Pacific''\<rparr>),
      (''MIA'', \<lparr>name = ''Miami Heat'', city = ''Miami'',
        conference = ''Eastern'', division = ''Atlantic''\<rparr>),
      (''MIL'', \<lparr>name = ''Milwaukee Bucks'', city = ''Milwaukee'',
        conference = ''Eastern'', division = ''Central''\<rparr>),
      (''NJN'', \<lparr>name = ''New Jersey Nets'', city = ''East Rutherford'',
        conference = ''Eastern'', division = ''Atlantic''\<rparr>),
      (''NYK'', \<lparr>name = ''New York Knicks'', city = ''New York'',
        conference = ''Eastern'', division = ''Atlantic''\<rparr>),
      (''ORL'', \<lparr>name = ''Orlando Magic'', city = ''Orlando'',
        conference = ''Eastern'', division = ''Atlantic''\<rparr>),
      (''PHI'', \<lparr>name = ''Philadelphia 76ers'', city = ''Philadelphia'',
        conference = ''Eastern'', division = ''Atlantic''\<rparr>),
      (''PHX'', \<lparr>name = ''Phoenix Suns'', city = ''Phoenix'',
        conference = ''Western'', division = ''Pacific''\<rparr>),
      (''POR'', \<lparr>name = ''Portland Trail Blazers'', city = ''Portland'',
        conference = ''Western'', division = ''Pacific''\<rparr>),
      (''SAC'', \<lparr>name = ''Sacramento Kings'', city = ''Sacramento'',
        conference = ''Western'', division = ''Pacific''\<rparr>),
      (''SAS'', \<lparr>name = ''San Antonio Spurs'', city = ''San Antonio'',
        conference = ''Western'', division = ''Midwest''\<rparr>),
      (''SEA'', \<lparr>name = ''Seattle SuperSonics'', city = ''Seattle'',
        conference = ''Western'', division = ''Pacific''\<rparr>),
      (''UTA'', \<lparr>name = ''Utah Jazz'', city = ''Salt Lake City'',
        conference = ''Western'', division = ''Midwest''\<rparr>),
      (''WAS'', \<lparr>name = ''Washington Bullets'', city = ''Washington'',
        conference = ''Eastern'', division = ''Atlantic''\<rparr>)]"

definition modern_teams :: "(string \<times> team_info) list" where
  "modern_teams =
     [(''ATL'', \<lparr>name = ''Atlanta Hawks'', city = ''Atlanta'',
        conference = ''Eastern'', division = ''Southeast''\<rparr>),
      (''BOS'', \<lparr>name = ''Boston Celtics'', city = ''Boston'',
        conference = ''Eastern'', division = ''Atlantic''\<rparr>),
      (''BKN'', \<lparr>name = ''Brooklyn Nets'', city = ''Brooklyn'',
        conference = ''Eastern'', division = ''Atlantic''\<rparr>),
      (''CHA'', \<lparr>name = ''Charlotte Hornets'', city = ''Charlotte'',
        conference = ''Eastern'', division = ''Southeast''\<rparr>),
      (''CHI'', \<lparr>name = ''Chicago Bulls'', city = ''Chicago'',
        conference = ''Eastern'', division = ''Central''\<rparr>),
      (''CLE'', \<lparr>name = ''Cleveland Cavaliers'', city = ''Cleveland'',
        conference = ''Eastern'', division = ''Central''\<rparr>),
      (''DAL'', \<lparr>name = ''Dallas Mavericks'', city = ''Dallas'',
        conference = ''Western'', division = ''Southwest''\<rparr>),
      (''DEN'', \<lparr>name = ''Denver Nuggets'', city = ''Denver'',
        conference = ''Western'', division = ''Northwest''\<rparr>),
      (''DET'', \<lparr>name = ''Detroit Pistons'', city = ''Detroit'',
        conference = ''Eastern'', division = ''Central''\<rparr>),
      (''GSW'', \<lparr>name = ''Golden State Warriors'', city = ''San Francisco'',
        conference = ''Western'', division = ''Pacific''\<rparr>),
      (''HOU'', \<lparr>name = ''Houston Rockets'', city = ''Houston'',
        conference = ''Western'', division = ''Southwest''\<rparr>),
      (''IND'', \<lparr>name = ''Indiana Pacers'', city = ''Indianapolis'',
        conference = ''Eastern'', division = ''Central''\<rparr>),
      (''LAC'', \<lparr>name = ''LA Clippers'', city = ''Los Angeles'',
        conference = ''Western'', division = ''Pacific''\<rparr>),
      (''LAL'', \<lparr>name = ''Los Angeles Lakers'', city = ''Los Angeles'',
        conference = ''Western'', division = ''Pacific''\<rparr>),
      (''MEM'', \<lparr>name = ''Memphis Grizzlies'', city = ''Memphis'',
        conference = ''Western'', division = ''Southwest''\<rparr>),
      (''MIA'', \<lparr>name = ''Miami Heat'', city = ''Miami'',
        conference = ''Eastern'', division = ''Southeast''\<rparr>),
      (''MIL'', \<lparr>name = ''Milwaukee Bucks'', city = ''Milwaukee'',
        conference = ''Eastern'', division = ''Central''\<rparr>),
      (''MIN'', \<lparr>name = ''Minnesota Timberwolves'', city = ''Minneapolis'',
        conference = ''Western'', division = ''Northwest''\<rparr>),
      (''NOP'', \<lparr>name = ''New Orleans Pelicans'', city = ''New Orleans'',
        conference = ''Western'', division = ''Southwest''\<rparr>),
      (''NYK'', \<lparr>name = ''New York Knicks'', city = ''New York'',
        conference = ''Eastern'', division = ''Atlantic''\<rparr>),
      (''OKC'', \<lparr>name = ''Oklahoma City Thunder'', city = ''Oklahoma City'',
        conference = ''Western'', division = ''Northwest''\<rparr>),
      (''ORL'', \<lparr>name = ''Orlando Magic'', city = ''Orlando'',
        conference = ''Eastern'', division = ''Southeast''\<rparr>),
      (''PHI'', \<lparr>name = ''Philadelphia 76ers'', city = ''Philadelphia'',
        conference = ''Eastern'', division = ''Atlantic''\<rparr>),
      (''PHX'', \<lparr>name = ''Phoenix Suns'', city = ''Phoenix'',
        conference = ''Western'', division = ''Pacific''\<rparr>),
      (''POR'', \<lparr>name = ''Portland Trail Blazers'', city = ''Portland'',
        conference = ''Western'', division = ''Northwest''\<rparr>),
      (''SAC'', \<lparr>name = ''Sacramento Kings'', city = ''Sacramento'',
        conference = ''Western'', division = ''Pacific''\<rparr>),
      (''SAS'', \<lparr>name = ''San Antonio Spurs'', city = ''San Antonio'',
        conference = ''Western'', division = ''Southwest''\<rparr>),
      (''TOR'', \<lparr>name = ''Toronto Raptors'', city = ''Toronto'',
        conference = ''Eastern'', division = ''Atlantic''\<rparr>),
      (''UTA'', \<lparr>name = ''Utah Jazz'', city = ''Salt Lake City'',
        conference = ''Western'', division = ''Northwest''\<rparr>),
      (''WAS'', \<lparr>name = ''Washington Wizards'', city = ''Washington'',
        conference = ''Eastern'', division = ''Southeast''\<rparr>)]"

definition legendary_1980s :: "player_info list" where
  "legendary_1980s =
     [\<lparr>info_name = ''Magic Johnson'', info_position = ''PG'', teams = [''LAL''], era = ''1980s''\<rparr>,
      \<lparr>info_name = ''Larry Bird'', info_position = ''SF'', teams = [''BOS''], era = ''1980s''\<rparr>,
      \<lparr>info_name = ''Kareem Abdul-Jabbar'', info_position = ''C'', teams = [''LAL''], era = ''1980s''\<rparr>,
      \<lparr>info_name = ''Isiah Thomas'', info_position = ''PG'', teams = [''DET''], era = ''1980s''\<rparr>,
      \<lparr>info_name = ''Dominique Wilkins'', info_position = ''SF'', teams = [''ATL''], era = ''1980s''\<rparr>,
      \<lparr>info_name = ''Julius Erving'', info_position = ''SF'', teams = [''PHI''], era = ''1980s''\<rparr>,
      \<lparr>info_name = ''Moses Malone'', info_position = ''C'', teams = [''PHI''], era = ''1980s''\<rparr>,
      \<lparr>info_name = ''James Worthy'', info_position = ''SF'', teams = [''LAL''], era = ''1980s''\<rparr>]"

definition legendary_1990s :: "player_info list" where
  "legendary_1990s =
     [\<lparr>info_name = ''Michael Jordan'', info_position = ''SG'', teams = [''CHI''], era = ''1990s''\<rparr>,
      \<lparr>info_name = ''Scottie Pippen'', info_position = ''SF'', teams = [''CHI''], era = ''1990s''\<rparr>,
      \<lparr>info_name = ''Dennis Rodman'', info_position = ''PF'', teams = [''CHI'', ''DET''], era = ''1990s''\<rparr>,
      \<lparr>info_name = ''Karl Malone'', info_position = ''PF'', teams = [''UTA''], era = ''1990s''\<rparr>,
      \<lparr>info_name = ''John Stockton'', info_position = ''PG'', teams = [''UTA''], era = ''1990s''\<rparr>,
      \<lparr>info_name = ''Hakeem Olajuwon'', info_position = ''C'', teams = [''HOU''], era = ''1990s''\<rparr>,
      \<lparr>info_name = ''Charles Barkley'', info_position = ''PF'', teams = [''PHI'', ''PHX''], era = ''1990s''\<rparr>,
      \<lparr>info_name = ''Patrick Ewing'', info_position = ''C'', teams = [''NYK''], era = ''1990s''\<rparr>,
      \<lparr>info_name = ''David Robinson'', info_position = ''C'', teams = [''SAS''], era = ''1990s''\<rparr>,
      \<lparr>info_name = ''Clyde Drexler'', info_position = ''SG'', teams = [''POR'', ''HOU''], era = ''1990s''\<rparr>]"

definition legendary_2000s :: "player_info list" where
  "legendary_2000s =
     [\<lparr>info_name = ''Tim Duncan'', info_position = ''PF'', teams = [''SAS''], era = ''2000s''\<rparr>,
      \<lparr>info_name = ''Kobe Bryant'', info_position = ''SG'', teams = [''LAL''], era = ''2000s''\<rparr>,
      \<lparr>info_name = ''Shaquille O'Neal'', info_position = ''C'', teams = [''LAL'', ''MIA''], era = ''2000s''\<rparr>,
      \<lparr>info_name = ''LeBron James'', info_position = ''SF'', teams = [''CLE''], era = ''2000s''\<rparr>,
      \<lparr>info_name = ''Dwyane Wade'', info_position = ''SG'', teams = [''MIA''], era = ''2000s''\<rparr>,
      \<lparr>info_name = ''Kevin Garnett'', info_position = ''PF'', teams = [''MIN'', ''BOS''], era = ''2000s''\<rparr>,
      \<lparr>info_name = ''Dirk Nowitzki'', info_position = ''PF'', teams = [''DAL''], era = ''2000s''\<rparr>,
      \<lparr>info_name = ''Steve Nash'', info_position = ''PG'', teams = [''PHX''], era = ''2000s''\<rparr>,
      \<lparr>info_name = ''Tracy McGrady'', info_position = ''SG'', teams = [''HOU''], era = ''2000s''\<rparr>,
      \<lparr>info_name = ''Vince Carter'', info_position = ''SG'', teams = [''TOR''], era = ''2000s''\<rparr>]"

definition legendary_2010s :: "player_info list" where
  "legendary_2010s =
     [\<lparr>info_name = ''LeBron James'', info_position = ''SF'', teams = [''MIA'', ''CLE'', ''LAL''], era = ''2010s''\<rparr>,
      \<lparr>info_name = ''Stephen Curry'', info_position = ''PG'', teams = [''GSW''], era = ''2010s''\<rparr>,
      \<lparr>info_name = ''Kevin Durant'', info_position = ''SF'', teams = [''OKC'', ''GSW''], era = ''2010s''\<rparr>,
      \<lparr>info_name = ''Russell Westbrook'', info_position = ''PG'', teams = [''OKC''], era = ''2010s''\<rparr>,
      \<lparr>info_name = ''James Harden'', info_position = ''SG'', teams = [''HOU''], era = ''2010s''\<rparr>,
      \<lparr>info_name = ''Chris Paul'', info_position = ''PG'', teams = [''LAC'', ''HOU''], era = ''2010s''\<rparr>,
      \<lparr>info_name = ''Anthony Davis'', info_position = ''PF'', teams = [''NOP'', ''LAL''], era = ''2010s''\<rparr>,
      \<lparr>info_name = ''Kawhi Leonard'', info_position = ''SF'', teams = [''SAS'', ''TOR'', ''LAC''], era = ''2010s''\<rparr>,
      \<lparr>info_name = ''Paul George'', info_position = ''SF'', teams = [''IND'', ''OKC'', ''LAC''], era = ''2010s''\<rparr>,
      \<lparr>info_name = ''Blake Griffin'', info_position = ''PF'', teams = [''LAC'', ''DET''], era = ''2010s''\<rparr>]"

definition legendary_2020s :: "player_info list" where
  "legendary_2020s =
     [\<lparr>info_name = ''LeBron James'', info_position = ''SF'', teams = [''LAL''], era = ''2020s''\<rparr>,
      \<lparr>info_name = ''Stephen Curry'', info_position = ''PG'', teams = [''GSW''], era = ''2020s''\<rparr>,
      \<lparr>info_name = ''Kevin Durant'', info_position = ''SF'', teams = [''BKN'', ''PHX''], era = ''2020s''\<rparr>,
      \<lparr>info_name = ''Giannis Antetokounmpo'', info_position = ''PF'', teams = [''MIL''], era = ''2020s''\<rparr>,
      \<lparr>info_name = ''Luka Doncic'', info_position = ''PG'', teams = [''DAL''], era = ''2020s''\<rparr>,
      \<lparr>info_name = ''Jayson Tatum'', info_position = ''SF'', teams = [''BOS''], era = ''2020s''\<rparr>,
      \<lparr>info_name = ''Nikola Jokic'', info_position = ''C'', teams = [''DEN''], era = ''2020s''\<rparr>,
      \<lparr>info_name = ''Joel Embiid'', info_position = ''C'', teams = [''PHI''], era = ''2020s''\<rparr>,
      \<lparr>info_name = ''Anthony Davis'', info_position = ''PF'', teams = [''LAL''], era = ''2020s''\<rparr>,
      \<lparr>info_name = ''Jimmy Butler'', info_position = ''SF'', teams = [''MIA''], era = ''2020s''\<rparr>]"

definition get_teams_for_era :: "int \<Rightarrow> (string \<times> team_info) list" where
  "get_teams_for_era year = (if year < 2000 then historical_teams else modern_teams)"

definition get_players_for_era :: "int \<Rightarrow> player_info list" where
  "get_players_for_era year =
     (if 1980 \<le> year \<and> year \<le> 1989 then legendary_1980s else [])
     @ (if 1990 \<le> year \<and> year \<le> 1999 then legendary_1990s else [])
     @ (if 2000 \<le> year \<and> year \<le> 2009 then legendary_2000s else [])
     @ (if 2010 \<le> year \<and> year \<le> 2019 then legendary_2010s else [])
     @ (if 2020 \<le> year \<and> year \<le> 2025 then legendary_2020s else [])"

subsection \<open>The team of a legendary player in a year\<close>

definition get_team_for_player :: "string \<Rightarrow> string list \<Rightarrow> int \<Rightarrow> error + string" where
  "get_team_for_player player_name possible_teams year =
     (if player_name = ''LeBron James'' then
        (if year \<le> 2010 then Inr ''CLE''
         else if 2011 \<le> year \<and> year \<le> 2014 then Inr ''MIA''
         else if 2015 \<le> year \<and> year \<le> 2018 then Inr ''CLE''
         else Inr ''LAL'')
      else if player_name = ''Kevin Durant'' then
        (if year \<le> 2016 then Inr ''OKC''
         else if 2017 \<le> year \<and> year \<le> 2019 then Inr ''GSW''
         else if 2020 \<le> year \<and> year \<le> 2022 then Inr ''BKN''
         else Inr ''PHX'')
      else if player_name = ''Shaquille O'Neal'' then
        (if year \<le> 1996 then Inr ''ORL''
         else if 1997 \<le> year \<and> year \<le> 2004 then Inr ''LAL''
         else if 2005 \<le> year \<and> year \<le> 2008 then Inr ''MIA''
         else Inr ''PHX'')
      else if player_name = ''Dennis Rodman'' then
        (if year \<le> 1993 then Inr ''DET'' else Inr ''CHI'')
      else if player_name = ''Charles Barkley'' then
        (if year \<le> 1992 then Inr ''PHI'' else Inr ''PHX'')
      else if player_name = ''Clyde Drexler'' then
        (if year \<le> 1995 then Inr ''POR'' else Inr ''HOU'')
      else if player_name = ''Russell Westbrook'' then
        (if year \<le> 2019 then Inr ''OKC''
         else if 2020 \<le> year \<and> year \<le> 2021 then Inr ''HOU''
         else if 2022 \<le> year \<and> year \<le> 2023 then Inr ''LAL''
         else Inr ''LAC'')
      else if player_name = ''James Harden'' then
        (if year \<le> 2012 then Inr ''OKC''
         else if 2013 \<le> year \<and> year \<le> 2020 then Inr ''HOU''
         else if 2021 \<le> year \<and> year \<le> 2022 then Inr ''BKN''
         else if 2023 \<le> year \<and> year \<le> 2024 then Inr ''PHI''
         else Inr ''LAC'')
      else if player_name = ''Chris Paul'' then
        (if year \<le> 2011 then Inr ''NOP''
         else if 2012 \<le> year \<and> year \<le> 2017 then Inr ''LAC''
         else if 2018 \<le> year \<and> year \<le> 2021 then Inr ''HOU''
         else if 2022 \<le> year \<and> year \<le> 2023 then Inr ''PHX''
         else Inr ''GSW'')
      else if player_name = ''Anthony Davis'' then
        (if year \<le> 2019 then Inr ''NOP'' else Inr ''LAL'')
      else if player_name = ''Kawhi Leonard'' then
        (if year \<le> 2018 then Inr ''SAS''
         else if year = 2019 then Inr ''TOR''
         else Inr ''LAC'')
      else if player_name = ''Paul George'' then
        (if year \<le> 2017 then Inr ''IND''
         else if 2018 \<le> year \<and> year \<le> 2019 then Inr ''OKC''
         else Inr ''LAC'')
      else if player_name = ''Blake Griffin'' then
        (if year \<le> 2018 then Inr ''LAC'' else Inr ''DET'')
      else if player_name = ''Kevin Garnett'' then
        (if year \<le> 2007 then Inr ''MIN'' else Inr ''BOS'')
      else if player_name = ''Damian Lillard'' then
        (if year \<le> 2023 then Inr ''POR'' else Inr ''MIL'')
      else (case possible_teams of [] \<Rightarrow> Inl IndexError | t # _ \<Rightarrow> Inr t))"

subsection \<open>The random generator\<close>

text \<open>
  The module-level generator of \<^verbatim>\<open>random\<close> is unseeded, so its output is the generator's
  environment: the sequence of raw values it will hand out. Each call of \<^verbatim>\<open>randint\<close>,
  \<^verbatim>\<open>choice\<close> or \<^verbatim>\<open>uniform\<close> takes the next raw value and reduces it to its range;
  \<^verbatim>\<open>random()\<close> is a multiple of \<open>2\<^sup>-\<^sup>5\<^sup>3\<close> in \<open>[0, 1)\<close>. Floating-point numbers are
  modelled as exact rationals.
\<close>

type_synonym rng = "nat \<Rightarrow> nat"

definition next_raw :: "rng \<Rightarrow> nat \<times> rng" where
  "next_raw g = (g 0, \<lambda>i. g (Suc i))"

definition random_unit :: "rng \<Rightarrow> rat \<times> rng" where
  "random_unit g = (of_nat (fst (next_raw g) mod 2 ^ 53) / 2 ^ 53, snd (next_raw g))"

text \<open>\<^verbatim>\<open>a + (b - a) * random()\<close>\<close>

definition uniform :: "rat \<Rightarrow> rat \<Rightarrow> rng \<Rightarrow> rat \<times> rng" where
  "uniform a b g = (a + (b - a) * fst (random_unit g), snd (random_unit g))"

text \<open>\<^verbatim>\<open>randint(a, b)\<close> raises \<^verbatim>\<open>ValueError\<close> on an empty range.\<close>

definition randint :: "int \<Rightarrow> int \<Rightarrow> rng \<Rightarrow> error + (int \<times> rng)" where
  "randint a b g =
     (if b < a then Inl ValueError
      else Inr (a + int (fst (next_raw g) mod nat (b - a + 1)), snd (next_raw g)))"

text \<open>\<^verbatim>\<open>choice(seq)\<close> raises \<^verbatim>\<open>IndexError\<close> on an empty sequence.\<close>

definition choice :: "'a list \<Rightarrow> rng \<Rightarrow> error + ('a \<times> rng)" where
  "choice xs g =
     (if xs = [] then Inl IndexError
      else Inr (xs ! (fst (next_raw g) mod length xs), snd (next_raw g)))"

subsection \<open>Synthesis of the statistics\<close>

text \<open>
  The two tables are dictionary literals inside \<^verbatim>\<open>_generate_era_appropriate_stats\<close>: each
  call builds them anew, takes one entry of each and changes only these two entries.
  An inner dictionary with fixed keys is a record; \<^verbatim>\<open>steals\<close> and \<^verbatim>\<open>blocks\<close> are the keys a
  position may lack.
\<close>

record position_base =
  b_points :: rat
  b_assists :: rat
  b_rebounds :: rat
  b_steals :: "rat option"
  b_blocks :: "rat option"

record era_multiplier =
  m_points :: rat
  m_assists :: rat
  m_rebounds :: rat
  m_three_pct :: rat

definition position_bases :: "(string \<times> position_base) list" where
  "position_bases =
     [(''PG'', \<lparr>b_points = 12, b_assists = 6, b_rebounds = 3, b_steals = Some 1.2, b_blocks = None\<rparr>),
      (''SG'', \<lparr>b_points = 14, b_assists = 3, b_rebounds = 4, b_steals = Some 1.0, b_blocks = None\<rparr>),
      (''SF'', \<lparr>b_points = 13, b_assists = 3, b_rebounds = 5, b_steals = Some 1.1, b_blocks = None\<rparr>),
      (''PF'', \<lparr>b_points = 12, b_assists = 2, b_rebounds = 7, b_steals = None, b_blocks = Some 0.8\<rparr>),
      (''C'', \<lparr>b_points = 11, b_assists = 1, b_rebounds = 8, b_steals = None, b_blocks = Some 1.2\<rparr>)]"

definition era_multipliers :: "(string \<times> era_multiplier) list" where
  "era_multipliers =
     [(''1980s'', \<lparr>m_points = 0.9, m_assists = 1.1, m_rebounds = 1.0, m_three_pct = 0.3\<rparr>),
      (''1990s'', \<lparr>m_points = 1.0, m_assists = 1.0, m_rebounds = 1.0, m_three_pct = 0.4\<rparr>),
      (''2000s'', \<lparr>m_points = 1.0, m_assists = 1.0, m_rebounds = 1.0, m_three_pct = 0.5\<rparr>),
      (''2010s'', \<lparr>m_points = 1.1, m_assists = 1.0, m_rebounds = 0.95, m_three_pct = 0.7\<rparr>),
      (''2020s'', \<lparr>m_points = 1.2, m_assists = 1.1, m_rebounds = 0.9, m_three_pct = 0.8\<rparr>),
      (''regular'', \<lparr>m_points = 1.0, m_assists = 1.0, m_rebounds = 1.0, m_three_pct = 0.5\<rparr>)]"

text \<open>\<^verbatim>\<open>d[k]\<close> and \<^verbatim>\<open>d.get(k, default)\<close> on a dictionary written as an association list.\<close>

definition dict_item :: "('k \<times> 'v) list \<Rightarrow> 'k \<Rightarrow> error + 'v" where
  "dict_item d k = (case map_of d k of None \<Rightarrow> Inl KeyError | Some v \<Rightarrow> Inr v)"

definition dict_get :: "('k \<times> 'v) list \<Rightarrow> 'k \<Rightarrow> 'v \<Rightarrow> 'v" where
  "dict_get d k dflt = (case map_of d k of None \<Rightarrow> dflt | Some v \<Rightarrow> v)"

text \<open>The adjustment of the era entry \<^verbatim>\<open>if year >= 2020\<close>.\<close>

definition modern_adjustment :: "int \<Rightarrow> era_multiplier \<Rightarrow> era_multiplier" where
  "modern_adjustment year era_mult =
     (if year \<ge> 2020
      then era_mult\<lparr>m_points := m_points era_mult * 1.2, m_three_pct := 0.8\<rparr>
      else era_mult)"

text \<open>The superstar adjustments of the position entry.\<close>

definition superstar_adjustment :: "string \<Rightarrow> position_base \<Rightarrow> position_base" where
  "superstar_adjustment player_name base =
     (if player_name \<in> set [''Michael Jordan'', ''LeBron James'', ''Kobe Bryant'', ''Kevin Durant'',
                            ''Giannis Antetokounmpo'', ''Luka Doncic'']
      then base\<lparr>b_points := b_points base * 2.0, b_assists := b_assists base * 1.5,
                b_rebounds := b_rebounds base * 1.3\<rparr>
      else if player_name \<in> set [''Magic Johnson'', ''Stephen Curry'', ''Damian Lillard'', ''Trae Young'']
      then base\<lparr>b_assists := b_assists base * 2.0, b_points := b_points base * 1.7\<rparr>
      else if player_name \<in> set [''Shaquille O'Neal'', ''Hakeem Olajuwon'', ''David Robinson'',
                                 ''Nikola Jokic'', ''Joel Embiid'']
      then base\<lparr>b_rebounds := b_rebounds base * 1.6,
                b_blocks := Some ((case b_blocks base of None \<Rightarrow> 0 | Some v \<Rightarrow> v) * 2.5),
                b_points := b_points base * 1.5\<rparr>
      else if player_name \<in> set [''Dennis Rodman'', ''Ben Wallace'']
      then base\<lparr>b_rebounds := b_rebounds base * 2.5, b_points := b_points base * 0.7\<rparr>
      else base)"

text \<open>
  \<^verbatim>\<open>round(x, ndigits)\<close>: to the nearest multiple of \<open>10\<^sup>-\<^sup>n\<close>, a tie to the even one.
\<close>

definition round_half_even :: "rat \<Rightarrow> int" where
  "round_half_even x =
     (let f = \<lfloor>x\<rfloor>; d = x - of_int f in
      if d < 1 / 2 then f else if 1 / 2 < d then f + 1 else if even f then f else f + 1)"

definition py_round :: "rat \<Rightarrow> nat \<Rightarrow> rat" where
  "py_round x ndigits = of_int (round_half_even (x * 10 ^ ndigits)) / 10 ^ ndigits"

definition py_div :: "rat \<Rightarrow> rat \<Rightarrow> error + rat" where
  "py_div a b = (if b = 0 then Inl ZeroDivisionError else Inr (a / b))"

record stats =
  games_played :: int
  games_started :: int
  minutes_per_game :: rat
  field_goals_made :: rat
  field_goals_attempted :: rat
  field_goal_percentage :: rat
  three_pointers_made :: rat
  three_pointers_attempted :: rat
  three_point_percentage :: rat
  free_throws_made :: rat
  free_throws_attempted :: rat
  free_throw_percentage :: rat
  offensive_rebounds :: rat
  defensive_rebounds :: rat
  total_rebounds :: rat
  assists :: rat
  steals :: rat
  blocks :: rat
  turnovers :: rat
  personal_fouls :: rat
  points :: rat

text \<open>
  The values drawn before the result dictionary is built: games played, the three
  volumes and the three shooting percentages.
\<close>

record raw_stats =
  raw_games_played :: int
  raw_points :: rat
  raw_assists :: rat
  raw_rebounds :: rat
  fg_pct :: rat
  three_pct :: rat
  ft_pct :: rat

definition draw_raw_stats ::
  "position_base \<Rightarrow> era_multiplier \<Rightarrow> rng \<Rightarrow> error + (raw_stats \<times> rng)" where
  "draw_raw_stats base era_mult g0 =
     bind_result (randint 65 82 g0) (\<lambda>(games_played, g1).
       let (u_points, g2) = uniform 0.8 1.4 g1;
           (u_assists, g3) = uniform 0.7 1.4 g2;
           (u_rebounds, g4) = uniform 0.8 1.3 g3;
           (fg, g5) = uniform 0.40 0.55 g4;
           (u_three, g6) = uniform 0.25 0.45 g5;
           (ft, g7) = uniform 0.70 0.90 g6
       in Inr (\<lparr>raw_games_played = games_played,
                 raw_points = max 0.1 (b_points base * m_points era_mult * u_points),
                 raw_assists = max 0.1 (b_assists base * m_assists era_mult * u_assists),
                 raw_rebounds = max 0.1 (b_rebounds base * m_rebounds era_mult * u_rebounds),
                 fg_pct = fg,
                 three_pct = u_three * m_three_pct era_mult,
                 ft_pct = ft\<rparr>, g7))"

text \<open>The result dictionary; its entries are evaluated in the order they are written.\<close>

definition build_stats :: "position_base \<Rightarrow> raw_stats \<Rightarrow> rng \<Rightarrow> error + (stats \<times> rng)" where
  "build_stats base r g0 =
     bind_result (randint (raw_games_played r div 2) (raw_games_played r) g0) (\<lambda>(started, g1).
       let (minutes, g2) = uniform 25 40 g1 in
       bind_result (py_div (raw_points r * 0.38) (fg_pct r)) (\<lambda>fga.
       bind_result (py_div (raw_points r * 0.15) (three_pct r)) (\<lambda>tpa.
       bind_result (py_div (raw_points r * 0.22) (ft_pct r)) (\<lambda>fta.
         let (u_steals, g3) = uniform 0.6 1.4 g2;
             (u_blocks, g4) = uniform 0.4 2.2 g3;
             (tov, g5) = uniform 1.8 4.2 g4;
             (pf, g6) = uniform 1.8 3.8 g5
         in Inr (\<lparr>games_played = raw_games_played r,
                   games_started = started,
                   minutes_per_game = py_round minutes 1,
                   field_goals_made = py_round (raw_points r * 0.38) 1,
                   field_goals_attempted = py_round fga 1,
                   field_goal_percentage = py_round (fg_pct r) 3,
                   three_pointers_made = py_round (raw_points r * 0.15) 1,
                   three_pointers_attempted = py_round tpa 1,
                   three_point_percentage = py_round (three_pct r) 3,
                   free_throws_made = py_round (raw_points r * 0.22) 1,
                   free_throws_attempted = py_round fta 1,
                   free_throw_percentage = py_round (ft_pct r) 3,
                   offensive_rebounds = py_round (raw_rebounds r * 0.25) 1,
                   defensive_rebounds = py_round (raw_rebounds r * 0.75) 1,
                   total_rebounds = py_round (raw_rebounds r) 1,
                   assists = py_round (raw_assists r) 1,
                   steals = py_round ((case b_steals base of None \<Rightarrow> 1.0 | Some v \<Rightarrow> v) * u_steals) 1,
                   blocks = py_round ((case b_blocks base of None \<Rightarrow> 0.5 | Some v \<Rightarrow> v) * u_blocks) 1,
                   turnovers = py_round tov 1,
                   personal_fouls = py_round pf 1,
                   points = py_round (raw_points r) 1\<rparr>, g6)))))"

text \<open>
  \<^verbatim>\<open>_generate_era_appropriate_stats\<close>: the entry of the position (that of \<^verbatim>\<open>'SF'\<close> for an
  unknown position), the entry of the era (that of \<^verbatim>\<open>'regular'\<close> for an unknown era), the
  two adjustments, the draws and the result.
\<close>

definition effective_era_mult :: "int \<Rightarrow> string \<Rightarrow> error + era_multiplier" where
  "effective_era_mult year era_name =
     bind_result (dict_item era_multipliers ''regular'') (\<lambda>regular.
       Inr (modern_adjustment year (dict_get era_multipliers era_name regular)))"

definition effective_base :: "string \<Rightarrow> string \<Rightarrow> error + position_base" where
  "effective_base player_name position =
     bind_result (dict_item position_bases ''SF'') (\<lambda>sf.
       Inr (superstar_adjustment player_name (dict_get position_bases position sf)))"

definition generate_era_appropriate_stats ::
  "string \<Rightarrow> string \<Rightarrow> int \<Rightarrow> string \<Rightarrow> rng \<Rightarrow> error + (stats \<times> rng)" where
  "generate_era_appropriate_stats player_name position year era_name g =
     bind_result (effective_base player_name position) (\<lambda>base.
     bind_result (effective_era_mult year era_name) (\<lambda>era_mult.
     bind_result (draw_raw_stats base era_mult g) (\<lambda>(r, g').
       build_stats base r g')))"

subsection \<open>The rows\<close>

record team_row =
  team_id :: int
  team_name :: string
  team_abbreviation :: string
  team_city :: string
  team_conference :: string
  team_division :: string
  season :: string

record player_row =
  player_id :: int
  player_name :: string
  p_team_id :: int
  p_team_abbreviation :: string
  jersey_number :: string
  position :: string
  height :: string
  weight :: string
  age :: int
  college :: string
  country :: string
  draft_year :: int
  draft_round :: int
  draft_number :: int
  p_season :: string

record stat_row =
  s_player_id :: int
  s_player_name :: string
  s_season :: string
  s_team_id :: int
  s_team_abbreviation :: string
  per_mode :: string
  s_stats :: stats

subsection \<open>generate\_comprehensive\_data\<close>

text \<open>The local variables of \<^verbatim>\<open>generate_comprehensive_data\<close>, and the random generator.\<close>

record gen_state =
  all_teams :: "team_row list"
  all_players :: "player_row list"
  all_stats :: "stat_row list"
  team_id_counter :: int
  player_id_counter :: int
  rnd :: rng

text \<open>The loop over \<^verbatim>\<open>teams_dict.items()\<close>.\<close>

definition add_team :: "string \<Rightarrow> gen_state \<Rightarrow> string \<times> team_info \<Rightarrow> gen_state" where
  "add_team season_name st item =
     st\<lparr>all_teams := all_teams st @
           [\<lparr>team_id = team_id_counter st, team_name = name (snd item),
             team_abbreviation = fst item, team_city = city (snd item),
             team_conference = conference (snd item), team_division = division (snd item),
             season = season_name\<rparr>],
        team_id_counter := team_id_counter st + 1\<rparr>"

definition add_teams :: "string \<Rightarrow> (string \<times> team_info) list \<Rightarrow> gen_state \<Rightarrow> gen_state" where
  "add_teams season_name teams_dict st = foldl (add_team season_name) st teams_dict"

text \<open>The search for the id of the team with an abbreviation in a season: the first match.\<close>

definition find_team_id :: "team_row list \<Rightarrow> string \<Rightarrow> string \<Rightarrow> int option" where
  "find_team_id ts team_abbrev season_name =
     map_option team_id
       (find (\<lambda>team. team_abbreviation team = team_abbrev \<and> season team = season_name) ts)"

definition colleges :: "string list" where
  "colleges = [''Duke'', ''Kentucky'', ''North Carolina'', ''UCLA'', ''Kansas'', ''Michigan State'']"

definition countries :: "string list" where
  "countries = [''USA'', ''Canada'', ''France'', ''Germany'', ''Australia'', ''Spain'']"

text \<open>
  The player record; both loops build it the same way but for the range of the age
  (22 to 38 for a legendary player, 20 to 35 for the others).
\<close>

definition new_player_row ::
  "int \<Rightarrow> string \<Rightarrow> int \<Rightarrow> string \<Rightarrow> string \<Rightarrow> int \<Rightarrow> string \<Rightarrow> int \<Rightarrow> int \<Rightarrow> rng
     \<Rightarrow> error + (player_row \<times> rng)" where
  "new_player_row pid pname tid team_abbrev pos year season_name age_lo age_hi g0 =
     bind_result (randint 0 99 g0) (\<lambda>(jersey, g1).
     bind_result (randint 6 7 g1) (\<lambda>(feet, g2).
     bind_result (randint 0 11 g2) (\<lambda>(inches, g3).
     bind_result (randint 180 280 g3) (\<lambda>(pounds, g4).
     bind_result (randint age_lo age_hi g4) (\<lambda>(years, g5).
     bind_result (choice colleges g5) (\<lambda>(school, g6).
     bind_result (choice countries g6) (\<lambda>(nation, g7).
     bind_result (randint (max 1975 (year - 20)) year g7) (\<lambda>(drafted, g8).
     bind_result (randint 1 2 g8) (\<lambda>(round_no, g9).
     bind_result (randint 1 60 g9) (\<lambda>(pick, g10).
       Inr (\<lparr>player_id = pid, player_name = pname, p_team_id = tid,
              p_team_abbreviation = team_abbrev, jersey_number = str_int jersey,
              position = pos, height = str_int feet @ ''-'' @ str_int inches,
              weight = str_int pounds, age = years, college = school, country = nation,
              draft_year = drafted, draft_round = round_no, draft_number = pick,
              p_season = season_name\<rparr>, g10)))))))))))"

text \<open>
  What both loops do once the team id is found: append the player record, synthesise
  the statistics, append the stat record, and count the player id up.
\<close>

definition append_player ::
  "string \<Rightarrow> string \<Rightarrow> string \<Rightarrow> int \<Rightarrow> int \<Rightarrow> string \<Rightarrow> string \<Rightarrow> int \<Rightarrow> int \<Rightarrow> gen_state
     \<Rightarrow> error + gen_state" where
  "append_player pname pos team_abbrev tid year season_name era_name age_lo age_hi st =
     bind_result (new_player_row (player_id_counter st) pname tid team_abbrev pos year season_name
                    age_lo age_hi (rnd st)) (\<lambda>(row, g1).
     bind_result (generate_era_appropriate_stats pname pos year era_name g1) (\<lambda>(st_row, g2).
       Inr (st\<lparr>all_players := all_players st @ [row],
               all_stats := all_stats st @
                 [\<lparr>s_player_id = player_id_counter st, s_player_name = pname,
                   s_season = season_name, s_team_id = tid, s_team_abbreviation = team_abbrev,
                   per_mode = ''PerGame'', s_stats = st_row\<rparr>],
               player_id_counter := player_id_counter st + 1, rnd := g2\<rparr>)))"

text \<open>The loop over the legendary players of the year.\<close>

fun add_legendary_players ::
  "int \<Rightarrow> string \<Rightarrow> player_info list \<Rightarrow> gen_state \<Rightarrow> error + gen_state" where
  "add_legendary_players year season_name [] st = Inr st"
| "add_legendary_players year season_name (player # rest) st =
     bind_result (get_team_for_player (info_name player) (teams player) year) (\<lambda>team_abbrev.
       case find_team_id (all_teams st) team_abbrev season_name of
         None \<Rightarrow> add_legendary_players year season_name rest st
       | Some tid \<Rightarrow>
           bind_result (append_player (info_name player) (info_position player) team_abbrev tid
                          year season_name (era player) 22 38 st)
             (add_legendary_players year season_name rest))"

definition first_names :: "string list" where
  "first_names = [''Alex'', ''Marcus'', ''Devin'', ''Tyler'', ''Jordan'', ''Mason'', ''Logan'',
                  ''Ethan'', ''Noah'', ''Liam'', ''James'', ''Michael'', ''David'', ''Chris'', ''Kevin'']"

definition last_names :: "string list" where
  "last_names = [''Johnson'', ''Williams'', ''Brown'', ''Jones'', ''Garcia'', ''Miller'', ''Davis'',
                 ''Rodriguez'', ''Martinez'', ''Wilson'', ''Smith'', ''Anderson'', ''Taylor'',
                 ''Thomas'', ''Jackson'']"

definition positions :: "string list" where
  "positions = [''PG'', ''SG'', ''SF'', ''PF'', ''C'']"

text \<open>One round of the loop over the additional players.\<close>

definition add_extra_player ::
  "int \<Rightarrow> string \<Rightarrow> (string \<times> team_info) list \<Rightarrow> gen_state \<Rightarrow> error + gen_state" where
  "add_extra_player year season_name teams_dict st =
     bind_result (choice first_names (rnd st)) (\<lambda>(first, g1).
     bind_result (choice last_names g1) (\<lambda>(last, g2).
     bind_result (choice positions g2) (\<lambda>(pos, g3).
     bind_result (choice (map fst teams_dict) g3) (\<lambda>(team_abbrev, g4).
       case find_team_id (all_teams st) team_abbrev season_name of
         None \<Rightarrow> Inr (st\<lparr>rnd := g4\<rparr>)
       | Some tid \<Rightarrow>
           append_player (first @ '' '' @ last) pos team_abbrev tid year season_name ''regular''
             20 35 (st\<lparr>rnd := g4\<rparr>)))))"

fun add_extra_players ::
  "nat \<Rightarrow> int \<Rightarrow> string \<Rightarrow> (string \<times> team_info) list \<Rightarrow> gen_state \<Rightarrow> error + gen_state" where
  "add_extra_players 0 year season_name teams_dict st = Inr st"
| "add_extra_players (Suc n) year season_name teams_dict st =
     bind_result (add_extra_player year season_name teams_dict st)
       (add_extra_players n year season_name teams_dict)"

text \<open>The body of the loop over the seasons.\<close>

definition process_season :: "string \<Rightarrow> gen_state \<Rightarrow> error + gen_state" where
  "process_season season_name st =
     bind_result (year_of_season season_name) (\<lambda>year.
       let teams_dict = get_teams_for_era year;
           st1 = add_teams season_name teams_dict st
       in bind_result (add_legendary_players year season_name (get_players_for_era year) st1) (\<lambda>st2.
          bind_result (randint 40 80 (rnd st2)) (\<lambda>(num_extra_players, g).
            add_extra_players (nat num_extra_players) year season_name teams_dict (st2\<lparr>rnd := g\<rparr>))))"

fun process_seasons :: "string list \<Rightarrow> gen_state \<Rightarrow> error + gen_state" where
  "process_seasons [] st = Inr st"
| "process_seasons (season_name # rest) st =
     bind_result (process_season season_name st) (process_seasons rest)"

text \<open>
  \<^verbatim>\<open>DataFrame.drop_duplicates(subset=...)\<close>: of the rows with the same key, the first is
  kept. The second argument lists the keys seen so far.
\<close>

fun drop_duplicates_from :: "('a \<Rightarrow> 'k) \<Rightarrow> 'k list \<Rightarrow> 'a list \<Rightarrow> 'a list" where
  "drop_duplicates_from key seen [] = []"
| "drop_duplicates_from key seen (x # xs) =
     (if key x \<in> set seen then drop_duplicates_from key seen xs
      else x # drop_duplicates_from key (key x # seen) xs)"

definition drop_duplicates :: "('a \<Rightarrow> 'k) \<Rightarrow> 'a list \<Rightarrow> 'a list" where
  "drop_duplicates key xs = drop_duplicates_from key [] xs"

record generated =
  teams_df :: "team_row list"
  players_df :: "player_row list"
  stats_df :: "stat_row list"

definition initial_state :: "rng \<Rightarrow> gen_state" where
  "initial_state g = \<lparr>all_teams = [], all_players = [], all_stats = [],
                      team_id_counter = 1, player_id_counter = 1, rnd = g\<rparr>"

definition generate_comprehensive_data :: "int \<Rightarrow> int \<Rightarrow> rng \<Rightarrow> error + generated" where
  "generate_comprehensive_data start_year end_year g =
     bind_result (process_seasons (seasons start_year end_year) (initial_state g)) (\<lambda>st.
       Inr \<lparr>teams_df = drop_duplicates (\<lambda>t. (team_id t, season t)) (all_teams st),
            players_df = drop_duplicates (\<lambda>p. (player_id p, p_season p)) (all_players st),
            stats_df = all_stats st\<rparr>)"

subsection \<open>The statistic synthesis with its dictionaries as objects\<close>

text \<open>
  The synthesis changes its dictionaries in place (\<^verbatim>\<open>era_mult['points'] *= 1.2\<close>,
  \<^verbatim>\<open>base['points'] *= 2.0\<close>), and \<^verbatim>\<open>base\<close> and \<^verbatim>\<open>era_mult\<close> are references into the two
  tables. Whether a later call sees such a change depends on which objects the references
  name, so here the inner dictionaries are objects in a heap: an address maps to the
  dictionary stored there, and \<^verbatim>\<open>next_addr\<close> is the first address not yet used. The outer
  dictionary of a table is only read; it maps a key to the address of its entry.
\<close>

type_synonym addr = nat

type_synonym pydict = "(string \<times> rat) list"

record heap =
  objects :: "addr \<Rightarrow> pydict option"
  next_addr :: addr

text \<open>Evaluating an inner dictionary literal creates a new object.\<close>

definition new_dict :: "pydict \<Rightarrow> heap \<Rightarrow> addr \<times> heap" where
  "new_dict d h =
     (next_addr h, h\<lparr>objects := (objects h)(next_addr h \<mapsto> d), next_addr := Suc (next_addr h)\<rparr>)"

text \<open>Evaluating a table literal creates its entries in the order they are written.\<close>

fun build_table :: "(string \<times> pydict) list \<Rightarrow> heap \<Rightarrow> (string \<times> addr) list \<times> heap" where
  "build_table [] h = ([], h)"
| "build_table (entry # rest) h =
     (let r = new_dict (snd entry) h; t = build_table rest (snd r)
      in ((fst entry, fst r) # fst t, snd t))"

text \<open>\<^verbatim>\<open>d[k] = v\<close> on a dictionary: the value of an existing key is replaced, a new key is added.\<close>

fun dict_store :: "string \<Rightarrow> rat \<Rightarrow> pydict \<Rightarrow> pydict" where
  "dict_store k v [] = [(k, v)]"
| "dict_store k v (e # rest) = (if fst e = k then (k, v) # rest else e # dict_store k v rest)"

text \<open>
  \<^verbatim>\<open>d[k]\<close>, \<^verbatim>\<open>d.get(k)\<close> and \<^verbatim>\<open>d[k] = v\<close> through a reference \<open>a\<close>. A reference of the
  program always names an object; at an address without an object the three operations
  raise \<^verbatim>\<open>KeyError\<close>, find nothing and change nothing, and no call gets there.
\<close>

definition getitem :: "heap \<Rightarrow> addr \<Rightarrow> string \<Rightarrow> error + rat" where
  "getitem h a k = (case objects h a of None \<Rightarrow> Inl KeyError | Some d \<Rightarrow> dict_item d k)"

definition get_optional :: "heap \<Rightarrow> addr \<Rightarrow> string \<Rightarrow> rat option" where
  "get_optional h a k = (case objects h a of None \<Rightarrow> None | Some d \<Rightarrow> map_of d k)"

definition setitem :: "heap \<Rightarrow> addr \<Rightarrow> string \<Rightarrow> rat \<Rightarrow> heap" where
  "setitem h a k v =
     (case objects h a of None \<Rightarrow> h
      | Some d \<Rightarrow> h\<lparr>objects := (objects h)(a \<mapsto> dict_store k v d)\<rparr>)"

text \<open>\<^verbatim>\<open>d[k] *= c\<close>\<close>

definition scale_item :: "addr \<Rightarrow> string \<Rightarrow> rat \<Rightarrow> heap \<Rightarrow> error + heap" where
  "scale_item a k c h = bind_result (getitem h a k) (\<lambda>v. Inr (setitem h a k (v * c)))"

text \<open>The inner dictionary literals of the two tables, from the entries given above.\<close>

definition base_dict :: "position_base \<Rightarrow> pydict" where
  "base_dict b =
     [(''points'', b_points b), (''assists'', b_assists b), (''rebounds'', b_rebounds b)]
     @ (case b_steals b of None \<Rightarrow> [] | Some v \<Rightarrow> [(''steals'', v)])
     @ (case b_blocks b of None \<Rightarrow> [] | Some v \<Rightarrow> [(''blocks'', v)])"

definition era_dict :: "era_multiplier \<Rightarrow> pydict" where
  "era_dict m =
     [(''points'', m_points m), (''assists'', m_assists m), (''rebounds'', m_rebounds m),
      (''three_pct'', m_three_pct m)]"

definition position_bases_literal :: "(string \<times> pydict) list" where
  "position_bases_literal = map (\<lambda>e. (fst e, base_dict (snd e))) position_bases"

definition era_multipliers_literal :: "(string \<times> pydict) list" where
  "era_multipliers_literal = map (\<lambda>e. (fst e, era_dict (snd e))) era_multipliers"

text \<open>The adjustment \<^verbatim>\<open>if year >= 2020\<close>, on the object \<^verbatim>\<open>era_mult\<close> refers to.\<close>

definition modern_update :: "int \<Rightarrow> addr \<Rightarrow> heap \<Rightarrow> error + heap" where
  "modern_update year era_mult h =
     (if year \<ge> 2020
      then bind_result (scale_item era_mult ''points'' 1.2 h) (\<lambda>h1.
             Inr (setitem h1 era_mult ''three_pct'' 0.8))
      else Inr h)"

text \<open>The superstar adjustments, on the object \<^verbatim>\<open>base\<close> refers to.\<close>

definition superstar_update :: "string \<Rightarrow> addr \<Rightarrow> heap \<Rightarrow> error + heap" where
  "superstar_update pname base h =
     (if pname \<in> set [''Michael Jordan'', ''LeBron James'', ''Kobe Bryant'', ''Kevin Durant'',
                            ''Giannis Antetokounmpo'', ''Luka Doncic'']
      then bind_result (scale_item base ''points'' 2.0 h) (\<lambda>h1.
           bind_result (scale_item base ''assists'' 1.5 h1) (\<lambda>h2.
             scale_item base ''rebounds'' 1.3 h2))
      else if pname \<in> set [''Magic Johnson'', ''Stephen Curry'', ''Damian Lillard'', ''Trae Young'']
      then bind_result (scale_item base ''assists'' 2.0 h) (\<lambda>h1.
             scale_item base ''points'' 1.7 h1)
      else if pname \<in> set [''Shaquille O'Neal'', ''Hakeem Olajuwon'', ''David Robinson'',
                                 ''Nikola Jokic'', ''Joel Embiid'']
      then bind_result (scale_item base ''rebounds'' 1.6 h) (\<lambda>h1.
             scale_item base ''points'' 1.5
               (setitem h1 base ''blocks''
                  ((case get_optional h1 base ''blocks'' of None \<Rightarrow> 0 | Some v \<Rightarrow> v) * 2.5)))
      else if pname \<in> set [''Dennis Rodman'', ''Ben Wallace'']
      then bind_result (scale_item base ''rebounds'' 2.5 h) (\<lambda>h1.
             scale_item base ''points'' 0.7 h1)
      else Inr h)"

text \<open>
  What the draws and the result read from the two entries after the adjustments; nothing
  is written between the adjustments and these reads.
\<close>

definition read_base :: "heap \<Rightarrow> addr \<Rightarrow> error + position_base" where
  "read_base h a =
     bind_result (getitem h a ''points'') (\<lambda>p.
     bind_result (getitem h a ''assists'') (\<lambda>s.
     bind_result (getitem h a ''rebounds'') (\<lambda>r.
       Inr \<lparr>b_points = p, b_assists = s, b_rebounds = r,
            b_steals = get_optional h a ''steals'', b_blocks = get_optional h a ''blocks''\<rparr>)))"

definition read_era :: "heap \<Rightarrow> addr \<Rightarrow> error + era_multiplier" where
  "read_era h a =
     bind_result (getitem h a ''points'') (\<lambda>p.
     bind_result (getitem h a ''assists'') (\<lambda>s.
     bind_result (getitem h a ''rebounds'') (\<lambda>r.
     bind_result (getitem h a ''three_pct'') (\<lambda>t.
       Inr \<lparr>m_points = p, m_assists = s, m_rebounds = r, m_three_pct = t\<rparr>))))"

text \<open>
  \<^verbatim>\<open>_generate_era_appropriate_stats\<close> on the heap: both table literals are evaluated inside
  the function, so every call creates their objects anew; the references \<^verbatim>\<open>base\<close> and
  \<^verbatim>\<open>era_mult\<close> name objects of this call, and the updates change these. The function
  returns the heap it leaves beside its result.
\<close>

definition stats_in_heap ::
  "string \<Rightarrow> string \<Rightarrow> int \<Rightarrow> string \<Rightarrow> rng \<Rightarrow> heap \<Rightarrow> (error + (stats \<times> rng)) \<times> heap" where
  "stats_in_heap pname pos year era_name g h =
     (let pt = build_table position_bases_literal h in
      case dict_item (fst pt) ''SF'' of
        Inl e \<Rightarrow> (Inl e, snd pt)
      | Inr sf \<Rightarrow>
         (let base = dict_get (fst pt) pos sf;
              et = build_table era_multipliers_literal (snd pt) in
          case dict_item (fst et) ''regular'' of
            Inl e \<Rightarrow> (Inl e, snd et)
          | Inr regular \<Rightarrow>
             (let era_mult = dict_get (fst et) era_name regular in
              case modern_update year era_mult (snd et) of
                Inl e \<Rightarrow> (Inl e, snd et)
              | Inr h3 \<Rightarrow>
                 (case superstar_update pname base h3 of
                    Inl e \<Rightarrow> (Inl e, h3)
                  | Inr h4 \<Rightarrow>
                     (bind_result (read_base h4 base) (\<lambda>b.
                      bind_result (read_era h4 era_mult) (\<lambda>m.
                      bind_result (draw_raw_stats b m g) (\<lambda>(r, g').
                        build_stats b r g'))), h4)))))"

section \<open>The orchestrator (run\_complete\_pipeline.py)\<close>

subsection \<open>The four commands and their environment\<close>

text \<open>
  \<^verbatim>\<open>main\<close> starts four commands one after the other, each a Python process that runs code
  of this repository: an inline script that tests the connection, \<^verbatim>\<open>nba_ingest.py\<close>,
  \<^verbatim>\<open>database_loader.py\<close>, and an inline script that logs the table counts.
\<close>

datatype step = ConnectionTest | DataCollection | DatabaseLoading | DataVerification

text \<open>
  What happens to a command outside the code of its script: the interpreter runs the script
  (\<open>Runs\<close>: then the script decides the return code), or the process ends with a return
  code the script did not decide (\<open>Ended\<close>: the shell returns 127 when \<^verbatim>\<open>python3\<close> is not
  found, a module of another package cannot be imported, a file cannot be written, a signal
  ends the process), or \<^verbatim>\<open>subprocess.run\<close> itself raises (\<open>NotStarted\<close>).
\<close>

datatype launch = Runs | Ended int | NotStarted

text \<open>
  The directory \<^verbatim>\<open>data\<close> as \<^verbatim>\<open>database_loader.py\<close> finds it: the result of
  \<^verbatim>\<open>glob.glob('data/*.csv')\<close> and the files.
\<close>

record directory =
  csv_names :: "string list"
  contents :: filesystem

text \<open>
  The environment of a run of the pipeline: what happens to each command, whether
  \<^verbatim>\<open>create_engine(os.getenv('DATABASE_URL'))\<close> returns (it raises \<^verbatim>\<open>ArgumentError\<close> when the
  variable is not set or is not a database URL), the destination store and its tables, the
  directory \<^verbatim>\<open>data\<close> (\<open>None\<close> when there is none), the outcomes of
  \<^verbatim>\<open>int(os.getenv('START_YEAR', 1980))\<close> and \<^verbatim>\<open>int(os.getenv('END_YEAR', 2025))\<close>
  (\<^verbatim>\<open>ValueError\<close> when the variable is set to a text that is no integer), and the random
  generator of the generation.
\<close>

record world =
  w_launch :: "step \<Rightarrow> launch"
  w_engine_ok :: bool
  w_store :: store_env
  w_tables :: database
  w_data_dir :: "directory option"
  w_start_year :: "error + int"
  w_end_year :: "error + int"
  w_rng :: rng

subsection \<open>The scripts\<close>

text \<open>
  A script returns \<open>Inl\<close> of the exception that ends it or \<open>Inr\<close> of what it has done when it
  reaches its end. \<^verbatim>\<open>NBADatabaseLoader()\<close> creates the engine and connects to nothing yet.
\<close>

datatype loader_error = ArgumentError

definition new_loader :: "world \<Rightarrow> loader_error + unit" where
  "new_loader w = (if w_engine_ok w then Inr () else Inl ArgumentError)"

text \<open>
  The first command: \<^verbatim>\<open>loader = NBADatabaseLoader(); print('... successful!' if
  loader.connect() else '... failed!')\<close>. \<^verbatim>\<open>connect\<close> catches every exception and returns a
  boolean; the script prints one of two lines and ends. (Both lines start with a pictogram
  that is left out here.)
\<close>

definition connection_test_script :: "world \<Rightarrow> loader_error + string" where
  "connection_test_script w =
     (case new_loader w of
        Inl e \<Rightarrow> Inl e
      | Inr loader \<Rightarrow>
          Inr (if connect_ok (w_store w) then ''Database connection successful!''
               else ''Database connection failed!''))"

text \<open>
  The second command, \<^verbatim>\<open>main\<close> of \<^verbatim>\<open>nba_ingest.py\<close>: the two years are read from the
  environment, the data are generated, and \<^verbatim>\<open>save_data\<close> writes them. No exception is
  caught.
\<close>

definition nba_ingest_main :: "world \<Rightarrow> error + generated" where
  "nba_ingest_main w =
     bind_result (w_start_year w) (\<lambda>start_year.
     bind_result (w_end_year w) (\<lambda>end_year.
       generate_comprehensive_data start_year end_year (w_rng w)))"

text \<open>
  The third command, \<^verbatim>\<open>main\<close> of \<^verbatim>\<open>database_loader.py\<close>: the loader is created; without a
  directory \<^verbatim>\<open>data\<close>, or without a CSV file in it, \<^verbatim>\<open>main\<close> logs an error and returns;
  otherwise it calls \<^verbatim>\<open>load_all_data(data_dir, clear_existing=True)\<close> and logs whether it
  succeeded (after a success it also creates two views, inside a method that catches every
  exception). Every path ends with a plain return: \<^verbatim>\<open>main\<close> has no \<^verbatim>\<open>sys.exit\<close>.
\<close>

datatype loader_report = NoDataDirectory | NoCsvFiles | Finished load_result

definition database_loader_main :: "world \<Rightarrow> loader_error + loader_report" where
  "database_loader_main w =
     (case new_loader w of
        Inl e \<Rightarrow> Inl e
      | Inr loader \<Rightarrow>
          (case w_data_dir w of
             None \<Rightarrow> Inr NoDataDirectory
           | Some data_dir \<Rightarrow>
               if csv_names data_dir = [] then Inr NoCsvFiles
               else Inr (Finished (load_all_data (w_store w) (contents data_dir) ''data'' True
                                     (w_tables w)))))"

text \<open>
  The fourth command: \<^verbatim>\<open>loader = NBADatabaseLoader(); loader.connect();
  loader.get_table_counts()\<close>. What \<^verbatim>\<open>connect\<close> returns is not looked at, and
  \<^verbatim>\<open>get_table_counts\<close> logs the counts, catches every exception and returns nothing.
\<close>

definition verification_script :: "world \<Rightarrow> loader_error + unit" where
  "verification_script w = (case new_loader w of Inl e \<Rightarrow> Inl e | Inr loader \<Rightarrow> Inr ())"

text \<open>
  The return code of a Python process: 1 when an exception ends the script, 0 when the
  script reaches its end.
\<close>

definition exit_code :: "'e + 'a \<Rightarrow> int" where
  "exit_code r = (case r of Inl e \<Rightarrow> 1 | Inr v \<Rightarrow> 0)"

definition script_returncode :: "world \<Rightarrow> step \<Rightarrow> int" where
  "script_returncode w command =
     (case command of
        ConnectionTest \<Rightarrow> exit_code (connection_test_script w)
      | DataCollection \<Rightarrow> exit_code (nba_ingest_main w)
      | DatabaseLoading \<Rightarrow> exit_code (database_loader_main w)
      | DataVerification \<Rightarrow> exit_code (verification_script w))"

subsection \<open>run\_command and main\<close>

text \<open>\<^verbatim>\<open>subprocess.run(command, shell=True, ...)\<close>: the return code, or an exception.\<close>

datatype proc_result = Returned int | Raised

definition subprocess_run :: "world \<Rightarrow> step \<Rightarrow> proc_result" where
  "subprocess_run w command =
     (case w_launch w command of
        Runs \<Rightarrow> Returned (script_returncode w command)
      | Ended code \<Rightarrow> Returned code
      | NotStarted \<Rightarrow> Raised)"

text \<open>
  \<^verbatim>\<open>run_command\<close> looks at the return code only; an exception of \<^verbatim>\<open>subprocess.run\<close> is
  caught.
\<close>

definition run_command :: "world \<Rightarrow> step \<Rightarrow> bool" where
  "run_command w command =
     (case subprocess_run w command of
        Returned returncode \<Rightarrow> (if returncode = 0 then True else False)
      | Raised \<Rightarrow> False)"

text \<open>
  \<^verbatim>\<open>main\<close> of the orchestrator returns a boolean. The record holds it beside the commands
  that were started, in order, and whether the warning about the verification was logged:
  when the fourth command fails, \<^verbatim>\<open>main\<close> logs \<^verbatim>\<open>Data verification failed, but data may
  still be loaded correctly.\<close> and goes on.
\<close>

record run_report =
  completed :: bool
  started :: "step list"
  verification_warning :: bool

definition pipeline_main :: "world \<Rightarrow> run_report" where
  "pipeline_main w =
     (if \<not> run_command w ConnectionTest
        then \<lparr>completed = False, started = [ConnectionTest], verification_warning = False\<rparr>
      else if \<not> run_command w DataCollection
        then \<lparr>completed = False, started = [ConnectionTest, DataCollection],
              verification_warning = False\<rparr>
      else if \<not> run_command w DatabaseLoading
        then \<lparr>completed = False, started = [ConnectionTest, DataCollection, DatabaseLoading],
              verification_warning = False\<rparr>
      else \<lparr>completed = True,
             started = [ConnectionTest, DataCollection, DatabaseLoading, DataVerification],
             verification_warning = (\<not> run_command w DataVerification)\<rparr>)"

text \<open>\<^verbatim>\<open>sys.exit(0 if success else 1)\<close>\<close>

definition exit_status :: "world \<Rightarrow> int" where
  "exit_status w = (if completed (pipeline_main w) then 0 else 1)"

section \<open>Concrete environments used in the examples below\<close>

text \<open>A store that accepts everything, and one that differs only in rejecting \<^verbatim>\<open>TRUNCATE\<close>.\<close>

definition open_store :: store_env where
  "open_store = \<lparr>connect_ok = True, schema_ok = True,
                  truncate_ok = (\<lambda>table. True), accepts = (\<lambda>table old new. True)\<rparr>"

definition no_truncate_store :: store_env where
  "no_truncate_store = open_store\<lparr>truncate_ok := (\<lambda>table. False)\<rparr>"

definition empty_db :: database where
  "empty_db table = []"

definition empty_fs :: filesystem where
  "empty_fs path = None"

text \<open>One-row files of the three kinds the generator writes.\<close>

definition one_team_csv :: csv_file where
  "one_team_csv = Table \<lparr>columns = [''team_id'', ''team_name'', ''team_abbreviation'', ''season''],
       cells = [[Some ''14'', Some ''Los Angeles Lakers'', Some ''LAL'', Some ''2020-21'']]\<rparr>"

definition one_player_csv :: csv_file where
  "one_player_csv = Table \<lparr>columns = [''player_id'', ''player_name'', ''team_id'', ''season''],
       cells = [[Some ''1'', Some ''LeBron James'', Some ''14'', Some ''2020-21'']]\<rparr>"

definition one_stat_csv :: csv_file where
  "one_stat_csv = Table \<lparr>columns = [''player_id'', ''player_name'', ''season'', ''per_mode''],
       cells = [[Some ''1'', Some ''LeBron James'', Some ''2020-21'', Some ''PerGame'']]\<rparr>"

text \<open>The directory after \<^verbatim>\<open>save_data\<close> wrote these three files into an empty one.\<close>

definition generated_fs :: filesystem where
  "generated_fs = save_data one_team_csv one_player_csv one_stat_csv empty_fs"

text \<open>A directory with one per-mode stats file, and one whose player file does not parse.\<close>

definition per_game_fs :: filesystem where
  "per_game_fs = empty_fs(''data/player_stats_per_game.csv'' \<mapsto> one_stat_csv)"

definition malformed_fs :: filesystem where
  "malformed_fs = empty_fs(''data/players_all_seasons.csv'' \<mapsto> Malformed,
                           ''data/teams_all_seasons.csv'' \<mapsto> one_team_csv)"

text \<open>A heap that holds one dictionary, at address 0.\<close>

definition one_object_heap :: heap where
  "one_object_heap = \<lparr>objects = [0 \<mapsto> [(''points'', 1)]], next_addr = 1\<rparr>"

section \<open>Notions used in the statements and proofs about the loader\<close>

text \<open>The number of files the report marks as failed.\<close>

definition failures :: "(string \<times> file_outcome) list \<Rightarrow> nat" where
  "failures r = length (filter (\<lambda>e. snd e = LoadFailed) r)"

text \<open>The two counters of the loop agree with its report.\<close>

definition counters_ok :: "load_state \<Rightarrow> bool" where
  "counters_ok st \<longleftrightarrow> success_count st + failures (report st) = total_files st"

text \<open>Two stores with the same contents in the three destination tables.\<close>

definition same_tables :: "database \<Rightarrow> database \<Rightarrow> bool" where
  "same_tables d1 d2 \<longleftrightarrow> list_all (\<lambda>t. d1 t = d2 t) table_names"

definition same_progress :: "load_state \<Rightarrow> load_state \<Rightarrow> bool" where
  "same_progress s1 s2 \<longleftrightarrow> success_count s1 = success_count s2 \<and> total_files s1 = total_files s2
     \<and> report s1 = report s2 \<and> same_tables (store s1) (store s2)"

section \<open>Notions used in the statements about the generator\<close>

text \<open>
  An attempted value agrees with made / percentage within the rounding of the three
  numbers: there are a made value within half a tenth of the stored one and a positive
  percentage within half a thousandth of the stored one whose quotient is within half a
  tenth of the stored attempted value.
\<close>

definition within_rounding :: "rat \<Rightarrow> rat \<Rightarrow> rat \<Rightarrow> bool" where
  "within_rounding attempted made percentage \<longleftrightarrow>
     (\<exists>m p. \<bar>m - made\<bar> \<le> 1 / 20 \<and> \<bar>p - percentage\<bar> \<le> 1 / 2000 \<and> 0 < p
            \<and> \<bar>attempted - m / p\<bar> \<le> 1 / 20)"

definition shooting_consistent :: "stats \<Rightarrow> bool" where
  "shooting_consistent s \<longleftrightarrow>
     0 < field_goal_percentage s \<and> 0 < three_point_percentage s \<and> 0 < free_throw_percentage s
     \<and> within_rounding (field_goals_attempted s) (field_goals_made s) (field_goal_percentage s)
     \<and> within_rounding (three_pointers_attempted s) (three_pointers_made s) (three_point_percentage s)
     \<and> within_rounding (free_throws_attempted s) (free_throws_made s) (free_throw_percentage s)"

text \<open>
  A player record of a season that refers to a team record of that season in a list.
\<close>

definition player_linked :: "string \<Rightarrow> team_row list \<Rightarrow> player_row \<Rightarrow> bool" where
  "player_linked s ts p \<longleftrightarrow>
     p_season p = s \<and> list_ex (\<lambda>t. team_id t = p_team_id p \<and> season t = s) ts"

text \<open>
  What the two player loops do to the state in a season: the team records and the team
  counter stay, player records linked to the season's teams are appended, and so are
  stat records with consistent shooting numbers.
\<close>

definition extends :: "string \<Rightarrow> gen_state \<Rightarrow> gen_state \<Rightarrow> bool" where
  "extends s st st' \<longleftrightarrow>
     all_teams st' = all_teams st \<and> team_id_counter st' = team_id_counter st
     \<and> (\<exists>ps. all_players st' = all_players st @ ps \<and> list_all (player_linked s (all_teams st)) ps)
     \<and> (\<exists>ss. all_stats st' = all_stats st @ ss
              \<and> list_all (\<lambda>r. shooting_consistent (s_stats r)) ss)"

text \<open>The team record the loop over \<^verbatim>\<open>teams_dict.items()\<close> appends for an item.\<close>

definition team_row_of :: "string \<Rightarrow> int \<Rightarrow> string \<times> team_info \<Rightarrow> team_row" where
  "team_row_of s tid item =
     \<lparr>team_id = tid, team_name = name (snd item), team_abbreviation = fst item,
      team_city = city (snd item), team_conference = conference (snd item),
      team_division = division (snd item), season = s\<rparr>"

text \<open>The properties of the state that the loop over the seasons keeps.\<close>

definition keys_distinct :: "gen_state \<Rightarrow> bool" where
  "keys_distinct st \<longleftrightarrow> distinct (map (\<lambda>t. (team_abbreviation t, season t)) (all_teams st))"

definition refs_ok :: "team_row list \<Rightarrow> player_row list \<Rightarrow> bool" where
  "refs_ok ts ps \<longleftrightarrow>
     list_all (\<lambda>p. list_ex (\<lambda>t. team_id t = p_team_id p \<and> season t = p_season p) ts) ps"

definition stats_ok :: "stat_row list \<Rightarrow> bool" where
  "stats_ok rs \<longleftrightarrow> list_all (\<lambda>r. shooting_consistent (s_stats r)) rs"


text \<open>A random generator for the examples: the raw values 0, 1, 2, ...\<close>

definition identity_rng :: rng where
  "identity_rng i = i"

section \<open>Notions used in the statements about the orchestrator\<close>

text \<open>
  A command is stopped from outside when it cannot be started or its process ends with a
  non-zero return code that the script did not decide.
\<close>

definition stopped :: "world \<Rightarrow> step \<Rightarrow> bool" where
  "stopped w command =
     (case w_launch w command of Runs \<Rightarrow> False | Ended code \<Rightarrow> code \<noteq> 0 | NotStarted \<Rightarrow> True)"

text \<open>
  The years make the generation raise: one of the two is no integer, or the start year is
  below 1975 and not above the end year.
\<close>

definition years_rejected :: "world \<Rightarrow> bool" where
  "years_rejected w =
     (case w_start_year w of
        Inl e \<Rightarrow> True
      | Inr first_year \<Rightarrow>
          (case w_end_year w of
             Inl e \<Rightarrow> True
           | Inr last_year \<Rightarrow> first_year \<le> last_year \<and> first_year < 1975))"

text \<open>The reports of \<^verbatim>\<open>main\<close>: halted at a command, and run to the end.\<close>

definition halted_at :: "step list \<Rightarrow> run_report" where
  "halted_at commands = \<lparr>completed = False, started = commands, verification_warning = False\<rparr>"

definition ran_all :: "bool \<Rightarrow> run_report" where
  "ran_all warned =
     \<lparr>completed = True,
      started = [ConnectionTest, DataCollection, DatabaseLoading, DataVerification],
      verification_warning = warned\<rparr>"

section \<open>Worlds used in the examples about the orchestrator\<close>

text \<open>
  A world in which every command runs and nothing fails: the engine is created, the store
  accepts everything, the directory holds the files the generator writes, and the year is
  2020. The worlds after it differ from it in one thing each.
\<close>

definition plain_world :: world where
  "plain_world =
     \<lparr>w_launch = (\<lambda>command. Runs), w_engine_ok = True, w_store = open_store,
      w_tables = empty_db,
      w_data_dir = Some \<lparr>csv_names = [''data/teams_all_seasons.csv'',
                                      ''data/players_all_seasons.csv'',
                                      ''data/player_season_stats.csv''],
                         contents = generated_fs\<rparr>,
      w_start_year = Inr 2020, w_end_year = Inr 2020, w_rng = identity_rng\<rparr>"

text \<open>\<^verbatim>\<open>DATABASE_URL\<close> is not set.\<close>

definition world_without_url :: world where
  "world_without_url = plain_world\<lparr>w_engine_ok := False\<rparr>"

text \<open>\<^verbatim>\<open>START_YEAR=1970\<close> and \<^verbatim>\<open>END_YEAR=1971\<close>.\<close>

definition world_from_1970 :: world where
  "world_from_1970 = plain_world\<lparr>w_start_year := Inr 1970, w_end_year := Inr 1971\<rparr>"

text \<open>The process of one command is killed (return code -9).\<close>

definition world_killed_at :: "step \<Rightarrow> world" where
  "world_killed_at s = plain_world\<lparr>w_launch := (\<lambda>command. if command = s then Ended (- 9) else Runs)\<rparr>"

text \<open>The store refuses every connection.\<close>

definition world_store_down :: world where
  "world_store_down = plain_world\<lparr>w_store := open_store\<lparr>connect_ok := False\<rparr>\<rparr>"

section \<open>Properties of the loader\<close>

subsection \<open>The loop over the file mapping\<close>

lemma load_one_report:
  "map fst (report (load_one env fs d st m)) = map fst (report st) @ [fst m]"
  by (simp add: load_one_def Let_def)

lemma foldl_load_one_report:
  "map fst (report (foldl (load_one env fs d) st ms)) = map fst (report st) @ map fst ms"
  by (induction ms arbitrary: st) (simp_all add: load_one_report)

lemma load_one_counters: "counters_ok st \<Longrightarrow> counters_ok (load_one env fs d st m)"
  by (simp add: load_one_def Let_def counters_ok_def failures_def)

lemma foldl_load_one_counters:
  "counters_ok st \<Longrightarrow> counters_ok (foldl (load_one env fs d) st ms)"
  by (induction ms arbitrary: st) (simp_all add: load_one_counters)

lemma load_one_not_found:
  assumes "\<forall>e\<in>set (report st). snd e = NotFound \<longleftrightarrow> fs (path_join d (fst e)) = None"
  shows "\<forall>e\<in>set (report (load_one env fs d st m)).
           snd e = NotFound \<longleftrightarrow> fs (path_join d (fst e)) = None"
  using assms by (auto simp add: load_one_def Let_def)

lemma foldl_load_one_not_found:
  "\<forall>e\<in>set (report st). snd e = NotFound \<longleftrightarrow> fs (path_join d (fst e)) = None \<Longrightarrow>
   \<forall>e\<in>set (report (foldl (load_one env fs d) st ms)).
      snd e = NotFound \<longleftrightarrow> fs (path_join d (fst e)) = None"
proof (induction ms arbitrary: st)
  case Nil
  then show ?case by simp
next
  case (Cons m ms)
  from Cons.prems have "\<forall>e\<in>set (report (load_one env fs d st m)).
      snd e = NotFound \<longleftrightarrow> fs (path_join d (fst e)) = None"
    by (rule load_one_not_found)
  then show ?case using Cons.IH [of "load_one env fs d st m"] by simp
qed

lemma failures_zero: "failures r = 0 \<longleftrightarrow> (\<forall>e\<in>set r. snd e \<noteq> LoadFailed)"
  by (simp add: failures_def filter_empty_conv)

text \<open>
  C1, as stated, fails on the code: a mapped file that is absent from the directory is
  skipped with a warning and is not counted in \<^verbatim>\<open>total_files\<close>. The directory the generator
  writes holds two of the five mapped files; both load, three are not found, and the
  result is success.
\<close>

theorem load_all_data_missing_files_counterexample:
  "succeeded (load_all_data open_store generated_fs ''data'' True empty_db)
   \<and> file_report (load_all_data open_store generated_fs ''data'' True empty_db)
       = [(''players_all_seasons.csv'', Loaded), (''player_stats_per_game.csv'', NotFound),
          (''player_stats_totals.csv'', NotFound), (''player_stats_per_36.csv'', NotFound),
          (''teams_all_seasons.csv'', Loaded)]"
  by (simp add: load_all_data_def open_store_def generated_fs_def save_data_def empty_fs_def
      file_mappings_def load_one_def path_join_def Let_def load_csv_to_table_def
      one_team_csv_def one_player_csv_def df_empty_def)

text \<open>
  C1 (amended): the result of \<^verbatim>\<open>load_all_data\<close> is success if and only if the connection and
  the schema step succeed and no mapped file failed to load. When connection and schema
  succeed, each of the five mapped files is handled, in the order of the mapping, whatever
  happened to the files before it; a file is reported as not found exactly when it is
  absent from the directory, and an absent file does not make the result a failure.
\<close>

theorem load_all_data_success_iff:
  "(succeeded (load_all_data env fs d clear_existing db) \<longleftrightarrow>
      connect_ok env \<and> schema_ok env
      \<and> (\<forall>e\<in>set (file_report (load_all_data env fs d clear_existing db)). snd e \<noteq> LoadFailed))
   \<and> (connect_ok env \<and> schema_ok env \<longrightarrow>
        map fst (file_report (load_all_data env fs d clear_existing db)) = map fst file_mappings
        \<and> (\<forall>e\<in>set (file_report (load_all_data env fs d clear_existing db)).
              snd e = NotFound \<longleftrightarrow> fs (path_join d (fst e)) = None))"
proof (cases "connect_ok env \<and> schema_ok env")
  case False
  then show ?thesis by (auto simp add: load_all_data_def)
next
  case True
  define st0 where "st0 = \<lparr>success_count = 0, total_files = 0,
     store = (if clear_existing then clear_all env db else db), report = []\<rparr>"
  define st where "st = foldl (load_one env fs d) st0 file_mappings"
  have r: "load_all_data env fs d clear_existing db
             = \<lparr>succeeded = (success_count st = total_files st),
                final_store = store st, file_report = report st\<rparr>"
    using True by (simp add: load_all_data_def st_def st0_def Let_def)
  have "counters_ok st0" by (simp add: counters_ok_def st0_def failures_def)
  then have "counters_ok st" unfolding st_def by (rule foldl_load_one_counters)
  then have a: "success_count st = total_files st \<longleftrightarrow> (\<forall>e\<in>set (report st). snd e \<noteq> LoadFailed)"
    using failures_zero [of "report st"] by (auto simp add: counters_ok_def)
  have b: "map fst (report st) = map fst file_mappings"
    unfolding st_def using foldl_load_one_report [of env fs d st0 file_mappings]
    by (simp add: st0_def)
  have "\<forall>e\<in>set (report st0). snd e = NotFound \<longleftrightarrow> fs (path_join d (fst e)) = None"
    by (simp add: st0_def)
  then have c: "\<forall>e\<in>set (report st). snd e = NotFound \<longleftrightarrow> fs (path_join d (fst e)) = None"
    unfolding st_def by (rule foldl_load_one_not_found)
  show ?thesis using True a b c by (simp add: r)
qed

text \<open>
  The amended C1 at two directories: one holding a single loadable file (success), and
  one whose player file does not parse: the run fails, and the team file after it is
  loaded all the same.
\<close>

theorem load_all_data_success_iff_witness:
  "connect_ok open_store \<and> schema_ok open_store
   \<and> file_report (load_all_data open_store per_game_fs ''data'' True empty_db)
       = [(''players_all_seasons.csv'', NotFound), (''player_stats_per_game.csv'', Loaded),
          (''player_stats_totals.csv'', NotFound), (''player_stats_per_36.csv'', NotFound),
          (''teams_all_seasons.csv'', NotFound)]
   \<and> succeeded (load_all_data open_store per_game_fs ''data'' True empty_db)
   \<and> file_report (load_all_data open_store malformed_fs ''data'' True empty_db)
       = [(''players_all_seasons.csv'', LoadFailed), (''player_stats_per_game.csv'', NotFound),
          (''player_stats_totals.csv'', NotFound), (''player_stats_per_36.csv'', NotFound),
          (''teams_all_seasons.csv'', Loaded)]
   \<and> \<not> succeeded (load_all_data open_store malformed_fs ''data'' True empty_db)"
proof -
  have e: "connect_ok open_store \<and> schema_ok open_store" by (simp add: open_store_def)
  have p: "file_report (load_all_data open_store per_game_fs ''data'' True empty_db)
       = [(''players_all_seasons.csv'', NotFound), (''player_stats_per_game.csv'', Loaded),
          (''player_stats_totals.csv'', NotFound), (''player_stats_per_36.csv'', NotFound),
          (''teams_all_seasons.csv'', NotFound)]"
    by (simp add: load_all_data_def open_store_def per_game_fs_def empty_fs_def file_mappings_def
        load_one_def path_join_def Let_def load_csv_to_table_def one_stat_csv_def one_team_csv_def
        df_empty_def)
  have m: "file_report (load_all_data open_store malformed_fs ''data'' True empty_db)
       = [(''players_all_seasons.csv'', LoadFailed), (''player_stats_per_game.csv'', NotFound),
          (''player_stats_totals.csv'', NotFound), (''player_stats_per_36.csv'', NotFound),
          (''teams_all_seasons.csv'', Loaded)]"
    by (simp add: load_all_data_def open_store_def malformed_fs_def empty_fs_def file_mappings_def
        load_one_def path_join_def Let_def load_csv_to_table_def one_stat_csv_def one_team_csv_def
        df_empty_def)
  show ?thesis
    using e load_all_data_success_iff [of open_store per_game_fs "''data''" True empty_db]
      load_all_data_success_iff [of open_store malformed_fs "''data''" True empty_db]
    by (simp add: p m)
qed

subsection \<open>Full refresh\<close>

lemma load_csv_same:
  "same_tables d1 d2 \<Longrightarrow> t \<in> set table_names \<Longrightarrow>
   fst (load_csv_to_table env fs p t d1) = fst (load_csv_to_table env fs p t d2)
   \<and> same_tables (snd (load_csv_to_table env fs p t d1)) (snd (load_csv_to_table env fs p t d2))"
  by (auto simp add: load_csv_to_table_def same_tables_def list_all_iff
      split: option.splits csv_file.splits)

lemma load_one_same:
  assumes "same_progress s1 s2" "snd m \<in> set table_names"
  shows "same_progress (load_one env fs d s1 m) (load_one env fs d s2 m)"
proof -
  have st: "same_tables (store s1) (store s2)" using assms(1) by (simp add: same_progress_def)
  note l = load_csv_same [OF st assms(2), of env fs "path_join d (fst m)"]
  show ?thesis using assms(1) l
    by (auto simp add: load_one_def Let_def same_progress_def)
qed

lemma foldl_load_one_same:
  "same_progress s1 s2 \<Longrightarrow> \<forall>m\<in>set ms. snd m \<in> set table_names \<Longrightarrow>
   same_progress (foldl (load_one env fs d) s1 ms) (foldl (load_one env fs d) s2 ms)"
  by (induction ms arbitrary: s1 s2) (simp_all add: load_one_same)

lemma clear_all_table:
  "t \<in> set table_names \<Longrightarrow> clear_all env db t = (if truncate_ok env t then [] else db t)"
  by (auto simp add: clear_all_def clear_table_def table_names_def)

lemma mapped_tables: "\<forall>m\<in>set file_mappings. snd m \<in> set table_names"
  by (simp add: file_mappings_def table_names_def)

lemma counts_same: "same_tables d1 d2 \<Longrightarrow> get_table_counts d1 = get_table_counts d2"
  by (simp add: get_table_counts_def same_tables_def list_all_iff)

text \<open>
  C10, as stated, fails on the code: \<^verbatim>\<open>load_all_data\<close> ignores what \<^verbatim>\<open>clear_table\<close> returns.
  In a store that rejects \<^verbatim>\<open>TRUNCATE\<close> but accepts inserts, each run appends the rows of the
  files again, so the second run ends with other counts than the first.
\<close>

theorem full_refresh_counterexample:
  "get_table_counts (final_store (load_all_data no_truncate_store per_game_fs ''data'' True empty_db))
     = [0, 1, 0]
   \<and> get_table_counts (final_store (load_all_data no_truncate_store per_game_fs ''data'' True
         (final_store (load_all_data no_truncate_store per_game_fs ''data'' True empty_db))))
     = [0, 2, 0]"
  by (simp add: load_all_data_def no_truncate_store_def open_store_def per_game_fs_def empty_fs_def
      empty_db_def file_mappings_def load_one_def path_join_def Let_def clear_all_def clear_table_def
      table_names_def load_csv_to_table_def one_stat_csv_def df_empty_def frame_rows_def
      get_table_counts_def)

text \<open>
  C10 (amended): in a store where the \<^verbatim>\<open>TRUNCATE\<close> of each of the three tables succeeds,
  running \<^verbatim>\<open>load_all_data\<close> with \<^verbatim>\<open>clear_existing=True\<close> twice in a row, over the same
  directory and against the same store behaviour, leaves the same row counts in the
  three tables after the second run as after the first.
\<close>

theorem full_refresh_idempotent:
  assumes "list_all (truncate_ok env) table_names"
  shows "get_table_counts (final_store (load_all_data env fs d True
             (final_store (load_all_data env fs d True db))))
         = get_table_counts (final_store (load_all_data env fs d True db))"
proof (cases "connect_ok env \<and> schema_ok env")
  case False
  then show ?thesis by (auto simp add: load_all_data_def)
next
  case True
  define db' where "db' = final_store (load_all_data env fs d True db)"
  define st0 where "st0 = (\<lambda>x. \<lparr>success_count = 0, total_files = 0,
     store = clear_all env x, report = []\<rparr>)"
  have f: "\<And>x. final_store (load_all_data env fs d True x)
            = store (foldl (load_one env fs d) (st0 x) file_mappings)"
    using True by (simp add: load_all_data_def st0_def Let_def)
  have "same_tables (clear_all env db') (clear_all env db)"
    using assms by (simp add: same_tables_def list_all_iff clear_all_table)
  then have "same_progress (st0 db') (st0 db)"
    by (simp add: same_progress_def st0_def)
  then have "same_progress (foldl (load_one env fs d) (st0 db') file_mappings)
                           (foldl (load_one env fs d) (st0 db) file_mappings)"
    using mapped_tables by (rule foldl_load_one_same)
  then have "same_tables (final_store (load_all_data env fs d True db'))
                         (final_store (load_all_data env fs d True db))"
    by (simp add: f same_progress_def)
  then show ?thesis unfolding db'_def by (rule counts_same)
qed

text \<open>The amended C10 at a store that accepts everything and a directory with one file.\<close>

theorem full_refresh_idempotent_witness:
  "list_all (truncate_ok open_store) table_names
   \<and> get_table_counts (final_store (load_all_data open_store per_game_fs ''data'' True
             (final_store (load_all_data open_store per_game_fs ''data'' True empty_db))))
     = get_table_counts (final_store (load_all_data open_store per_game_fs ''data'' True empty_db))"
proof -
  have h: "list_all (truncate_ok open_store) table_names"
    by (simp add: open_store_def table_names_def)
  show ?thesis using h full_refresh_idempotent [OF h, of per_game_fs "''data''" empty_db] by simp
qed

subsection \<open>The generator's stats file and the loader's mapping\<close>

lemma load_one_fs_cong:
  "fs1 (path_join d (fst m)) = fs2 (path_join d (fst m)) \<Longrightarrow>
   load_one env fs1 d st m = load_one env fs2 d st m"
  by (simp add: load_one_def Let_def load_csv_to_table_def)

lemma foldl_load_one_fs_cong:
  "\<forall>m\<in>set ms. fs1 (path_join d (fst m)) = fs2 (path_join d (fst m)) \<Longrightarrow>
   foldl (load_one env fs1 d) st ms = foldl (load_one env fs2 d) st ms"
proof (induction ms arbitrary: st)
  case Nil
  show ?case by simp
next
  case (Cons m ms)
  have "load_one env fs1 d st m = load_one env fs2 d st m"
    using Cons.prems by (intro load_one_fs_cong) simp
  then show ?case using Cons by simp
qed

lemma load_all_data_fs_cong:
  assumes "\<forall>m\<in>set file_mappings. fs1 (path_join d (fst m)) = fs2 (path_join d (fst m))"
  shows "load_all_data env fs1 d c db = load_all_data env fs2 d c db"
  unfolding load_all_data_def foldl_load_one_fs_cong [OF assms] by (rule refl)

lemma load_one_other_table:
  "snd m = t \<longrightarrow> fs (path_join d (fst m)) = None \<Longrightarrow>
   store (load_one env fs d st m) t = store st t"
  by (auto simp add: load_one_def Let_def load_csv_to_table_def split: option.splits csv_file.splits)

lemma foldl_load_one_other_table:
  "\<forall>m\<in>set ms. snd m = t \<longrightarrow> fs (path_join d (fst m)) = None \<Longrightarrow>
   store (foldl (load_one env fs d) st ms) t = store st t"
  by (induction ms arbitrary: st) (simp_all add: load_one_other_table)

lemma save_data_mapped_paths:
  "\<forall>m\<in>set file_mappings.
     save_data t p s fs (path_join ''data'' (fst m)) = save_data t p s' fs (path_join ''data'' (fst m))"
  by (simp add: file_mappings_def save_data_def path_join_def)

lemma save_data_stat_paths:
  assumes "fs ''data/player_stats_per_game.csv'' = None"
    "fs ''data/player_stats_totals.csv'' = None" "fs ''data/player_stats_per_36.csv'' = None"
  shows "\<forall>m\<in>set file_mappings. snd m = ''player_season_stats'' \<longrightarrow>
     save_data t p s fs (path_join ''data'' (fst m)) = None"
  using assms by (simp add: file_mappings_def save_data_def path_join_def)

text \<open>
  C4: the file \<^verbatim>\<open>player_season_stats.csv\<close> that \<^verbatim>\<open>save_data\<close> writes is not a source file of
  the loader's mapping. So the load over the generator's directory \<^verbatim>\<open>data\<close> does not
  depend on the stats the generator wrote; and when that directory holds none of the
  three per-mode files of the mapping, the load inserts no row into
  \<^verbatim>\<open>player_season_stats\<close>: the table ends empty (when it was truncated) or as it was.
\<close>

theorem generated_stats_never_loaded:
  "''player_season_stats.csv'' \<notin> fst ` set file_mappings
   \<and> load_all_data env (save_data teams_csv players_csv stats_csv fs) ''data'' c db
       = load_all_data env (save_data teams_csv players_csv other_csv fs) ''data'' c db
   \<and> (fs ''data/player_stats_per_game.csv'' = None \<and> fs ''data/player_stats_totals.csv'' = None
        \<and> fs ''data/player_stats_per_36.csv'' = None \<longrightarrow>
      final_store (load_all_data env (save_data teams_csv players_csv stats_csv fs) ''data'' c db)
          ''player_season_stats''
        = (if connect_ok env \<and> schema_ok env \<and> c \<and> truncate_ok env ''player_season_stats''
           then [] else db ''player_season_stats''))"
proof (intro conjI impI)
  show "''player_season_stats.csv'' \<notin> fst ` set file_mappings"
    by (simp add: file_mappings_def)
  show "load_all_data env (save_data teams_csv players_csv stats_csv fs) ''data'' c db
       = load_all_data env (save_data teams_csv players_csv other_csv fs) ''data'' c db"
    by (rule load_all_data_fs_cong) (rule save_data_mapped_paths)
next
  let ?fs = "save_data teams_csv players_csv stats_csv fs"
  assume a: "fs ''data/player_stats_per_game.csv'' = None \<and> fs ''data/player_stats_totals.csv'' = None
        \<and> fs ''data/player_stats_per_36.csv'' = None"
  then have n: "\<forall>m\<in>set file_mappings. snd m = ''player_season_stats'' \<longrightarrow>
     ?fs (path_join ''data'' (fst m)) = None"
    using save_data_stat_paths by blast
  have k: "\<And>st. store (foldl (load_one env ?fs ''data'') st file_mappings) ''player_season_stats''
     = store st ''player_season_stats''"
    using n by (rule foldl_load_one_other_table)
  have t: "''player_season_stats'' \<in> set table_names" by (simp add: table_names_def)
  show "final_store (load_all_data env ?fs ''data'' c db) ''player_season_stats''
        = (if connect_ok env \<and> schema_ok env \<and> c \<and> truncate_ok env ''player_season_stats''
           then [] else db ''player_season_stats'')"
    by (simp add: load_all_data_def Let_def k clear_all_table [OF t])
qed

text \<open>C4 at an empty directory, into which the generator writes three one-row files.\<close>

theorem generated_stats_never_loaded_witness:
  "(empty_fs ''data/player_stats_per_game.csv'' = None \<and> empty_fs ''data/player_stats_totals.csv'' = None
        \<and> empty_fs ''data/player_stats_per_36.csv'' = None)
   \<and> final_store (load_all_data open_store (save_data one_team_csv one_player_csv one_stat_csv empty_fs)
          ''data'' True empty_db) ''player_season_stats'' = []"
proof -
  have h: "empty_fs ''data/player_stats_per_game.csv'' = None \<and> empty_fs ''data/player_stats_totals.csv'' = None
        \<and> empty_fs ''data/player_stats_per_36.csv'' = None" by (simp add: empty_fs_def)
  show ?thesis
    using h generated_stats_never_loaded [of open_store one_team_csv one_player_csv one_stat_csv
        empty_fs True empty_db one_stat_csv]
    by (simp add: open_store_def)
qed

section \<open>Properties of the generator\<close>

subsection \<open>Season strings\<close>

lemma digit_char_values:
  "digit_char 0 = CHR ''0''" "digit_char 1 = CHR ''1''" "digit_char 2 = CHR ''2''"
  "digit_char 3 = CHR ''3''" "digit_char 4 = CHR ''4''" "digit_char 5 = CHR ''5''"
  "digit_char 6 = CHR ''6''" "digit_char 7 = CHR ''7''" "digit_char 8 = CHR ''8''"
  "digit_char 9 = CHR ''9''" "digit_char (Suc 0) = CHR ''1''"
  by (simp_all add: digit_char_def char_of_def bit_0 bit_Suc)

lemma str_nat_1: "n < 10 \<Longrightarrow> str_nat n = [digit_char n]"
  by (simp add: str_nat.simps)

lemma str_nat_2: "10 \<le> n \<Longrightarrow> n < 100 \<Longrightarrow> str_nat n = [digit_char (n div 10), digit_char (n mod 10)]"
  by (subst str_nat.simps) (simp add: str_nat_1)

lemma str_nat_3:
  assumes "100 \<le> n" "n < 1000"
  shows "str_nat n = [digit_char (n div 100), digit_char (n div 10 mod 10), digit_char (n mod 10)]"
proof -
  have "10 \<le> n div 10" "n div 10 < 100" using assms by simp_all
  then have "str_nat (n div 10) = [digit_char (n div 10 div 10), digit_char (n div 10 mod 10)]"
    by (rule str_nat_2)
  moreover have "n div 10 div 10 = n div 100" by (simp add: div_mult2_eq [symmetric])
  ultimately show ?thesis using assms by (subst str_nat.simps) simp
qed

lemma str_nat_4:
  assumes "1000 \<le> n" "n < 10000"
  shows "str_nat n = [digit_char (n div 1000), digit_char (n div 100 mod 10),
                      digit_char (n div 10 mod 10), digit_char (n mod 10)]"
proof -
  have "100 \<le> n div 10" "n div 10 < 1000" using assms by simp_all
  then have "str_nat (n div 10) = [digit_char (n div 10 div 100),
      digit_char (n div 10 div 10 mod 10), digit_char (n div 10 mod 10)]"
    by (rule str_nat_3)
  moreover have "n div 10 div 10 = n div 100" "n div 10 div 100 = n div 1000"
    by (simp_all add: div_mult2_eq [symmetric])
  ultimately show ?thesis using assms by (subst str_nat.simps) simp
qed

lemma mod_100_digits:
  fixes n :: nat
  shows "n mod 100 div 10 = n div 10 mod 10" and "n mod 100 mod 10 = n mod 10"
proof -
  have m: "n mod 100 = 10 * (n div 10 mod 10) + n mod 10"
    using mod_mult2_eq [of n 10 10] by simp
  show "n mod 100 div 10 = n div 10 mod 10" unfolding m by simp
  show "n mod 100 mod 10 = n mod 10" unfolding m by simp
qed

lemma two_digits_of_four:
  assumes "1000 \<le> n" "n < 10000"
  shows "drop 2 (str_nat n) = zero_pad2 (str_nat (n mod 100))"
proof -
  note four = str_nat_4 [OF assms]
  show ?thesis
  proof (cases "n mod 100 < 10")
    case True
    then have "n mod 100 div 10 = 0" "n mod 100 mod 10 = n mod 100" by simp_all
    then have e: "n div 10 mod 10 = 0" "n mod 10 = n mod 100"
      by (simp_all add: mod_100_digits)
    have "str_nat (n mod 100) = [digit_char (n mod 100)]" using True by (rule str_nat_1)
    then show ?thesis unfolding four by (simp add: e zero_pad2_def digit_char_values)
  next
    case False
    then have a: "10 \<le> n mod 100" by simp
    have b: "n mod 100 < 100" by simp
    show ?thesis unfolding four str_nat_2 [OF a b] by (simp add: mod_100_digits zero_pad2_def)
  qed
qed

lemma season_str_four_digits:
  assumes "999 \<le> year" "year \<le> 9998"
  shows "season_str year = spec_season year"
proof -
  define n where "n = nat (year + 1)"
  have n: "1000 \<le> n" "n < 10000" using assms by (simp_all add: n_def)
  have a: "str_int (year + 1) = str_nat n" using assms by (simp add: str_int_def n_def)
  have "(year + 1) mod 100 = int (n mod 100)" using assms by (simp add: n_def zmod_int)
  then have b: "str_int ((year + 1) mod 100) = str_nat (n mod 100)"
    by (simp add: str_int_def)
  show ?thesis by (simp add: season_str_def spec_season_def a b two_digits_of_four [OF n])
qed

text \<open>
  C5 (amended): for every generation run and every year of its range whose successor has
  four digits (999 \<open>\<le>\<close> year \<open>\<le>\<close> 9998), the season string produced for that year is the
  year, a hyphen and \<open>(year + 1) mod 100\<close> padded to two digits.
\<close>

theorem season_format_four_digit_years:
  assumes "start_year \<le> year" "year \<le> end_year" "999 \<le> year" "year \<le> 9998"
  shows "seasons start_year end_year ! nat (year - start_year) = spec_season year
         \<and> spec_season year \<in> set (seasons start_year end_year)"
proof -
  have "season_str year \<in> set (seasons start_year end_year)"
    using assms(1,2) by (simp add: seasons_def)
  moreover have "seasons start_year end_year ! nat (year - start_year) = season_str year"
    using assms(1,2) by (simp add: seasons_def)
  ultimately show ?thesis using season_str_four_digits [OF assms(3,4)] by simp
qed

text \<open>The amended C5 at the year 1999 of the default range: \<^verbatim>\<open>1999-00\<close>.\<close>

theorem season_format_four_digit_years_witness:
  "(1980::int) \<le> 1999 \<and> (1999::int) \<le> 2025 \<and> (999::int) \<le> 1999 \<and> (1999::int) \<le> 9998
   \<and> seasons 1980 2025 ! nat (1999 - 1980) = spec_season 1999
   \<and> spec_season 1999 = ''1999-00''"
proof -
  have s: "spec_season 1999 = ''1999-00''"
    by (simp add: spec_season_def str_int_def str_nat.simps zero_pad2_def digit_char_values)
  show ?thesis using season_format_four_digit_years [of 1980 1999 2025] s by simp
qed

text \<open>
  C5, as stated, fails on the code: the season string takes the characters of
  \<^verbatim>\<open>str(year + 1)\<close> from the third on, which are the last two digits only when there are
  four. The year 10000 gives \<^verbatim>\<open>10000-001\<close>, not \<^verbatim>\<open>10000-01\<close>.
\<close>

theorem season_format_counterexample:
  "seasons 10000 10000 = [''10000-001''] \<and> spec_season 10000 = ''10000-01''"
  by (simp add: seasons_def season_str_def spec_season_def str_int_def str_nat.simps zero_pad2_def
      digit_char_values)

subsection \<open>Reading the year back from a season string\<close>

lemma of_char_digit_char: "d < 10 \<Longrightarrow> of_char (digit_char d) = 48 + d"
  by (simp add: digit_char_def)

lemma is_digit_digit_char: "d < 10 \<Longrightarrow> is_digit (digit_char d)"
  by (simp add: is_digit_def of_char_digit_char)

lemma str_nat_digits: "list_all is_digit (str_nat n)"
proof (induction n rule: str_nat.induct)
  case (1 n)
  show ?case
  proof (cases "n < 10")
    case True
    then show ?thesis by (subst str_nat.simps) (simp add: is_digit_digit_char)
  next
    case False
    then show ?thesis using 1 by (subst str_nat.simps) (simp add: is_digit_digit_char)
  qed
qed

lemma str_nat_not_empty: "str_nat n \<noteq> []"
  by (subst str_nat.simps) simp

lemma nat_of_digits_snoc: "nat_of_digits (s @ [c]) = 10 * nat_of_digits s + (of_char c - 48)"
  by (simp add: nat_of_digits_def)

lemma nat_of_digits_str_nat: "nat_of_digits (str_nat n) = n"
proof (induction n rule: str_nat.induct)
  case (1 n)
  show ?case
  proof (cases "n < 10")
    case True
    then show ?thesis
      by (subst str_nat.simps) (simp add: nat_of_digits_def of_char_digit_char)
  next
    case False
    then have "nat_of_digits (str_nat (n div 10)) = n div 10" using 1 by simp
    then show ?thesis using False
      by (subst str_nat.simps) (simp add: nat_of_digits_snoc of_char_digit_char)
  qed
qed

lemma hyphen_not_digit: "\<not> is_digit (CHR ''-'')"
  by (simp add: is_digit_def)

lemma str_nat_no_hyphen: "CHR ''-'' \<notin> set (str_nat n)"
  using str_nat_digits [of n] hyphen_not_digit by (auto simp add: list_all_iff)

lemma takeWhile_str_nat:
  "takeWhile (\<lambda>c. c \<noteq> CHR ''-'') (str_nat n @ CHR ''-'' # rest) = str_nat n"
proof -
  have "\<forall>x\<in>set (str_nat n). x \<noteq> CHR ''-''" using str_nat_no_hyphen [of n] by blast
  then show ?thesis by (simp add: takeWhile_tail)
qed

lemma int_of_str_str_nat: "int_of_str (str_nat n) = Inr (int n)"
  by (simp add: int_of_str_def str_nat_not_empty str_nat_digits nat_of_digits_str_nat)

lemma year_of_season_str: "0 \<le> year \<Longrightarrow> year_of_season (season_str year) = Inr year"
  by (simp add: year_of_season_def season_str_def str_int_def takeWhile_str_nat int_of_str_str_nat)

lemma year_of_season_negative: "year < 0 \<Longrightarrow> year_of_season (season_str year) = Inl ValueError"
  by (simp add: year_of_season_def season_str_def str_int_def int_of_str_def)

lemma season_str_inj:
  assumes "season_str a = season_str b"
  shows "a = b"
proof -
  have k: "takeWhile (\<lambda>c. c \<noteq> CHR ''-'') (season_str y) = (if y < 0 then [] else str_nat (nat y))" for y
    by (simp add: season_str_def str_int_def takeWhile_str_nat)
  have t: "takeWhile (\<lambda>c. c \<noteq> CHR ''-'') (tl (season_str y)) = str_nat (nat (- y))" if "y < 0" for y
    using that by (simp add: season_str_def str_int_def takeWhile_str_nat)
  have e: "takeWhile (\<lambda>c. c \<noteq> CHR ''-'') (season_str y) = [] \<longleftrightarrow> y < 0" for y
    using str_nat_not_empty [of "nat y"] by (simp add: k)
  have s: "a < 0 \<longleftrightarrow> b < 0"
    using e [of a] e [of b] assms by simp
  show ?thesis
  proof (cases "a < 0")
    case True
    then have "str_nat (nat (- a)) = str_nat (nat (- b))" using t [of a] t [of b] s assms by simp
    then have "nat (- a) = nat (- b)" using nat_of_digits_str_nat by metis
    then show ?thesis using True s by simp
  next
    case False
    then have "str_nat (nat a) = str_nat (nat b)" using k [of a] k [of b] s assms by simp
    then have "nat a = nat b" using nat_of_digits_str_nat by metis
    then show ?thesis using False s by simp
  qed
qed

lemma distinct_seasons: "distinct (seasons start_year end_year)"
  by (simp add: seasons_def distinct_map inj_on_def season_str_inj)

lemma distinct_team_abbreviations:
  "distinct (map fst historical_teams)" "distinct (map fst modern_teams)"
  by (simp_all add: historical_teams_def modern_teams_def)

subsection \<open>Rounding and random draws\<close>

lemma round_half_even_error: "\<bar>of_int (round_half_even x) - x\<bar> \<le> 1 / 2"
proof -
  have "of_int \<lfloor>x\<rfloor> \<le> x" "x < of_int \<lfloor>x\<rfloor> + 1" by linarith+
  then show ?thesis by (auto simp add: round_half_even_def Let_def)
qed

lemma py_round_error: "\<bar>py_round x n - x\<bar> \<le> 1 / (2 * 10 ^ n)"
proof -
  have p: "(0::rat) < 10 ^ n" by simp
  have "py_round x n - x = (of_int (round_half_even (x * 10 ^ n)) - x * 10 ^ n) / 10 ^ n"
    by (simp add: py_round_def diff_divide_distrib)
  then have "\<bar>py_round x n - x\<bar> = \<bar>of_int (round_half_even (x * 10 ^ n)) - x * 10 ^ n\<bar> / 10 ^ n"
    by (simp add: abs_divide)
  also have "\<dots> \<le> (1 / 2) / 10 ^ n"
    by (rule divide_right_mono [OF round_half_even_error]) simp
  finally show ?thesis by simp
qed

lemma round_half_even_ge_floor: "\<lfloor>x\<rfloor> \<le> round_half_even x"
  by (simp add: round_half_even_def Let_def)

lemma py_round_pos:
  assumes "1 / 10 ^ n \<le> x"
  shows "0 < py_round x n"
proof -
  have "1 \<le> x * 10 ^ n" using assms by (simp add: pos_divide_le_eq)
  then have "1 \<le> \<lfloor>x * 10 ^ n\<rfloor>" by (simp add: le_floor_iff)
  then have "1 \<le> round_half_even (x * 10 ^ n)"
    using round_half_even_ge_floor [of "x * 10 ^ n"] by linarith
  then have "(0::rat) < of_int (round_half_even (x * 10 ^ n))" by simp
  then show ?thesis by (simp add: py_round_def)
qed

lemma random_unit_range: "0 \<le> fst (random_unit g) \<and> fst (random_unit g) < 1"
proof -
  have "fst (next_raw g) mod 2 ^ 53 < (2::nat) ^ 53" by simp
  then have "(of_nat (fst (next_raw g) mod 2 ^ 53) :: rat) < of_nat ((2::nat) ^ 53)"
    by (simp only: of_nat_less_iff)
  then show ?thesis by (simp add: random_unit_def)
qed

lemma uniform_range:
  assumes "a \<le> b"
  shows "a \<le> fst (uniform a b g) \<and> fst (uniform a b g) \<le> b"
proof -
  have u: "0 \<le> fst (random_unit g)" "fst (random_unit g) \<le> 1"
    using random_unit_range [of g] by simp_all
  have "0 \<le> (b - a) * fst (random_unit g)" using assms u(1) by simp
  moreover have "(b - a) * fst (random_unit g) \<le> (b - a) * 1"
    using assms u(2) by (intro mult_left_mono) simp_all
  ultimately show ?thesis by (simp add: uniform_def)
qed

lemma randint_ok:
  assumes "a \<le> b"
  shows "\<exists>v g'. randint a b g = Inr (v, g') \<and> a \<le> v \<and> v \<le> b"
proof -
  have "fst (next_raw g) mod nat (b - a + 1) < nat (b - a + 1)" using assms by simp
  then have "int (fst (next_raw g) mod nat (b - a + 1)) \<le> b - a" using assms by linarith
  then show ?thesis using assms by (simp add: randint_def)
qed

lemma regular_entry:
  "dict_item era_multipliers ''regular''
     = Inr \<lparr>m_points = 1.0, m_assists = 1.0, m_rebounds = 1.0, m_three_pct = 0.5\<rparr>"
  by (simp add: dict_item_def era_multipliers_def)

lemma era_entry_three_pct: "3 / 10 \<le> m_three_pct (dict_get era_multipliers era_name
     \<lparr>m_points = 1.0, m_assists = 1.0, m_rebounds = 1.0, m_three_pct = 0.5\<rparr>)"
  by (simp add: dict_get_def era_multipliers_def)

lemma effective_era_mult_ok:
  "\<exists>em. effective_era_mult year era_name = Inr em \<and> 3 / 10 \<le> m_three_pct em"
  using era_entry_three_pct [of era_name]
  by (simp add: effective_era_mult_def regular_entry bind_result_def modern_adjustment_def)

lemma effective_base_ok: "\<exists>base. effective_base pname pos = Inr base"
  by (simp add: effective_base_def dict_item_def position_bases_def bind_result_def)

lemma draw_raw_stats_ok:
  assumes "3 / 10 \<le> m_three_pct em"
  shows "\<exists>r g'. draw_raw_stats base em g = Inr (r, g')
           \<and> 65 \<le> raw_games_played r \<and> raw_games_played r \<le> 82
           \<and> 2 / 5 \<le> fg_pct r \<and> 3 / 40 \<le> three_pct r \<and> 7 / 10 \<le> ft_pct r"
proof -
  obtain gp g1 where gp: "randint 65 82 g = Inr (gp, g1)" "65 \<le> gp" "gp \<le> 82"
    using randint_ok [of 65 82 g] by auto
  have u: "\<And>h. (1 / 4 :: rat) \<le> fst (uniform 0.25 0.45 h)"
    using uniform_range [of "0.25" "0.45"] by simp
  have f: "\<And>h. (2 / 5 :: rat) \<le> fst (uniform 0.40 0.55 h)"
    using uniform_range [of "0.40" "0.55"] by simp
  have t: "\<And>h. (7 / 10 :: rat) \<le> fst (uniform 0.70 0.90 h)"
    using uniform_range [of "0.70" "0.90"] by simp
  have m: "3 / 40 \<le> fst (uniform 0.25 0.45 h) * m_three_pct em" for h
  proof -
    have "(1 / 4) * (3 / 10) \<le> fst (uniform 0.25 0.45 h) * m_three_pct em"
    proof (rule mult_mono)
      show "1 / 4 \<le> fst (uniform 0.25 0.45 h)" by (rule u)
      show "3 / 10 \<le> m_three_pct em" by (rule assms)
      show "0 \<le> fst (uniform 0.25 0.45 h)" using u [of h] by linarith
      show "(0::rat) \<le> 3 / 10" by simp
    qed
    then show ?thesis by simp
  qed
  show ?thesis using f t m
    by (simp add: draw_raw_stats_def gp bind_result_def split_def Let_def)
qed

lemma within_rounding_rounded:
  assumes "0 < p"
  shows "within_rounding (py_round (m / p) 1) (py_round m 1) (py_round p 3)"
proof -
  have a: "\<bar>m - py_round m 1\<bar> \<le> 1 / 20"
    using py_round_error [of m 1] by (simp add: abs_minus_commute)
  have b: "\<bar>p - py_round p 3\<bar> \<le> 1 / 2000"
    using py_round_error [of p 3] by (simp add: abs_minus_commute)
  have c: "\<bar>py_round (m / p) 1 - m / p\<bar> \<le> 1 / 20"
    using py_round_error [of "m / p" 1] by simp
  show ?thesis unfolding within_rounding_def using a b c assms by blast
qed

lemma build_stats_ok:
  assumes "65 \<le> raw_games_played r" "2 / 5 \<le> fg_pct r" "3 / 40 \<le> three_pct r" "7 / 10 \<le> ft_pct r"
  shows "\<exists>s g'. build_stats base r g = Inr (s, g') \<and> shooting_consistent s"
proof -
  have "raw_games_played r div 2 \<le> raw_games_played r" using assms(1) by simp
  then obtain st g1 where st: "randint (raw_games_played r div 2) (raw_games_played r) g = Inr (st, g1)"
    using randint_ok [of "raw_games_played r div 2" "raw_games_played r" g] by blast
  have pos: "0 < fg_pct r" "0 < three_pct r" "0 < ft_pct r" using assms by simp_all
  have big: "1 / 10 ^ 3 \<le> fg_pct r" "1 / 10 ^ 3 \<le> three_pct r" "1 / 10 ^ 3 \<le> ft_pct r"
    using assms by simp_all
  note rp = py_round_pos [OF big(1)] py_round_pos [OF big(2)] py_round_pos [OF big(3)]
  note wr = within_rounding_rounded [OF pos(1), of "raw_points r * 0.38"]
    within_rounding_rounded [OF pos(2), of "raw_points r * 0.15"]
    within_rounding_rounded [OF pos(3), of "raw_points r * 0.22"]
  show ?thesis using pos wr rp
    by (simp add: build_stats_def st bind_result_def split_def Let_def py_div_def
        shooting_consistent_def)
qed

lemma generate_stats_ok:
  "\<exists>s g'. generate_era_appropriate_stats pname pos year era_name g = Inr (s, g')
     \<and> shooting_consistent s"
proof -
  obtain base where b: "effective_base pname pos = Inr base" using effective_base_ok by blast
  obtain em where em: "effective_era_mult year era_name = Inr em" "3 / 10 \<le> m_three_pct em"
    using effective_era_mult_ok by blast
  obtain r g1 where r: "draw_raw_stats base em g = Inr (r, g1)"
    "65 \<le> raw_games_played r" "2 / 5 \<le> fg_pct r" "3 / 40 \<le> three_pct r" "7 / 10 \<le> ft_pct r"
    using draw_raw_stats_ok [OF em(2)] by blast
  obtain s g2 where s: "build_stats base r g1 = Inr (s, g2)" "shooting_consistent s"
    using build_stats_ok [OF r(2,3,4,5)] by blast
  show ?thesis by (simp add: generate_era_appropriate_stats_def b em r s bind_result_def)
qed

subsection \<open>The tables of the statistic synthesis\<close>

text \<open>
  Evaluating a table literal leaves every object that existed before as it was, and gives
  each key of the literal a new object that holds the key's inner dictionary.
\<close>

lemma build_table_spec:
  "build_table lit h = (t, h') \<Longrightarrow>
     next_addr h \<le> next_addr h'
     \<and> (\<forall>a. a < next_addr h \<longrightarrow> objects h' a = objects h a)
     \<and> (map_of t k = None \<longleftrightarrow> map_of lit k = None)
     \<and> (\<forall>a. map_of t k = Some a \<longrightarrow>
            next_addr h \<le> a \<and> a < next_addr h' \<and> (\<exists>d. map_of lit k = Some d \<and> objects h' a = Some d))"
proof (induction lit arbitrary: h t)
  case Nil
  then show ?case by simp
next
  case (Cons entry rest)
  define h1 where "h1 = snd (new_dict (snd entry) h)"
  define t' where "t' = fst (build_table rest h1)"
  have p: "build_table (entry # rest) h = ((fst entry, next_addr h) # t', snd (build_table rest h1))"
    by (simp add: Let_def h1_def t'_def new_dict_def)
  have t: "t = (fst entry, next_addr h) # t'" and "h' = snd (build_table rest h1)"
    using Cons.prems p by simp_all
  then have b: "build_table rest h1 = (t', h')" by (simp add: t'_def)
  have n: "next_addr h1 = Suc (next_addr h)" by (simp add: h1_def new_dict_def)
  have o: "objects h1 = (objects h)(next_addr h \<mapsto> snd entry)" by (simp add: h1_def new_dict_def)
  note ih = Cons.IH [OF b]
  have f: "\<forall>a. a < next_addr h1 \<longrightarrow> objects h' a = objects h1 a" using ih by simp
  have here: "objects h' (next_addr h) = Some (snd entry)" using f n o by simp
  show ?case
  proof (cases "k = fst entry")
    case True
    then show ?thesis using ih n o here f
      by (cases entry) (auto simp add: t)
  next
    case False
    then show ?thesis using ih n o f
      by (cases entry) (auto simp add: t)
  qed
qed


lemma map_of_literal:
  "map_of (map (\<lambda>e. (fst e, f (snd e))) xs) k = map_option f (map_of xs k)"
  by (induction xs) auto

lemma build_table_entry:
  assumes "build_table (map (\<lambda>e. (fst e, f (snd e))) xs) h = (t, h')" "map_of xs k0 = Some v0"
  shows "\<exists>a0. dict_item t k0 = Inr a0
           \<and> next_addr h \<le> dict_get t k a0 \<and> dict_get t k a0 < next_addr h'
           \<and> objects h' (dict_get t k a0) = Some (f (dict_get xs k v0))"
proof -
  let ?lit = "map (\<lambda>e. (fst e, f (snd e))) xs"
  note s0 = build_table_spec [OF assms(1), of k0]
  note s = build_table_spec [OF assms(1), of k]
  have l0: "map_of ?lit k0 = Some (f v0)" by (simp add: map_of_literal assms(2))
  then obtain a0 where a0: "map_of t k0 = Some a0" using s0 by (cases "map_of t k0") auto
  then have r0: "next_addr h \<le> a0" "a0 < next_addr h'" "objects h' a0 = Some (f v0)"
    using s0 l0 by auto
  have d: "dict_item t k0 = Inr a0" by (simp add: dict_item_def a0)
  show ?thesis
  proof (cases "map_of xs k")
    case None
    then have "map_of t k = None" using s by (simp add: map_of_literal)
    then have "dict_get t k a0 = a0" "dict_get xs k v0 = v0" using None by (simp_all add: dict_get_def)
    then show ?thesis using d r0 by simp
  next
    case (Some v)
    then have l: "map_of ?lit k = Some (f v)" by (simp add: map_of_literal)
    then obtain a where a: "map_of t k = Some a" using s by (cases "map_of t k") auto
    then have "next_addr h \<le> a" "a < next_addr h'" "objects h' a = Some (f v)"
      using s l by auto
    moreover have "dict_get t k a0 = a" "dict_get xs k v0 = v" using a Some by (simp_all add: dict_get_def)
    ultimately show ?thesis using d by simp
  qed
qed

text \<open>
  The two adjustments change the object they are given and no other; what is read from
  that object afterwards is the entry adjusted as \<^const>\<open>modern_adjustment\<close> and
  \<^const>\<open>superstar_adjustment\<close> say.
\<close>

lemma modern_update_spec:
  assumes "objects h e = Some (era_dict m)"
  shows "\<exists>h'. modern_update year e h = Inr h' \<and> next_addr h' = next_addr h
           \<and> (\<forall>a. a \<noteq> e \<longrightarrow> objects h' a = objects h a)
           \<and> read_era h' e = Inr (modern_adjustment year m)"
  using assms
  by (cases m)
     (simp add: modern_update_def scale_item_def getitem_def setitem_def era_dict_def dict_item_def
        bind_result_def read_era_def modern_adjustment_def)

lemma superstar_update_spec:
  assumes "objects h b = Some (base_dict r)"
  shows "\<exists>h'. superstar_update pname b h = Inr h' \<and> next_addr h' = next_addr h
           \<and> (\<forall>a. a \<noteq> b \<longrightarrow> objects h' a = objects h a)
           \<and> read_base h' b = Inr (superstar_adjustment pname r)"
proof -
  obtain p a rb st bl where r: "r = \<lparr>b_points = p, b_assists = a, b_rebounds = rb, b_steals = st, b_blocks = bl\<rparr>"
    by (cases r) auto
  show ?thesis using assms unfolding r
    by (cases st; cases bl)
       (simp_all add: superstar_update_def scale_item_def getitem_def setitem_def get_optional_def
          base_dict_def dict_item_def bind_result_def read_base_def superstar_adjustment_def)
qed

lemma read_same_object:
  "objects h a = objects h' a \<Longrightarrow> read_era h a = read_era h' a \<and> read_base h a = read_base h' a"
  by (simp add: read_era_def read_base_def getitem_def get_optional_def)


text \<open>
  A call on any heap: the entry of the position and the entry of the era are two distinct
  objects created by this call, the adjustments reach only these two, and the result is that
  of \<^const>\<open>generate_era_appropriate_stats\<close>.
\<close>

lemma stats_in_heap_run:
  "\<exists>h'. stats_in_heap pname pos year era_name g h
           = (generate_era_appropriate_stats pname pos year era_name g, h')
        \<and> next_addr h \<le> next_addr h'
        \<and> (\<forall>a. a < next_addr h \<longrightarrow> objects h' a = objects h a)"
proof -
  obtain pt ht where pt: "build_table position_bases_literal h = (pt, ht)"
    by (cases "build_table position_bases_literal h")
  obtain et he where et: "build_table era_multipliers_literal ht = (et, he)"
    by (cases "build_table era_multipliers_literal ht")
  obtain sfrec where sfrec: "map_of position_bases ''SF'' = Some sfrec"
    by (simp add: position_bases_def)
  obtain regrec where regrec: "map_of era_multipliers ''regular'' = Some regrec"
    by (simp add: era_multipliers_def)
  define brec where "brec = dict_get position_bases pos sfrec"
  define mrec where "mrec = dict_get era_multipliers era_name regrec"
  have "\<exists>sf. dict_item pt ''SF'' = Inr sf
           \<and> next_addr h \<le> dict_get pt pos sf \<and> dict_get pt pos sf < next_addr ht
           \<and> objects ht (dict_get pt pos sf) = Some (base_dict brec)"
    unfolding brec_def
    by (rule build_table_entry [OF pt [unfolded position_bases_literal_def] sfrec])
  then obtain sf where sf: "dict_item pt ''SF'' = Inr sf"
    and b1: "next_addr h \<le> dict_get pt pos sf" and b2: "dict_get pt pos sf < next_addr ht"
    and b3: "objects ht (dict_get pt pos sf) = Some (base_dict brec)"
    by blast
  have "\<exists>regular. dict_item et ''regular'' = Inr regular
           \<and> next_addr ht \<le> dict_get et era_name regular \<and> dict_get et era_name regular < next_addr he
           \<and> objects he (dict_get et era_name regular) = Some (era_dict mrec)"
    unfolding mrec_def
    by (rule build_table_entry [OF et [unfolded era_multipliers_literal_def] regrec])
  then obtain regular where regular: "dict_item et ''regular'' = Inr regular"
    and e1: "next_addr ht \<le> dict_get et era_name regular"
    and e2: "dict_get et era_name regular < next_addr he"
    and e3: "objects he (dict_get et era_name regular) = Some (era_dict mrec)"
    by blast
  define base where "base = dict_get pt pos sf"
  define era_mult where "era_mult = dict_get et era_name regular"
  note ft = build_table_spec [OF pt, of "''SF''"]
  note fe = build_table_spec [OF et, of "''regular''"]
  have ne: "base \<noteq> era_mult" using b2 e1 by (simp add: base_def era_mult_def)
  have hb: "objects he base = Some (base_dict brec)"
    using fe b2 b3 by (simp add: base_def)
  obtain h3 where h3: "modern_update year era_mult he = Inr h3"
    and n3: "next_addr h3 = next_addr he"
    and o3: "\<forall>a. a \<noteq> era_mult \<longrightarrow> objects h3 a = objects he a"
    and r3: "read_era h3 era_mult = Inr (modern_adjustment year mrec)"
    using modern_update_spec [OF e3 [folded era_mult_def], of year] by blast
  have hb3: "objects h3 base = Some (base_dict brec)" using o3 ne hb by simp
  obtain h4 where h4: "superstar_update pname base h3 = Inr h4"
    and n4: "next_addr h4 = next_addr h3"
    and o4: "\<forall>a. a \<noteq> base \<longrightarrow> objects h4 a = objects h3 a"
    and r4: "read_base h4 base = Inr (superstar_adjustment pname brec)"
    using superstar_update_spec [OF hb3, of pname] by blast
  have "objects h4 era_mult = objects h3 era_mult" using o4 ne by simp
  then have r5: "read_era h4 era_mult = Inr (modern_adjustment year mrec)"
    using read_same_object [of h4 era_mult h3] r3 by simp
  have run: "stats_in_heap pname pos year era_name g h
               = (generate_era_appropriate_stats pname pos year era_name g, h4)"
    using sf regular h3 h4 r4 r5
    by (simp add: stats_in_heap_def pt et base_def [symmetric] era_mult_def [symmetric]
          generate_era_appropriate_stats_def effective_base_def effective_era_mult_def
          dict_item_def sfrec regrec brec_def mrec_def bind_result_def)
  have le: "next_addr h \<le> next_addr h4" using n4 n3 ft fe by simp
  have frame: "objects h4 a = objects h a" if "a < next_addr h" for a
  proof -
    have "a \<noteq> base" "a \<noteq> era_mult" "a < next_addr ht"
      using that b1 e1 ft by (simp_all add: base_def era_mult_def)
    then show ?thesis using o4 o3 fe ft that by simp
  qed
  show ?thesis using run le frame by blast
qed


text \<open>The points a call returns, from the two table entries and the second random draw.\<close>

lemma draw_raw_stats_points:
  assumes "draw_raw_stats base em g = Inr (r, g')" "randint 65 82 g = Inr (gp, g1)"
  shows "raw_points r = max 0.1 (b_points base * m_points em * fst (uniform 0.8 1.4 g1))"
  using assms by (auto simp add: draw_raw_stats_def bind_result_def split_def Let_def)

lemma build_stats_points:
  assumes "build_stats base r g = Inr (s, g')"
  shows "points s = py_round (raw_points r) 1"
  using assms
  by (auto simp add: build_stats_def bind_result_def split_def Let_def split: sum.splits)

lemma generate_stats_points:
  "\<exists>sf regular gp g1 s g'.
      dict_item position_bases ''SF'' = Inr sf
    \<and> dict_item era_multipliers ''regular'' = Inr regular
    \<and> randint 65 82 g = Inr (gp, g1)
    \<and> generate_era_appropriate_stats pname pos year era_name g = Inr (s, g')
    \<and> points s = py_round (max 0.1
          (b_points (superstar_adjustment pname (dict_get position_bases pos sf))
           * m_points (modern_adjustment year (dict_get era_multipliers era_name regular))
           * fst (uniform 0.8 1.4 g1))) 1"
proof -
  obtain sf where sf: "dict_item position_bases ''SF'' = Inr sf"
    by (simp add: dict_item_def position_bases_def)
  obtain regular where regular: "dict_item era_multipliers ''regular'' = Inr regular"
    by (simp add: regular_entry)
  define base where "base = superstar_adjustment pname (dict_get position_bases pos sf)"
  define em where "em = modern_adjustment year (dict_get era_multipliers era_name regular)"
  have b: "effective_base pname pos = Inr base"
    by (simp add: effective_base_def sf bind_result_def base_def)
  have e: "effective_era_mult year era_name = Inr em"
    by (simp add: effective_era_mult_def regular bind_result_def em_def)
  obtain gp g1 where gp: "randint 65 82 g = Inr (gp, g1)"
    using randint_ok [of 65 82 g] by auto
  obtain s g' where s: "generate_era_appropriate_stats pname pos year era_name g = Inr (s, g')"
    using generate_stats_ok [of pname pos year era_name g] by blast
  then obtain r g2 where r: "draw_raw_stats base em g = Inr (r, g2)"
    and bs: "build_stats base r g2 = Inr (s, g')"
    by (auto simp add: generate_era_appropriate_stats_def b e bind_result_def split: sum.splits)
  have "points s = py_round (max 0.1 (b_points base * m_points em * fst (uniform 0.8 1.4 g1))) 1"
    using build_stats_points [OF bs] draw_raw_stats_points [OF r gp] by simp
  then show ?thesis using sf regular gp s unfolding base_def em_def by blast
qed

text \<open>
  C3: the position table and the era table are static configuration. A call of the statistic
  synthesis builds both tables anew from their literals and changes only the entries it
  has built itself, so every dictionary that existed before the call is unchanged after
  it; the result of a call is the same on every heap, whatever calls came before and
  whatever they changed, and is the function \<^const>\<open>generate_era_appropriate_stats\<close> of the
  arguments and the random draws; and the points a call returns are the rounded product
  of the position's base points (with the superstar adjustment), the random factor, and
  the era table's points entry times 1.2, once, when the year is 2020 or later, and the
  entry itself before.
\<close>

theorem stats_tables_static:
  "(\<forall>a. a < next_addr h \<longrightarrow>
        objects (snd (stats_in_heap pname pos year era_name g h)) a = objects h a)
   \<and> fst (stats_in_heap pname pos year era_name g h)
       = fst (stats_in_heap pname pos year era_name g h2)
   \<and> fst (stats_in_heap pname pos year era_name g h)
       = generate_era_appropriate_stats pname pos year era_name g
   \<and> (\<exists>sf regular gp g1 s g'.
          dict_item position_bases ''SF'' = Inr sf
        \<and> dict_item era_multipliers ''regular'' = Inr regular
        \<and> randint 65 82 g = Inr (gp, g1)
        \<and> fst (stats_in_heap pname pos year era_name g h) = Inr (s, g')
        \<and> (2020 \<le> year \<longrightarrow>
             points s = py_round (max 0.1
               (b_points (superstar_adjustment pname (dict_get position_bases pos sf))
                * (m_points (dict_get era_multipliers era_name regular) * 1.2)
                * fst (uniform 0.8 1.4 g1))) 1)
        \<and> (year < 2020 \<longrightarrow>
             points s = py_round (max 0.1
               (b_points (superstar_adjustment pname (dict_get position_bases pos sf))
                * m_points (dict_get era_multipliers era_name regular)
                * fst (uniform 0.8 1.4 g1))) 1))"
proof -
  have r: "fst (stats_in_heap pname pos year era_name g k)
             = generate_era_appropriate_stats pname pos year era_name g" for k
    using stats_in_heap_run [of pname pos year era_name g k] by auto
  have f: "\<forall>a. a < next_addr h \<longrightarrow>
        objects (snd (stats_in_heap pname pos year era_name g h)) a = objects h a"
    using stats_in_heap_run [of pname pos year era_name g h] by auto
  obtain sf regular gp g1 s g' where p: "dict_item position_bases ''SF'' = Inr sf"
    "dict_item era_multipliers ''regular'' = Inr regular"
    "randint 65 82 g = Inr (gp, g1)"
    "generate_era_appropriate_stats pname pos year era_name g = Inr (s, g')"
    "points s = py_round (max 0.1
          (b_points (superstar_adjustment pname (dict_get position_bases pos sf))
           * m_points (modern_adjustment year (dict_get era_multipliers era_name regular))
           * fst (uniform 0.8 1.4 g1))) 1"
    using generate_stats_points [of g pname pos year era_name] by blast
  have m: "2020 \<le> year \<Longrightarrow> m_points (modern_adjustment year (dict_get era_multipliers era_name regular))
            = m_points (dict_get era_multipliers era_name regular) * 1.2"
    "year < 2020 \<Longrightarrow> m_points (modern_adjustment year (dict_get era_multipliers era_name regular))
            = m_points (dict_get era_multipliers era_name regular)"
    by (simp_all add: modern_adjustment_def)
  have p20: "points s = py_round (max 0.1
               (b_points (superstar_adjustment pname (dict_get position_bases pos sf))
                * (m_points (dict_get era_multipliers era_name regular) * 1.2)
                * fst (uniform 0.8 1.4 g1))) 1" if y: "2020 \<le> year"
    using p(5) unfolding m(1) [OF y] .
  have p19: "points s = py_round (max 0.1
               (b_points (superstar_adjustment pname (dict_get position_bases pos sf))
                * m_points (dict_get era_multipliers era_name regular)
                * fst (uniform 0.8 1.4 g1))) 1" if y: "year < 2020"
    using p(5) unfolding m(2) [OF y] .
  have s: "fst (stats_in_heap pname pos year era_name g h) = Inr (s, g')"
    using r [of h] p(4) by simp
  have e: "fst (stats_in_heap pname pos year era_name g h)
             = fst (stats_in_heap pname pos year era_name g h2)"
    using r [of h] r [of h2] by simp
  show ?thesis
    apply (intro conjI)
       apply (rule f)
      apply (rule e)
     apply (rule r)
    apply (rule exI [of _ sf], rule exI [of _ regular], rule exI [of _ gp], rule exI [of _ g1],
        rule exI [of _ s], rule exI [of _ g'])
    apply (intro conjI impI)
         apply (rule p(1))
        apply (rule p(2))
       apply (rule p(3))
      apply (rule s)
     apply (erule p20)
    apply (erule p19)
    done
qed


text \<open>Values for the example: rounding, the first two draws, and the entry of \<^verbatim>\<open>'SF'\<close>.\<close>

lemma round_half_even_unique:
  assumes "of_int n - 1 / 2 < x" "x < of_int n + 1 / 2"
  shows "round_half_even x = n"
proof (cases "of_int n \<le> x")
  case True
  have "\<lfloor>x\<rfloor> = n" using True assms(2) by (intro floor_unique) linarith+
  then show ?thesis using assms(2) by (simp add: round_half_even_def Let_def)
next
  case False
  have "\<lfloor>x\<rfloor> = n - 1" using False assms(1) by (intro floor_unique) simp_all
  then show ?thesis using assms(1) False by (simp add: round_half_even_def Let_def)
qed

lemma first_draws:
  "randint 65 82 identity_rng = Inr (65, \<lambda>i. Suc i)"
  "fst (uniform 0.8 1.4 (\<lambda>i. Suc i)) = 4 / 5 + 3 / 5 * (1 / 2 ^ 53)"
  by (simp_all add: randint_def next_raw_def identity_rng_def uniform_def random_unit_def)

lemma sf_entry:
  "dict_item position_bases ''SF''
     = Inr \<lparr>b_points = 13, b_assists = 3, b_rebounds = 5, b_steals = Some 1.1, b_blocks = None\<rparr>"
  by (simp add: dict_item_def position_bases_def)

text \<open>
  C3 at a heap that holds one dictionary: that dictionary is unchanged after a call for
  LeBron James in 2025 in the era of the 2020s; a second such call, made on the heap the
  first one left, returns 30.0 points (26 times 1.2 times 1.2 times the draw, rounded) and
  not the 35.9 of a multiplier raised twice; and a call for 1999 in the era of the 1980s
  returns 9.4 points (13 times 0.9 times the draw).
\<close>

theorem stats_tables_static_witness:
  "(0::nat) < next_addr one_object_heap \<and> (2020::int) \<le> 2025 \<and> (1999::int) < 2020
   \<and> objects (snd (stats_in_heap ''LeBron James'' ''SF'' 2025 ''2020s'' identity_rng
                      one_object_heap)) 0 = Some [(''points'', 1)]
   \<and> (\<exists>s g'. fst (stats_in_heap ''LeBron James'' ''SF'' 2025 ''2020s'' identity_rng
                     (snd (stats_in_heap ''LeBron James'' ''SF'' 2025 ''2020s'' identity_rng
                             one_object_heap))) = Inr (s, g')
          \<and> points s = 30)
   \<and> (\<exists>s g'. fst (stats_in_heap ''Larry Bird'' ''SF'' 1999 ''1980s'' identity_rng
                     one_object_heap) = Inr (s, g')
          \<and> points s = 47 / 5)"
proof -
  note a = stats_tables_static [where h = one_object_heap and pname = "''LeBron James''"
      and pos = "''SF''" and year = 2025 and era_name = "''2020s''" and g = identity_rng
      and ?h2.0 = one_object_heap, THEN conjunct1]
  note b = stats_tables_static [where pname = "''LeBron James''"
      and h = "snd (stats_in_heap ''LeBron James'' ''SF'' 2025 ''2020s'' identity_rng
                             one_object_heap)"
      and pos = "''SF''" and year = 2025 and era_name = "''2020s''" and g = identity_rng
      and ?h2.0 = one_object_heap, THEN conjunct2, THEN conjunct2, THEN conjunct2]
  note c = stats_tables_static [where h = one_object_heap and pname = "''Larry Bird''"
      and pos = "''SF''" and year = 1999 and era_name = "''1980s''" and g = identity_rng
      and ?h2.0 = one_object_heap, THEN conjunct2, THEN conjunct2, THEN conjunct2]
  have d: "m_points (dict_get era_multipliers ''2020s''
             \<lparr>m_points = 1.0, m_assists = 1.0, m_rebounds = 1.0, m_three_pct = 0.5\<rparr>) = 6 / 5"
    "m_points (dict_get era_multipliers ''1980s''
             \<lparr>m_points = 1.0, m_assists = 1.0, m_rebounds = 1.0, m_three_pct = 0.5\<rparr>) = 9 / 10"
    by (simp_all add: dict_get_def era_multipliers_def)
  have e: "b_points (superstar_adjustment ''LeBron James'' (dict_get position_bases ''SF''
             \<lparr>b_points = 13, b_assists = 3, b_rebounds = 5, b_steals = Some 1.1, b_blocks = None\<rparr>)) = 26"
    "b_points (superstar_adjustment ''Larry Bird'' (dict_get position_bases ''SF''
             \<lparr>b_points = 13, b_assists = 3, b_rebounds = 5, b_steals = Some 1.1, b_blocks = None\<rparr>)) = 13"
    by (simp_all add: dict_get_def position_bases_def superstar_adjustment_def)
  have "round_half_even (max 0.1 (26 * (6 / 5 * 1.2) * (4 / 5 + 3 / 5 * (1 / 2 ^ 53))) * 10 ^ 1) = 300"
    "round_half_even (max 0.1 (13 * (9 / 10) * (4 / 5 + 3 / 5 * (1 / 2 ^ 53))) * 10 ^ 1) = 94"
    by (rule round_half_even_unique; simp)+
  then have f: "py_round (max 0.1 (26 * (6 / 5 * 1.2) * (4 / 5 + 3 / 5 * (1 / 2 ^ 53)))) 1 = 30"
    "py_round (max 0.1 (13 * (9 / 10) * (4 / 5 + 3 / 5 * (1 / 2 ^ 53)))) 1 = 47 / 5"
    unfolding py_round_def by simp_all
  have 1: "objects (snd (stats_in_heap ''LeBron James'' ''SF'' 2025 ''2020s'' identity_rng
                      one_object_heap)) 0 = Some [(''points'', 1)]"
    using a by (simp add: one_object_heap_def)
  have "\<exists>sf regular gp g1 s g'.
          dict_item position_bases ''SF'' = Inr sf
        \<and> dict_item era_multipliers ''regular'' = Inr regular
        \<and> randint 65 82 identity_rng = Inr (gp, g1)
        \<and> fst (stats_in_heap ''LeBron James'' ''SF'' 2025 ''2020s'' identity_rng
                     (snd (stats_in_heap ''LeBron James'' ''SF'' 2025 ''2020s'' identity_rng
                             one_object_heap))) = Inr (s, g')
        \<and> points s = py_round (max 0.1
               (b_points (superstar_adjustment ''LeBron James'' (dict_get position_bases ''SF'' sf))
                * (m_points (dict_get era_multipliers ''2020s'' regular) * 1.2)
                * fst (uniform 0.8 1.4 g1))) 1"
    using b by simp
  then obtain sf regular gp g1 s g' where
    v: "dict_item position_bases ''SF'' = Inr sf"
      "dict_item era_multipliers ''regular'' = Inr regular"
      "randint 65 82 identity_rng = Inr (gp, g1)"
    and r: "fst (stats_in_heap ''LeBron James'' ''SF'' 2025 ''2020s'' identity_rng
                     (snd (stats_in_heap ''LeBron James'' ''SF'' 2025 ''2020s'' identity_rng
                             one_object_heap))) = Inr (s, g')"
    and p: "points s = py_round (max 0.1
               (b_points (superstar_adjustment ''LeBron James'' (dict_get position_bases ''SF'' sf))
                * (m_points (dict_get era_multipliers ''2020s'' regular) * 1.2)
                * fst (uniform 0.8 1.4 g1))) 1"
    by blast
  have w: "sf = \<lparr>b_points = 13, b_assists = 3, b_rebounds = 5, b_steals = Some 1.1, b_blocks = None\<rparr>"
    "regular = \<lparr>m_points = 1.0, m_assists = 1.0, m_rebounds = 1.0, m_three_pct = 0.5\<rparr>"
    "g1 = (\<lambda>i. Suc i)"
    using v unfolding sf_entry regular_entry first_draws(1) by simp_all
  have "points s = 30" using p unfolding w e d first_draws(2) f .
  then have 2: "\<exists>s g'. fst (stats_in_heap ''LeBron James'' ''SF'' 2025 ''2020s'' identity_rng
                     (snd (stats_in_heap ''LeBron James'' ''SF'' 2025 ''2020s'' identity_rng
                             one_object_heap))) = Inr (s, g')
          \<and> points s = 30"
    using r by blast
  have "\<exists>sf regular gp g1 s g'.
          dict_item position_bases ''SF'' = Inr sf
        \<and> dict_item era_multipliers ''regular'' = Inr regular
        \<and> randint 65 82 identity_rng = Inr (gp, g1)
        \<and> fst (stats_in_heap ''Larry Bird'' ''SF'' 1999 ''1980s'' identity_rng
                     one_object_heap) = Inr (s, g')
        \<and> points s = py_round (max 0.1
               (b_points (superstar_adjustment ''Larry Bird'' (dict_get position_bases ''SF'' sf))
                * m_points (dict_get era_multipliers ''1980s'' regular)
                * fst (uniform 0.8 1.4 g1))) 1"
    using c by simp
  then obtain sf regular gp g1 s g' where
    v: "dict_item position_bases ''SF'' = Inr sf"
      "dict_item era_multipliers ''regular'' = Inr regular"
      "randint 65 82 identity_rng = Inr (gp, g1)"
    and r: "fst (stats_in_heap ''Larry Bird'' ''SF'' 1999 ''1980s'' identity_rng
                     one_object_heap) = Inr (s, g')"
    and p: "points s = py_round (max 0.1
               (b_points (superstar_adjustment ''Larry Bird'' (dict_get position_bases ''SF'' sf))
                * m_points (dict_get era_multipliers ''1980s'' regular)
                * fst (uniform 0.8 1.4 g1))) 1"
    by blast
  have w: "sf = \<lparr>b_points = 13, b_assists = 3, b_rebounds = 5, b_steals = Some 1.1, b_blocks = None\<rparr>"
    "regular = \<lparr>m_points = 1.0, m_assists = 1.0, m_rebounds = 1.0, m_three_pct = 0.5\<rparr>"
    "g1 = (\<lambda>i. Suc i)"
    using v unfolding sf_entry regular_entry first_draws(1) by simp_all
  have "points s = 47 / 5" using p unfolding w e d first_draws(2) f .
  then have 3: "\<exists>s g'. fst (stats_in_heap ''Larry Bird'' ''SF'' 1999 ''1980s'' identity_rng
                     one_object_heap) = Inr (s, g')
          \<and> points s = 47 / 5"
    using r by blast
  show ?thesis using 1 2 3 by (simp add: one_object_heap_def)
qed

subsection \<open>The loops of the generation\<close>

lemma bind_result_Inr: "bind_result r f = Inr y \<longleftrightarrow> (\<exists>x. r = Inr x \<and> f x = Inr y)"
  by (cases r) (simp_all add: bind_result_def)

lemma extends_refl: "extends s st st"
  by (simp add: extends_def)

lemma extends_rnd: "extends s st (st\<lparr>rnd := g\<rparr>)"
  by (simp add: extends_def)

lemma extends_trans:
  assumes "extends s a b" "extends s b c"
  shows "extends s a c"
proof -
  obtain ps ss where 1: "all_teams b = all_teams a" "team_id_counter b = team_id_counter a"
    "all_players b = all_players a @ ps" "list_all (player_linked s (all_teams a)) ps"
    "all_stats b = all_stats a @ ss" "list_all (\<lambda>r. shooting_consistent (s_stats r)) ss"
    using assms(1) by (auto simp add: extends_def)
  obtain ps' ss' where 2: "all_teams c = all_teams b" "team_id_counter c = team_id_counter b"
    "all_players c = all_players b @ ps'" "list_all (player_linked s (all_teams b)) ps'"
    "all_stats c = all_stats b @ ss'" "list_all (\<lambda>r. shooting_consistent (s_stats r)) ss'"
    using assms(2) by (auto simp add: extends_def)
  have p: "all_players c = all_players a @ (ps @ ps')" using 1 2 by simp
  have q: "list_all (player_linked s (all_teams a)) (ps @ ps')" using 1 2 by simp
  have r: "all_stats c = all_stats a @ (ss @ ss')" using 1 2 by simp
  have t: "list_all (\<lambda>r. shooting_consistent (s_stats r)) (ss @ ss')" using 1 2 by simp
  show ?thesis unfolding extends_def using 1(1,2) 2(1,2) p q r t by metis
qed

lemma new_player_row_shape:
  assumes "new_player_row pid pname tid abbrev pos year s lo hi g = Inr (row, g')"
  shows "player_id row = pid \<and> player_name row = pname \<and> p_team_id row = tid
         \<and> p_team_abbreviation row = abbrev \<and> p_season row = s"
  using assms by (auto simp add: new_player_row_def bind_result_Inr)

lemma new_player_row_total:
  assumes "1975 \<le> year" "lo \<le> hi"
  shows "\<exists>row g'. new_player_row pid pname tid abbrev pos year s lo hi g = Inr (row, g')"
  using assms
  by (simp add: new_player_row_def randint_def choice_def bind_result_def colleges_def countries_def)

lemma generate_stats_shape:
  assumes "generate_era_appropriate_stats pname pos year era_name g = Inr (s, g')"
  shows "shooting_consistent s"
  using generate_stats_ok [of pname pos year era_name g] assms by auto

lemma append_player_shape:
  assumes "append_player pname pos abbrev tid year s era_name lo hi st = Inr st'"
    and "list_ex (\<lambda>t. team_id t = tid \<and> season t = s) (all_teams st)"
  shows "extends s st st'
         \<and> (\<exists>row srow. all_players st' = all_players st @ [row] \<and> player_name row = pname
                \<and> p_team_abbreviation row = abbrev \<and> p_season row = s
                \<and> all_stats st' = all_stats st @ [srow] \<and> s_player_name srow = pname)"
proof -
  obtain row g1 sr g2 where
    r: "new_player_row (player_id_counter st) pname tid abbrev pos year s lo hi (rnd st) = Inr (row, g1)"
    and g: "generate_era_appropriate_stats pname pos year era_name g1 = Inr (sr, g2)"
    and st': "st' = st\<lparr>all_players := all_players st @ [row],
               all_stats := all_stats st @
                 [\<lparr>s_player_id = player_id_counter st, s_player_name = pname,
                   s_season = s, s_team_id = tid, s_team_abbreviation = abbrev,
                   per_mode = ''PerGame'', s_stats = sr\<rparr>],
               player_id_counter := player_id_counter st + 1, rnd := g2\<rparr>"
    using assms(1) by (auto simp add: append_player_def bind_result_Inr)
  note sh = new_player_row_shape [OF r]
  have l: "player_linked s (all_teams st) row" using sh assms(2) by (simp add: player_linked_def)
  have c: "shooting_consistent sr" using g by (rule generate_stats_shape)
  show ?thesis using sh l c by (simp add: st' extends_def)
qed

lemma append_player_total:
  assumes "1975 \<le> year" "lo \<le> hi"
  shows "\<exists>st'. append_player pname pos abbrev tid year s era_name lo hi st = Inr st'"
proof -
  obtain row g1 where
    r: "new_player_row (player_id_counter st) pname tid abbrev pos year s lo hi (rnd st) = Inr (row, g1)"
    using new_player_row_total [OF assms] by blast
  obtain sr g2 where "generate_era_appropriate_stats pname pos year era_name g1 = Inr (sr, g2)"
    using generate_stats_ok by blast
  then show ?thesis by (simp add: append_player_def r bind_result_def)
qed

lemma find_team_id_Some:
  assumes "find_team_id ts abbrev s = Some tid"
  shows "list_ex (\<lambda>t. team_id t = tid \<and> season t = s) ts"
proof -
  obtain t where "find (\<lambda>team. team_abbreviation team = abbrev \<and> season team = s) ts = Some t"
    "team_id t = tid"
    using assms by (auto simp add: find_team_id_def)
  then have "t \<in> set ts \<and> team_id t = tid \<and> season t = s"
    by (auto simp add: find_Some_iff)
  then show ?thesis by (auto simp add: list_ex_iff)
qed

lemma add_legendary_shape:
  "add_legendary_players year s pis st = Inr st' \<Longrightarrow> extends s st st'"
proof (induction pis arbitrary: st)
  case Nil
  then show ?case by (simp add: extends_refl)
next
  case (Cons p pis)
  from Cons.prems obtain abbrev where
    a: "get_team_for_player (info_name p) (teams p) year = Inr abbrev"
    and b: "(case find_team_id (all_teams st) abbrev s of
         None \<Rightarrow> add_legendary_players year s pis st
       | Some tid \<Rightarrow>
           bind_result (append_player (info_name p) (info_position p) abbrev tid
                          year s (era p) 22 38 st)
             (add_legendary_players year s pis)) = Inr st'"
    by (auto simp add: bind_result_Inr)
  show ?case
  proof (cases "find_team_id (all_teams st) abbrev s")
    case None
    then show ?thesis using b Cons.IH by simp
  next
    case (Some tid)
    then obtain st1 where
      1: "append_player (info_name p) (info_position p) abbrev tid year s (era p) 22 38 st = Inr st1"
      and 2: "add_legendary_players year s pis st1 = Inr st'"
      using b by (auto simp add: bind_result_Inr)
    have "extends s st st1"
      using append_player_shape [OF 1 find_team_id_Some [OF Some]] by simp
    moreover have "extends s st1 st'" using 2 by (rule Cons.IH)
    ultimately show ?thesis by (rule extends_trans)
  qed
qed

lemma get_team_for_player_total:
  "possible \<noteq> [] \<Longrightarrow> \<exists>abbrev. get_team_for_player pname possible year = Inr abbrev"
  by (cases possible) (simp_all add: get_team_for_player_def)

lemma add_legendary_total:
  assumes "1975 \<le> year"
  shows "list_all (\<lambda>p. teams p \<noteq> []) pis \<Longrightarrow> \<exists>st'. add_legendary_players year s pis st = Inr st'"
proof (induction pis arbitrary: st)
  case Nil
  show ?case by simp
next
  case (Cons p pis)
  from Cons.prems have "teams p \<noteq> []" by simp
  then obtain abbrev where a: "get_team_for_player (info_name p) (teams p) year = Inr abbrev"
    using get_team_for_player_total [of "teams p" "info_name p" year] by blast
  have ih: "\<And>x. \<exists>st'. add_legendary_players year s pis x = Inr st'"
    using Cons by simp
  show ?case
  proof (cases "find_team_id (all_teams st) abbrev s")
    case None
    then show ?thesis using ih [of st] by (simp add: a bind_result_def)
  next
    case (Some tid)
    have "\<exists>st1. append_player (info_name p) (info_position p) abbrev tid year s (era p) 22 38 st
            = Inr st1"
      by (rule append_player_total [OF assms]) simp
    then obtain st1 where
      "append_player (info_name p) (info_position p) abbrev tid year s (era p) 22 38 st = Inr st1"
      by blast
    then show ?thesis using ih [of st1] Some by (simp add: a bind_result_def)
  qed
qed

lemma add_extra_player_shape:
  assumes "add_extra_player year s td st = Inr st'"
  shows "extends s st st'"
proof -
  obtain first g1 last g2 pos g3 abbrev g4 where
    b: "(case find_team_id (all_teams st) abbrev s of
         None \<Rightarrow> Inr (st\<lparr>rnd := g4\<rparr>)
       | Some tid \<Rightarrow>
           append_player (first @ '' '' @ last) pos abbrev tid year s ''regular''
             20 35 (st\<lparr>rnd := g4\<rparr>)) = Inr st'"
    using assms by (auto simp add: add_extra_player_def bind_result_Inr)
  show ?thesis
  proof (cases "find_team_id (all_teams st) abbrev s")
    case None
    then show ?thesis using b extends_rnd [of s st g4] by auto
  next
    case (Some tid)
    then have 1: "append_player (first @ '' '' @ last) pos abbrev tid year s ''regular''
             20 35 (st\<lparr>rnd := g4\<rparr>) = Inr st'"
      using b by simp
    have "list_ex (\<lambda>t. team_id t = tid \<and> season t = s) (all_teams (st\<lparr>rnd := g4\<rparr>))"
      using find_team_id_Some [OF Some] by simp
    then have "extends s (st\<lparr>rnd := g4\<rparr>) st'"
      using append_player_shape [OF 1] by simp
    then show ?thesis using extends_trans [OF extends_rnd] by blast
  qed
qed

lemma add_extra_player_total:
  assumes "1975 \<le> year" "td \<noteq> []"
  shows "\<exists>st'. add_extra_player year s td st = Inr st'"
proof -
  have c: "\<And>xs g. xs \<noteq> [] \<Longrightarrow> choice xs g = Inr (xs ! (fst (next_raw g) mod length xs), snd (next_raw g))"
    by (simp add: choice_def)
  have n: "first_names \<noteq> []" "last_names \<noteq> []" "positions \<noteq> []" "map fst td \<noteq> []"
    using assms(2) by (simp_all add: first_names_def last_names_def positions_def)
  have a: "\<exists>st'. append_player pname pos abbrev tid year s ''regular'' 20 35 x = Inr st'"
    for pname pos abbrev tid x
    by (rule append_player_total [OF assms(1)]) simp
  show ?thesis
    unfolding add_extra_player_def c [OF n(1)] c [OF n(2)] c [OF n(3)] c [OF n(4)]
    using a by (simp add: bind_result_def split: option.splits)
qed

lemma add_extra_players_shape:
  "add_extra_players n year s td st = Inr st' \<Longrightarrow> extends s st st'"
proof (induction n arbitrary: st)
  case 0
  then show ?case by (simp add: extends_refl)
next
  case (Suc n)
  then obtain st1 where 1: "add_extra_player year s td st = Inr st1"
    and 2: "add_extra_players n year s td st1 = Inr st'"
    by (auto simp add: bind_result_Inr)
  show ?case using add_extra_player_shape [OF 1] Suc.IH [OF 2] by (rule extends_trans)
qed

lemma add_extra_players_total:
  assumes "1975 \<le> year" "td \<noteq> []"
  shows "\<exists>st'. add_extra_players n year s td st = Inr st'"
proof (induction n arbitrary: st)
  case 0
  show ?case by simp
next
  case (Suc n)
  obtain st1 where "add_extra_player year s td st = Inr st1"
    using add_extra_player_total [OF assms] by blast
  then show ?case using Suc [of st1] by (simp add: bind_result_def)
qed


lemma add_team_frame:
  "all_players (add_team s st item) = all_players st"
  "all_stats (add_team s st item) = all_stats st"
  "rnd (add_team s st item) = rnd st"
  "player_id_counter (add_team s st item) = player_id_counter st"
  "team_id_counter (add_team s st item) = team_id_counter st + 1"
  "all_teams (add_team s st item) = all_teams st @ [team_row_of s (team_id_counter st) item]"
  by (simp_all add: add_team_def team_row_of_def)

lemma add_teams_frame:
  "all_players (add_teams s td st) = all_players st
   \<and> all_stats (add_teams s td st) = all_stats st
   \<and> rnd (add_teams s td st) = rnd st
   \<and> player_id_counter (add_teams s td st) = player_id_counter st
   \<and> team_id_counter (add_teams s td st) = team_id_counter st + int (length td)
   \<and> all_teams (add_teams s td st)
       = all_teams st @ map (\<lambda>(i, item). team_row_of s (team_id_counter st + int i) item)
                            (enumerate 0 td)"
proof (induction td rule: rev_induct)
  case Nil
  show ?case by (simp add: add_teams_def)
next
  case (snoc x xs)
  have "add_teams s (xs @ [x]) st = add_team s (add_teams s xs st) x"
    by (simp add: add_teams_def)
  then show ?case using snoc by (simp add: add_team_frame enumerate_append_eq)
qed

lemma team_keys_of_new_rows:
  "map (\<lambda>t. (team_abbreviation t, season t))
     (map (\<lambda>(i, item). team_row_of s (c + int i) item) (enumerate n td))
   = map (\<lambda>item. (fst item, s)) td"
  by (induction td arbitrary: n) (simp_all add: team_row_of_def)

lemma process_season_shape:
  assumes "process_season s st = Inr st'"
  shows "\<exists>y. year_of_season s = Inr y \<and> extends s (add_teams s (get_teams_for_era y) st) st'"
proof -
  obtain y st2 n g where y: "year_of_season s = Inr y"
    and 1: "add_legendary_players y s (get_players_for_era y) (add_teams s (get_teams_for_era y) st)
             = Inr st2"
    and 2: "add_extra_players (nat n) y s (get_teams_for_era y) (st2\<lparr>rnd := g\<rparr>) = Inr st'"
    using assms by (auto simp add: process_season_def bind_result_Inr Let_def)
  have "extends s (add_teams s (get_teams_for_era y) st) st2" using 1 by (rule add_legendary_shape)
  moreover have "extends s st2 (st2\<lparr>rnd := g\<rparr>)" by (rule extends_rnd)
  moreover have "extends s (st2\<lparr>rnd := g\<rparr>) st'" using 2 by (rule add_extra_players_shape)
  ultimately have "extends s (add_teams s (get_teams_for_era y) st) st'"
    using extends_trans by blast
  then show ?thesis using y by blast
qed

lemma legendary_teams_not_empty: "list_all (\<lambda>p. teams p \<noteq> []) (get_players_for_era year)"
  by (simp add: get_players_for_era_def legendary_1980s_def legendary_1990s_def
      legendary_2000s_def legendary_2010s_def legendary_2020s_def)

lemma teams_for_era_not_empty: "get_teams_for_era year \<noteq> []"
  by (simp add: get_teams_for_era_def historical_teams_def modern_teams_def)

lemma process_season_total:
  assumes "1975 \<le> year"
  shows "\<exists>st'. process_season (season_str year) st = Inr st'"
proof -
  let ?s = "season_str year"
  have y: "year_of_season ?s = Inr year" using assms by (simp add: year_of_season_str)
  obtain st2 where 1: "add_legendary_players year ?s (get_players_for_era year)
      (add_teams ?s (get_teams_for_era year) st) = Inr st2"
    using add_legendary_total [OF assms legendary_teams_not_empty] by blast
  have "\<exists>n g. randint 40 80 (rnd st2) = Inr (n, g)" by (simp add: randint_def)
  then obtain n g where 2: "randint 40 80 (rnd st2) = Inr (n, g)" by blast
  obtain st3 where "add_extra_players (nat n) year ?s (get_teams_for_era year) (st2\<lparr>rnd := g\<rparr>) = Inr st3"
    using add_extra_players_total [OF assms teams_for_era_not_empty] by blast
  then show ?thesis by (simp add: process_season_def y 1 2 bind_result_def Let_def)
qed

subsection \<open>What the loop over the seasons keeps\<close>

lemma process_season_teams:
  assumes "process_season s st = Inr st'"
  shows "\<exists>td. (td = historical_teams \<or> td = modern_teams)
           \<and> map (\<lambda>t. (team_abbreviation t, season t)) (all_teams st')
               = map (\<lambda>t. (team_abbreviation t, season t)) (all_teams st) @ map (\<lambda>item. (fst item, s)) td"
proof -
  obtain y where e: "extends s (add_teams s (get_teams_for_era y) st) st'"
    using process_season_shape [OF assms] by blast
  have "all_teams st' = all_teams (add_teams s (get_teams_for_era y) st)"
    using e by (simp add: extends_def)
  then have a: "all_teams st' = all_teams st
      @ map (\<lambda>(i, item). team_row_of s (team_id_counter st + int i) item)
          (enumerate 0 (get_teams_for_era y))"
    by (simp add: add_teams_frame)
  have "map (\<lambda>t. (team_abbreviation t, season t)) (all_teams st')
    = map (\<lambda>t. (team_abbreviation t, season t)) (all_teams st)
      @ map (\<lambda>item. (fst item, s)) (get_teams_for_era y)"
    by (simp only: a map_append team_keys_of_new_rows)
  moreover have "get_teams_for_era y = historical_teams \<or> get_teams_for_era y = modern_teams"
    by (simp add: get_teams_for_era_def)
  ultimately show ?thesis by blast
qed

lemma process_season_keys:
  assumes "process_season s st = Inr st'" "keys_distinct st"
    and "s \<notin> season ` set (all_teams st)"
  shows "keys_distinct st' \<and> season ` set (all_teams st') \<subseteq> insert s (season ` set (all_teams st))"
proof -
  let ?k = "\<lambda>t. (team_abbreviation t, season t)"
  obtain td where td: "td = historical_teams \<or> td = modern_teams"
    and k: "map ?k (all_teams st') = map ?k (all_teams st) @ map (\<lambda>item. (fst item, s)) td"
    using process_season_teams [OF assms(1)] by blast
  have d: "distinct (map fst td)" using td distinct_team_abbreviations by auto
  have n: "distinct (map (\<lambda>item. (fst item, s)) td)"
    using d by (auto simp add: distinct_map inj_on_def)
  have o: "set (map ?k (all_teams st)) \<inter> set (map (\<lambda>item. (fst item, s)) td) = {}"
    using assms(3) by auto
  have dk: "distinct (map ?k (all_teams st'))"
    unfolding k using assms(2) n o by (simp add: keys_distinct_def)
  have "season ` set (all_teams st') = snd ` set (map ?k (all_teams st'))"
    by (simp add: image_image)
  also have "\<dots> = snd ` set (map ?k (all_teams st) @ map (\<lambda>item. (fst item, s)) td)"
    by (simp only: k)
  also have "\<dots> \<subseteq> insert s (season ` set (all_teams st))"
    by (auto simp add: image_image)
  finally show ?thesis using dk by (simp add: keys_distinct_def)
qed

lemma process_seasons_keys:
  "process_seasons ss st = Inr st' \<Longrightarrow> distinct ss \<Longrightarrow> keys_distinct st \<Longrightarrow>
   set ss \<inter> season ` set (all_teams st) = {} \<Longrightarrow> keys_distinct st'"
proof (induction ss arbitrary: st)
  case Nil
  then show ?case by simp
next
  case (Cons s ss)
  then obtain st1 where 1: "process_season s st = Inr st1" and 2: "process_seasons ss st1 = Inr st'"
    by (auto simp add: bind_result_Inr)
  have "s \<notin> season ` set (all_teams st)" using Cons.prems(4) by auto
  then have k: "keys_distinct st1"
    "season ` set (all_teams st1) \<subseteq> insert s (season ` set (all_teams st))"
    using process_season_keys [OF 1 Cons.prems(3)] by simp_all
  have "set ss \<inter> season ` set (all_teams st1) = {}"
    using k(2) Cons.prems(2,4) by auto
  then show ?case using Cons.IH [OF 2 _ k(1)] Cons.prems(2) by simp
qed

lemma drop_duplicates_from_subset: "set (drop_duplicates_from key seen xs) \<subseteq> set xs"
  by (induction xs arbitrary: seen) auto

lemma drop_duplicates_from_distinct:
  "distinct (map f xs) \<Longrightarrow> distinct (map f (drop_duplicates_from key seen xs))"
proof (induction xs arbitrary: seen)
  case Nil
  show ?case by simp
next
  case (Cons x xs)
  have "f x \<notin> f ` set (drop_duplicates_from key (key x # seen) xs)"
    using Cons.prems drop_duplicates_from_subset [of key "key x # seen" xs] by auto
  then show ?case using Cons by simp
qed

lemma drop_duplicates_from_keys:
  "x \<in> set xs \<Longrightarrow> key x \<notin> set seen \<Longrightarrow>
   \<exists>y\<in>set (drop_duplicates_from key seen xs). key y = key x"
proof (induction xs arbitrary: seen)
  case Nil
  then show ?case by simp
next
  case (Cons a xs)
  show ?case
  proof (cases "key a = key x")
    case True
    then show ?thesis using Cons.prems by simp
  next
    case False
    then have "x \<in> set xs" using Cons.prems by auto
    then show ?thesis using Cons.IH [of seen] Cons.IH [of "key a # seen"] Cons.prems False by auto
  qed
qed

lemma process_season_refs:
  assumes "process_season s st = Inr st'" "refs_ok (all_teams st) (all_players st)"
  shows "refs_ok (all_teams st') (all_players st')"
proof -
  obtain y where e: "extends s (add_teams s (get_teams_for_era y) st) st'"
    using process_season_shape [OF assms(1)] by blast
  let ?st1 = "add_teams s (get_teams_for_era y) st"
  obtain ps where t: "all_teams st' = all_teams ?st1"
    and p: "all_players st' = all_players ?st1 @ ps"
    and l: "list_all (player_linked s (all_teams ?st1)) ps"
    using e by (auto simp add: extends_def)
  have sub: "set (all_teams st) \<subseteq> set (all_teams ?st1)" by (simp add: add_teams_frame)
  have old: "refs_ok (all_teams ?st1) (all_players st)"
    using assms(2) sub unfolding refs_ok_def list_all_iff list_ex_iff by blast
  have new: "refs_ok (all_teams ?st1) ps"
    using l unfolding refs_ok_def player_linked_def list_all_iff list_ex_iff by auto
  show ?thesis using old new by (simp add: t p add_teams_frame refs_ok_def)
qed

lemma process_seasons_refs:
  "process_seasons ss st = Inr st' \<Longrightarrow> refs_ok (all_teams st) (all_players st) \<Longrightarrow>
   refs_ok (all_teams st') (all_players st')"
proof (induction ss arbitrary: st)
  case Nil
  then show ?case by simp
next
  case (Cons s ss)
  then obtain st1 where 1: "process_season s st = Inr st1" and 2: "process_seasons ss st1 = Inr st'"
    by (auto simp add: bind_result_Inr)
  show ?case using Cons.IH [OF 2 process_season_refs [OF 1 Cons.prems(2)]] .
qed

lemma process_season_stats:
  assumes "process_season s st = Inr st'" "stats_ok (all_stats st)"
  shows "stats_ok (all_stats st')"
proof -
  obtain y where e: "extends s (add_teams s (get_teams_for_era y) st) st'"
    using process_season_shape [OF assms(1)] by blast
  then show ?thesis using assms(2) by (auto simp add: extends_def add_teams_frame stats_ok_def)
qed

lemma process_seasons_stats:
  "process_seasons ss st = Inr st' \<Longrightarrow> stats_ok (all_stats st) \<Longrightarrow> stats_ok (all_stats st')"
proof (induction ss arbitrary: st)
  case Nil
  then show ?case by simp
next
  case (Cons s ss)
  then obtain st1 where 1: "process_season s st = Inr st1" and 2: "process_seasons ss st1 = Inr st'"
    by (auto simp add: bind_result_Inr)
  show ?case using Cons.IH [OF 2 process_season_stats [OF 1 Cons.prems(2)]] .
qed

lemma process_seasons_total:
  "list_all (\<lambda>y. 1975 \<le> y) ys \<Longrightarrow> \<exists>st'. process_seasons (map season_str ys) st = Inr st'"
proof (induction ys arbitrary: st)
  case Nil
  show ?case by simp
next
  case (Cons y ys)
  then obtain st1 where "process_season (season_str y) st = Inr st1"
    using process_season_total [of y st] by auto
  then show ?case using Cons by (simp add: bind_result_def)
qed

lemma generation_returns:
  assumes "1975 \<le> start_year"
  shows "\<exists>out. generate_comprehensive_data start_year end_year g = Inr out"
proof -
  have "list_all (\<lambda>y. 1975 \<le> y) [start_year..end_year]" using assms by (simp add: list_all_iff)
  then obtain st where "process_seasons (seasons start_year end_year) (initial_state g) = Inr st"
    using process_seasons_total unfolding seasons_def by blast
  then show ?thesis by (simp add: generate_comprehensive_data_def bind_result_def)
qed

lemma generated_from_state:
  assumes "generate_comprehensive_data start_year end_year g = Inr out"
  shows "\<exists>st. process_seasons (seasons start_year end_year) (initial_state g) = Inr st
     \<and> teams_df out = drop_duplicates (\<lambda>t. (team_id t, season t)) (all_teams st)
     \<and> players_df out = drop_duplicates (\<lambda>p. (player_id p, p_season p)) (all_players st)
     \<and> stats_df out = all_stats st"
  using assms by (auto simp add: generate_comprehensive_data_def bind_result_Inr)

subsection \<open>The run for the single year 2020\<close>

lemma drop_duplicates_from_id:
  "distinct (map key xs) \<Longrightarrow> set (map key xs) \<inter> set seen = {} \<Longrightarrow>
   drop_duplicates_from key seen xs = xs"
proof (induction xs arbitrary: seen)
  case Nil
  show ?case by simp
next
  case (Cons x xs)
  have "set (map key xs) \<inter> set (key x # seen) = {}" using Cons.prems by auto
  then show ?case using Cons by auto
qed

lemma new_rows_ids:
  "map team_id (map (\<lambda>(i, item). team_row_of s (c + int i) item) (enumerate n td))
     = map (\<lambda>i. c + int i) [n..<n + length td]"
proof (induction td arbitrary: n)
  case Nil
  show ?case by simp
next
  case (Cons x xs)
  have "[n..<n + length (x # xs)] = n # [Suc n..<Suc n + length xs]"
    by (simp add: upt_rec)
  then show ?case using Cons [of "Suc n"] by (simp add: team_row_of_def)
qed



lemma new_rows_not_dropped:
  "drop_duplicates (\<lambda>t. (team_id t, season t))
      (map (\<lambda>(i, item). team_row_of s (c + int i) item) (enumerate 0 td))
   = map (\<lambda>(i, item). team_row_of s (c + int i) item) (enumerate 0 td)"
proof -
  let ?rows = "map (\<lambda>(i, item). team_row_of s (c + int i) item) (enumerate 0 td)"
  have "distinct (map (\<lambda>i. c + int i) [0..<0 + length td])"
    by (simp add: distinct_map inj_on_def)
  then have "distinct (map team_id ?rows)" by (simp only: new_rows_ids)
  then have "distinct (map (\<lambda>t. (team_id t, season t)) ?rows)"
    by (auto simp add: distinct_map inj_on_def)
  then show ?thesis unfolding drop_duplicates_def by (intro drop_duplicates_from_id) simp_all
qed

lemma find_team_id_new_row:
  assumes "abbrev \<in> fst ` set td"
  shows "\<exists>tid. find_team_id (all_teams (add_teams s td st)) abbrev s = Some tid"
proof -
  obtain info where "(abbrev, info) \<in> set td" using assms by auto
  then have "(abbrev, info) \<in> set (map snd (enumerate 0 td))" by simp
  then have "(abbrev, info) \<in> snd ` set (enumerate 0 td)" by (simp only: set_map)
  then obtain i where "(i, (abbrev, info)) \<in> set (enumerate 0 td)" by force
  then have "team_row_of s (team_id_counter st + int i) (abbrev, info)
      \<in> set (all_teams (add_teams s td st))"
    by (force simp add: add_teams_frame)
  then have "\<exists>t\<in>set (all_teams (add_teams s td st)). team_abbreviation t = abbrev \<and> season t = s"
    by (rule bexI [rotated]) (simp add: team_row_of_def)
  then have "find (\<lambda>team. team_abbreviation team = abbrev \<and> season team = s)
      (all_teams (add_teams s td st)) \<noteq> None"
    by (auto simp add: find_None_iff)
  then show ?thesis by (auto simp add: find_team_id_def)
qed

lemma seasons_2020: "seasons 2020 2020 = [season_str 2020] \<and> season_str 2020 = ''2020-21''"
  by (simp add: seasons_def season_str_def str_int_def str_nat.simps digit_char_values)

lemma run_2020:
  "\<exists>st ps ss p sr. process_seasons (seasons 2020 2020) (initial_state g) = Inr st
     \<and> all_teams st = map (\<lambda>(i, item). team_row_of ''2020-21'' (1 + int i) item) (enumerate 0 modern_teams)
     \<and> all_players st = p # ps \<and> list_all (\<lambda>p. p_season p = ''2020-21'') (p # ps)
     \<and> player_name p = ''LeBron James'' \<and> p_team_abbreviation p = ''LAL''
     \<and> all_stats st = sr # ss \<and> s_player_name sr = ''LeBron James''"
proof -
  let ?s = "''2020-21''"
  let ?st0 = "initial_state g"
  let ?st1 = "add_teams ?s modern_teams ?st0"
  have s: "seasons 2020 2020 = [?s]" "season_str 2020 = ?s" using seasons_2020 by simp_all
  have y: "year_of_season ?s = Inr 2020" using year_of_season_str [of 2020] by (simp add: s)
  obtain st where st: "process_season ?s ?st0 = Inr st"
    using process_season_total [of 2020 ?st0] by (auto simp add: s)
  have run: "process_seasons (seasons 2020 2020) ?st0 = Inr st"
    by (simp add: s st bind_result_def)
  have td: "get_teams_for_era 2020 = modern_teams" by (simp add: get_teams_for_era_def)
  have leg: "get_players_for_era 2020 = legendary_2020s" by (simp add: get_players_for_era_def)
  obtain st2 n g' where
    1: "add_legendary_players 2020 ?s legendary_2020s ?st1 = Inr st2"
    and 2: "add_extra_players (nat n) 2020 ?s modern_teams (st2\<lparr>rnd := g'\<rparr>) = Inr st"
    using st by (auto simp add: process_season_def y td leg bind_result_Inr Let_def)
  have frame: "all_players ?st1 = []" "all_stats ?st1 = []"
    "all_teams ?st1 = map (\<lambda>(i, item). team_row_of ?s (1 + int i) item) (enumerate 0 modern_teams)"
    by (simp_all add: add_teams_frame initial_state_def)
  obtain lebron others where l: "legendary_2020s = lebron # others"
    "info_name lebron = ''LeBron James''" "teams lebron = [''LAL'']"
    by (simp add: legendary_2020s_def)
  have team: "get_team_for_player ''LeBron James'' [''LAL''] 2020 = Inr ''LAL''"
    by (simp add: get_team_for_player_def)
  have "''LAL'' \<in> fst ` set modern_teams" by (simp add: modern_teams_def)
  then obtain tid where tid: "find_team_id (all_teams ?st1) ''LAL'' ?s = Some tid"
    using find_team_id_new_row by blast
  obtain st1' where
    3: "append_player ''LeBron James'' (info_position lebron) ''LAL'' tid 2020 ?s (era lebron) 22 38 ?st1
          = Inr st1'"
    and 4: "add_legendary_players 2020 ?s others st1' = Inr st2"
    using 1 by (auto simp add: l team tid bind_result_Inr)
  obtain p sr where p: "all_players st1' = [p]" "player_name p = ''LeBron James''"
    "p_team_abbreviation p = ''LAL''" "p_season p = ?s"
    "all_stats st1' = [sr]" "s_player_name sr = ''LeBron James''"
    using append_player_shape [OF 3 find_team_id_Some [OF tid]] by (auto simp add: frame)
  have e1: "extends ?s ?st1 st1'"
    using append_player_shape [OF 3 find_team_id_Some [OF tid]] by simp
  have e2: "extends ?s st1' st2" using 4 by (rule add_legendary_shape)
  have e3: "extends ?s (st2\<lparr>rnd := g'\<rparr>) st" using 2 by (rule add_extra_players_shape)
  have e: "extends ?s ?st1 st"
    using extends_trans [OF extends_trans [OF e1 e2] extends_trans [OF extends_rnd e3]] .
  obtain ps where ps: "all_players st = all_players ?st1 @ ps"
    "list_all (player_linked ?s (all_teams ?st1)) ps" and t: "all_teams st = all_teams ?st1"
    using e by (auto simp add: extends_def)
  obtain ps2 where ps2: "all_players st2 = all_players st1' @ ps2"
    and ss2: "\<exists>ss. all_stats st2 = all_stats st1' @ ss"
    using e2 by (auto simp add: extends_def)
  obtain ps3 where ps3: "all_players st = all_players st2 @ ps3"
    and ss3: "\<exists>ss. all_stats st = all_stats st2 @ ss"
    using e3 by (auto simp add: extends_def)
  have a: "all_players st = p # (ps2 @ ps3)" by (simp add: ps3 ps2 p)
  have "list_all (\<lambda>p. p_season p = ?s) ps"
    using ps(2) by (simp add: list_all_iff player_linked_def)
  then have b: "list_all (\<lambda>p. p_season p = ?s) (p # (ps2 @ ps3))"
    using a ps(1) by (simp add: frame)
  obtain ss where c: "all_stats st = sr # ss" using ss2 ss3 by (auto simp add: p)
  have t': "all_teams st
      = map (\<lambda>(i, item). team_row_of ?s (1 + int i) item) (enumerate 0 modern_teams)"
    using t frame(3) by simp
  show ?thesis
    by (rule exI [of _ st], rule exI [of _ "ps2 @ ps3"], rule exI [of _ ss], rule exI [of _ p],
        rule exI [of _ sr]) (insert run t' a b p(2,3) c p(6), simp)
qed

subsection \<open>The output of a generation run\<close>

lemma output_2020:
  "\<exists>out p ps sr ss. generate_comprehensive_data 2020 2020 g = Inr out
     \<and> teams_df out = map (\<lambda>(i, item). team_row_of ''2020-21'' (1 + int i) item)
                          (enumerate 0 modern_teams)
     \<and> players_df out = p # ps \<and> list_all (\<lambda>p. p_season p = ''2020-21'') (p # ps)
     \<and> player_name p = ''LeBron James'' \<and> p_team_abbreviation p = ''LAL''
     \<and> stats_df out = sr # ss"
proof -
  let ?k = "\<lambda>p. (player_id p, p_season p)"
  obtain st ps ss p sr where r: "process_seasons (seasons 2020 2020) (initial_state g) = Inr st"
    and t: "all_teams st = map (\<lambda>(i, item). team_row_of ''2020-21'' (1 + int i) item)
                              (enumerate 0 modern_teams)"
    and a: "all_players st = p # ps" "list_all (\<lambda>p. p_season p = ''2020-21'') (p # ps)"
      "player_name p = ''LeBron James''" "p_team_abbreviation p = ''LAL''"
    and c: "all_stats st = sr # ss"
    using run_2020 [of g] by blast
  define out where "out = \<lparr>teams_df = drop_duplicates (\<lambda>t. (team_id t, season t)) (all_teams st),
            players_df = drop_duplicates ?k (all_players st), stats_df = all_stats st\<rparr>"
  have o: "generate_comprehensive_data 2020 2020 g = Inr out"
    by (simp add: generate_comprehensive_data_def r bind_result_def out_def)
  have 1: "teams_df out = map (\<lambda>(i, item). team_row_of ''2020-21'' (1 + int i) item)
                          (enumerate 0 modern_teams)"
    by (simp add: out_def t new_rows_not_dropped)
  define rest where "rest = drop_duplicates_from ?k [?k p] ps"
  have 2: "players_df out = p # rest"
    by (simp add: out_def a(1) drop_duplicates_def rest_def)
  have "set rest \<subseteq> set ps"
    unfolding rest_def by (rule drop_duplicates_from_subset)
  then have 3: "list_all (\<lambda>p. p_season p = ''2020-21'') (p # rest)"
    using a(2) by (auto simp add: list_all_iff)
  have 4: "stats_df out = sr # ss" by (simp add: out_def c)
  show ?thesis
    by (rule exI [of _ out], rule exI [of _ p], rule exI [of _ rest],
        rule exI [of _ sr], rule exI [of _ ss]) (insert o 1 2 3 4 a(3,4), simp)
qed


text \<open>
  C8: in the team output of every generation run that returns, no two rows share both
  abbreviation and season. (A run returns whenever its start year is 1975 or later,
  lemma \<open>generation_returns\<close>.)
\<close>

theorem team_keys_unique:
  assumes "generate_comprehensive_data start_year end_year g = Inr out"
  shows "distinct (map (\<lambda>t. (team_abbreviation t, season t)) (teams_df out))"
proof -
  obtain st where st: "process_seasons (seasons start_year end_year) (initial_state g) = Inr st"
    and t: "teams_df out = drop_duplicates (\<lambda>t. (team_id t, season t)) (all_teams st)"
    using generated_from_state [OF assms] by blast
  have "keys_distinct (initial_state g)" by (simp add: keys_distinct_def initial_state_def)
  moreover have "set (seasons start_year end_year) \<inter> season ` set (all_teams (initial_state g)) = {}"
    by (simp add: initial_state_def)
  ultimately have "keys_distinct st"
    using process_seasons_keys [OF st distinct_seasons] by blast
  then show ?thesis unfolding t drop_duplicates_def keys_distinct_def
    by (rule drop_duplicates_from_distinct)
qed

text \<open>
  C8 at the run for the year 2020: it returns 30 team rows with distinct keys.
\<close>

theorem team_keys_unique_witness:
  "\<exists>out. generate_comprehensive_data 2020 2020 identity_rng = Inr out
     \<and> length (teams_df out) = 30
     \<and> distinct (map (\<lambda>t. (team_abbreviation t, season t)) (teams_df out))"
proof -
  obtain out where o: "generate_comprehensive_data 2020 2020 identity_rng = Inr out"
    and t: "teams_df out = map (\<lambda>(i, item). team_row_of ''2020-21'' (1 + int i) item)
                          (enumerate 0 modern_teams)"
    using output_2020 [of identity_rng] by blast
  have "length (teams_df out) = length modern_teams" by (simp add: t)
  then have "length (teams_df out) = 30" by (simp add: modern_teams_def)
  then show ?thesis using o team_keys_unique [OF o] by blast
qed

text \<open>
  C9: in every generation run that returns, the team id of each emitted player row is
  the id of an emitted team row of the same season.
\<close>

theorem player_team_exists:
  assumes "generate_comprehensive_data start_year end_year g = Inr out"
  shows "\<forall>p\<in>set (players_df out). \<exists>t\<in>set (teams_df out).
           team_id t = p_team_id p \<and> season t = p_season p"
proof
  fix p assume p: "p \<in> set (players_df out)"
  obtain st where st: "process_seasons (seasons start_year end_year) (initial_state g) = Inr st"
    and t: "teams_df out = drop_duplicates (\<lambda>t. (team_id t, season t)) (all_teams st)"
    and q: "players_df out = drop_duplicates (\<lambda>p. (player_id p, p_season p)) (all_players st)"
    using generated_from_state [OF assms] by blast
  have "refs_ok (all_teams (initial_state g)) (all_players (initial_state g))"
    by (simp add: refs_ok_def initial_state_def)
  then have r: "refs_ok (all_teams st) (all_players st)" using process_seasons_refs [OF st] by blast
  have "p \<in> set (all_players st)"
    using p drop_duplicates_from_subset [of "\<lambda>p. (player_id p, p_season p)" "[]" "all_players st"]
    unfolding q drop_duplicates_def by blast
  then obtain t0 where t0: "t0 \<in> set (all_teams st)" "team_id t0 = p_team_id p" "season t0 = p_season p"
    using r unfolding refs_ok_def list_all_iff list_ex_iff by blast
  obtain t1 where "t1 \<in> set (teams_df out)" "(team_id t1, season t1) = (team_id t0, season t0)"
    using drop_duplicates_from_keys [of t0 "all_teams st" "\<lambda>t. (team_id t, season t)" "[]"] t0(1)
    unfolding t drop_duplicates_def by auto
  then show "\<exists>t\<in>set (teams_df out). team_id t = p_team_id p \<and> season t = p_season p"
    using t0 by auto
qed

text \<open>
  C9 at the run for the year 2020, which emits at least one player row.
\<close>

theorem player_team_exists_witness:
  "\<exists>out. generate_comprehensive_data 2020 2020 identity_rng = Inr out
     \<and> players_df out \<noteq> []
     \<and> list_all (\<lambda>p. list_ex (\<lambda>t. team_id t = p_team_id p \<and> season t = p_season p) (teams_df out))
          (players_df out)"
proof -
  obtain out p ps where o: "generate_comprehensive_data 2020 2020 identity_rng = Inr out"
    and p: "players_df out = p # ps"
    using output_2020 [of identity_rng] by blast
  have "list_all (\<lambda>p. list_ex (\<lambda>t. team_id t = p_team_id p \<and> season t = p_season p) (teams_df out))
          (players_df out)"
    using player_team_exists [OF o] by (simp add: list_all_iff list_ex_iff)
  then show ?thesis using o p by auto
qed

text \<open>
  C7: every call of the statistic synthesis returns a row in which each of the three
  shooting percentages is greater than zero and each attempted value equals made divided
  by percentage within the rounding of the three stored numbers (one decimal for made and
  attempted, three decimals for the percentage); and so does every stat row of a
  generation run. Floating-point numbers are taken as exact rationals.
\<close>

theorem shooting_percentages_consistent:
  "(\<exists>s g'. generate_era_appropriate_stats pname pos year era_name g = Inr (s, g')
      \<and> shooting_consistent s)
   \<and> (generate_comprehensive_data start_year end_year g = Inr out \<longrightarrow>
        list_all (\<lambda>r. shooting_consistent (s_stats r)) (stats_df out))"
proof (intro conjI impI)
  show "\<exists>s g'. generate_era_appropriate_stats pname pos year era_name g = Inr (s, g')
      \<and> shooting_consistent s"
    by (rule generate_stats_ok)
next
  assume a: "generate_comprehensive_data start_year end_year g = Inr out"
  obtain st where st: "process_seasons (seasons start_year end_year) (initial_state g) = Inr st"
    and s: "stats_df out = all_stats st"
    using generated_from_state [OF a] by blast
  have "stats_ok (all_stats (initial_state g))" by (simp add: stats_ok_def initial_state_def)
  then have "stats_ok (all_stats st)" using process_seasons_stats [OF st] by blast
  then show "list_all (\<lambda>r. shooting_consistent (s_stats r)) (stats_df out)"
    by (simp add: s stats_ok_def)
qed

text \<open>
  C7 at the run for the year 2020, which emits at least one stat row.
\<close>

theorem shooting_percentages_consistent_witness:
  "\<exists>out. generate_comprehensive_data 2020 2020 identity_rng = Inr out
     \<and> stats_df out \<noteq> []
     \<and> list_all (\<lambda>r. shooting_consistent (s_stats r)) (stats_df out)"
proof -
  obtain out sr ss where o: "generate_comprehensive_data 2020 2020 identity_rng = Inr out"
    and s: "stats_df out = sr # ss"
    using output_2020 [of identity_rng] by blast
  have "list_all (\<lambda>r. shooting_consistent (s_stats r)) (stats_df out)"
    using shooting_percentages_consistent [of "''LeBron James''" "''SF''" 2020 "''2020s''"
        identity_rng 2020 2020 out] o by simp
  then show ?thesis using o s by auto
qed

section \<open>Properties of the orchestrator\<close>

subsection \<open>When the generation raises\<close>

text \<open>
  In a year below 1975 the range of the draft year, \<^verbatim>\<open>randint(max(1975, year-20), year)\<close>,
  is empty, so the first additional player of the season raises \<^verbatim>\<open>ValueError\<close>; a negative
  year raises already when it is read back from the season string. A run raises exactly when
  its first year is such a year.
\<close>

lemma new_player_row_raises:
  assumes "year < 1975" "lo \<le> hi"
  shows "new_player_row pid pname tid abbrev pos year s lo hi g = Inl ValueError"
  using assms
  by (simp add: new_player_row_def randint_def choice_def bind_result_def colleges_def countries_def)

lemma add_extra_player_raises:
  assumes "year < 1975" "td \<noteq> []" "all_teams st = all_teams (add_teams s td st0)"
  shows "add_extra_player year s td st = Inl ValueError"
proof -
  have c: "\<And>xs g. xs \<noteq> [] \<Longrightarrow> choice xs g = Inr (xs ! (fst (next_raw g) mod length xs), snd (next_raw g))"
    by (simp add: choice_def)
  have n: "first_names \<noteq> []" "last_names \<noteq> []" "positions \<noteq> []" "map fst td \<noteq> []"
    using assms(2) by (simp_all add: first_names_def last_names_def positions_def)
  have m: "map fst td ! (k mod length (map fst td)) \<in> fst ` set td" for k
  proof -
    have "k mod length (map fst td) < length (map fst td)" using n(4) by simp
    then have "map fst td ! (k mod length (map fst td)) \<in> set (map fst td)" by (rule nth_mem)
    then show ?thesis by simp
  qed
  have f: "\<exists>tid. find_team_id (all_teams st) (map fst td ! (k mod length (map fst td))) s = Some tid" for k
    unfolding assms(3) by (rule find_team_id_new_row [OF m])
  have a: "append_player pname pos abbrev tid year s ''regular'' 20 35 x = Inl ValueError"
    for pname pos abbrev tid x
    by (simp add: append_player_def new_player_row_raises [OF assms(1)] bind_result_def)
  show ?thesis
    unfolding add_extra_player_def c [OF n(1)] c [OF n(2)] c [OF n(3)] c [OF n(4)]
    using f by (auto simp add: bind_result_def a split: option.splits)
qed


lemma process_season_raises:
  assumes "year < 1975"
  shows "process_season (season_str year) st = Inl ValueError"
proof (cases "year < 0")
  case True
  then show ?thesis by (simp add: process_season_def year_of_season_negative bind_result_def)
next
  case False
  let ?s = "season_str year"
  let ?td = "get_teams_for_era year"
  let ?st1 = "add_teams ?s ?td st"
  have y: "year_of_season ?s = Inr year" using False by (simp add: year_of_season_str)
  have p: "get_players_for_era year = []" using assms by (simp add: get_players_for_era_def)
  obtain n g where r: "randint 40 80 (rnd ?st1) = Inr (n, g)" "40 \<le> n"
    using randint_ok [of 40 80 "rnd ?st1"] by auto
  then obtain k where k: "nat n = Suc k" by (cases "nat n") auto
  have "add_extra_player year ?s ?td (?st1\<lparr>rnd := g\<rparr>) = Inl ValueError"
    by (rule add_extra_player_raises [OF assms teams_for_era_not_empty, where ?st0.0 = st])
      simp_all
  then have "add_extra_players (nat n) year ?s ?td (?st1\<lparr>rnd := g\<rparr>) = Inl ValueError"
    by (simp add: k bind_result_def)
  then show ?thesis by (simp add: process_season_def y p r(1) bind_result_def Let_def)
qed

lemma generation_raises:
  assumes "start_year \<le> end_year" "start_year < 1975"
  shows "generate_comprehensive_data start_year end_year g = Inl ValueError"
proof -
  have "[start_year..end_year] = start_year # [start_year + 1..end_year]"
    using assms(1) by (simp add: upto_rec1)
  then have "process_seasons (seasons start_year end_year) (initial_state g) = Inl ValueError"
    by (simp add: seasons_def process_season_raises [OF assms(2)] bind_result_def)
  then show ?thesis by (simp add: generate_comprehensive_data_def bind_result_def)
qed

lemma generation_returns_iff:
  "(\<exists>out. generate_comprehensive_data start_year end_year g = Inr out)
     \<longleftrightarrow> end_year < start_year \<or> 1975 \<le> start_year"
proof (cases "start_year \<le> end_year \<and> start_year < 1975")
  case True
  then show ?thesis using generation_raises [of start_year end_year g] by simp
next
  case False
  show ?thesis
  proof (cases "1975 \<le> start_year")
    case True
    then show ?thesis using generation_returns [of start_year end_year g] by simp
  next
    case f: False
    then have "end_year < start_year" using False by simp
    then show ?thesis
      by (simp add: generate_comprehensive_data_def seasons_def bind_result_def)
  qed
qed


subsection \<open>The return codes of the four commands\<close>

text \<open>
  A command succeeds when its process returns 0. The scripts that create the loader return
  1 exactly when the engine cannot be created, and \<^verbatim>\<open>nba_ingest.py\<close> returns 1 exactly when
  the years make the generation raise.
\<close>

lemma run_command_iff:
  "run_command w command \<longleftrightarrow>
     w_launch w command = Ended 0
     \<or> (w_launch w command = Runs \<and> script_returncode w command = 0)"
  by (cases "w_launch w command") (simp_all add: run_command_def subprocess_run_def)

lemma stopped_fails: "stopped w command \<Longrightarrow> \<not> run_command w command"
  by (cases "w_launch w command") (simp_all add: run_command_iff stopped_def)

lemma script_returncode_loader:
  "script_returncode w ConnectionTest = (if w_engine_ok w then 0 else 1)"
  "script_returncode w DatabaseLoading = (if w_engine_ok w then 0 else 1)"
  "script_returncode w DataVerification = (if w_engine_ok w then 0 else 1)"
  by (simp_all add: script_returncode_def exit_code_def connection_test_script_def
      database_loader_main_def verification_script_def new_loader_def split: option.splits)

lemma nba_ingest_main_raises: "years_rejected w \<Longrightarrow> \<exists>e. nba_ingest_main w = Inl e"
  by (auto simp add: years_rejected_def nba_ingest_main_def bind_result_def generation_raises
      split: sum.splits)

lemma nba_ingest_main_returns:
  "\<not> years_rejected w \<Longrightarrow> \<exists>out. nba_ingest_main w = Inr out"
  using generation_returns_iff
  by (auto simp add: years_rejected_def nba_ingest_main_def bind_result_def split: sum.splits)

lemma script_returncode_generation:
  "script_returncode w DataCollection = (if years_rejected w then 1 else 0)"
  using nba_ingest_main_raises [of w] nba_ingest_main_returns [of w]
  by (auto simp add: script_returncode_def exit_code_def)

subsection \<open>Halting and the exit status\<close>

lemma pipeline_main_cases:
  "pipeline_main w =
     (if \<not> run_command w ConnectionTest then halted_at [ConnectionTest]
      else if \<not> run_command w DataCollection then halted_at [ConnectionTest, DataCollection]
      else if \<not> run_command w DatabaseLoading
        then halted_at [ConnectionTest, DataCollection, DatabaseLoading]
      else ran_all (\<not> run_command w DataVerification))"
  by (simp add: pipeline_main_def halted_at_def ran_all_def)

text \<open>
  C2 (amended): the pipeline runs its four commands in order. When one of the first three
  cannot be started or its process ends with a non-zero return code, the pipeline halts at
  that command and the exit status is 1; the connectivity check and the load end so when
  the loader cannot be created from \<^verbatim>\<open>DATABASE_URL\<close>, the generation when one of its years
  is no integer or the start year is below 1975 and not above the end year. When the first
  three commands return 0, the verification command is run and the exit status is 0; a
  failure of the verification command is only logged as a warning.
\<close>

theorem pipeline_halts_before_verification:
  "(stopped w ConnectionTest \<or> (w_launch w ConnectionTest = Runs \<and> \<not> w_engine_ok w) \<longrightarrow>
      pipeline_main w = halted_at [ConnectionTest] \<and> exit_status w = 1)
   \<and> (run_command w ConnectionTest
        \<and> (stopped w DataCollection \<or> (w_launch w DataCollection = Runs \<and> years_rejected w)) \<longrightarrow>
      pipeline_main w = halted_at [ConnectionTest, DataCollection] \<and> exit_status w = 1)
   \<and> (run_command w ConnectionTest \<and> run_command w DataCollection
        \<and> (stopped w DatabaseLoading \<or> (w_launch w DatabaseLoading = Runs \<and> \<not> w_engine_ok w)) \<longrightarrow>
      pipeline_main w = halted_at [ConnectionTest, DataCollection, DatabaseLoading]
      \<and> exit_status w = 1)
   \<and> (run_command w ConnectionTest \<and> run_command w DataCollection
        \<and> run_command w DatabaseLoading \<longrightarrow>
      pipeline_main w = ran_all (\<not> run_command w DataVerification) \<and> exit_status w = 0)"
proof (intro conjI impI)
  assume "stopped w ConnectionTest \<or> (w_launch w ConnectionTest = Runs \<and> \<not> w_engine_ok w)"
  then have "\<not> run_command w ConnectionTest"
    using stopped_fails [of w ConnectionTest]
    by (auto simp add: run_command_iff script_returncode_loader)
  then show "pipeline_main w = halted_at [ConnectionTest]" "exit_status w = 1"
    by (simp_all add: exit_status_def pipeline_main_cases halted_at_def)
next
  assume a: "run_command w ConnectionTest
    \<and> (stopped w DataCollection \<or> (w_launch w DataCollection = Runs \<and> years_rejected w))"
  then have "\<not> run_command w DataCollection"
    using stopped_fails [of w DataCollection]
    by (auto simp add: run_command_iff script_returncode_generation)
  then show "pipeline_main w = halted_at [ConnectionTest, DataCollection]" "exit_status w = 1"
    using a by (simp_all add: exit_status_def pipeline_main_cases halted_at_def)
next
  assume a: "run_command w ConnectionTest \<and> run_command w DataCollection
    \<and> (stopped w DatabaseLoading \<or> (w_launch w DatabaseLoading = Runs \<and> \<not> w_engine_ok w))"
  then have "\<not> run_command w DatabaseLoading"
    using stopped_fails [of w DatabaseLoading]
    by (auto simp add: run_command_iff script_returncode_loader)
  then show "pipeline_main w = halted_at [ConnectionTest, DataCollection, DatabaseLoading]"
    "exit_status w = 1"
    using a by (simp_all add: exit_status_def pipeline_main_cases halted_at_def)
next
  assume a: "run_command w ConnectionTest \<and> run_command w DataCollection
    \<and> run_command w DatabaseLoading"
  then show "pipeline_main w = ran_all (\<not> run_command w DataVerification)" "exit_status w = 0"
    by (simp_all add: exit_status_def pipeline_main_cases ran_all_def)
qed


lemma plain_world_runs:
  "run_command plain_world command"
  by (cases command)
     (simp_all add: run_command_iff script_returncode_loader script_returncode_generation
        years_rejected_def plain_world_def)

lemma killed_world_runs:
  "run_command (world_killed_at s) command \<longleftrightarrow> command \<noteq> s"
  by (cases command)
     (simp_all add: run_command_iff script_returncode_loader script_returncode_generation
        years_rejected_def plain_world_def world_killed_at_def)

text \<open>
  C2, as stated, fails on the code: when the fourth command (the verification of the
  counts) fails, here because its process is killed, \<^verbatim>\<open>main\<close> logs a warning, goes on and
  returns \<open>True\<close>, so the exit status is 0.
\<close>

theorem pipeline_verification_failure_ignored:
  "\<not> run_command (world_killed_at DataVerification) DataVerification
   \<and> started (pipeline_main (world_killed_at DataVerification))
       = [ConnectionTest, DataCollection, DatabaseLoading, DataVerification]
   \<and> verification_warning (pipeline_main (world_killed_at DataVerification))
   \<and> exit_status (world_killed_at DataVerification) = 0"
  by (simp add: exit_status_def pipeline_main_cases killed_world_runs ran_all_def)

text \<open>
  The amended C2 in four worlds: without \<^verbatim>\<open>DATABASE_URL\<close> the pipeline halts at the
  connectivity check, from the year 1970 at the generation, with the loading process killed
  at the loading, and when nothing fails it runs to the end.
\<close>

theorem pipeline_halts_before_verification_witness:
  "(w_launch world_without_url ConnectionTest = Runs \<and> \<not> w_engine_ok world_without_url
      \<and> pipeline_main world_without_url = halted_at [ConnectionTest]
      \<and> exit_status world_without_url = 1)
   \<and> (run_command world_from_1970 ConnectionTest
      \<and> w_launch world_from_1970 DataCollection = Runs \<and> years_rejected world_from_1970
      \<and> pipeline_main world_from_1970 = halted_at [ConnectionTest, DataCollection]
      \<and> exit_status world_from_1970 = 1)
   \<and> (run_command (world_killed_at DatabaseLoading) ConnectionTest
      \<and> run_command (world_killed_at DatabaseLoading) DataCollection
      \<and> stopped (world_killed_at DatabaseLoading) DatabaseLoading
      \<and> pipeline_main (world_killed_at DatabaseLoading)
          = halted_at [ConnectionTest, DataCollection, DatabaseLoading]
      \<and> exit_status (world_killed_at DatabaseLoading) = 1)
   \<and> (run_command plain_world ConnectionTest \<and> run_command plain_world DataCollection
      \<and> run_command plain_world DatabaseLoading
      \<and> pipeline_main plain_world = ran_all False \<and> exit_status plain_world = 0)"
proof -
  have a: "w_launch world_without_url ConnectionTest = Runs" "\<not> w_engine_ok world_without_url"
    by (simp_all add: world_without_url_def plain_world_def)
  have b: "run_command world_from_1970 ConnectionTest"
    "w_launch world_from_1970 DataCollection = Runs" "years_rejected world_from_1970"
    by (simp_all add: run_command_iff script_returncode_loader years_rejected_def
        world_from_1970_def plain_world_def)
  have c: "stopped (world_killed_at DatabaseLoading) DatabaseLoading"
    by (simp add: stopped_def world_killed_at_def)
  show ?thesis
    using pipeline_halts_before_verification [of world_without_url]
      pipeline_halts_before_verification [of world_from_1970]
      pipeline_halts_before_verification [of "world_killed_at DatabaseLoading"]
      pipeline_halts_before_verification [of plain_world]
      a b c
    by (simp add: plain_world_runs killed_world_runs)
qed

text \<open>
  What the return codes do not show. The first script only prints what \<^verbatim>\<open>connect\<close>
  returned, and \<^verbatim>\<open>main\<close> of \<^verbatim>\<open>database_loader.py\<close> only logs what \<^verbatim>\<open>load_all_data\<close>
  returned, so when the four scripts run, the engine is created and the years are accepted,
  the pipeline runs to the end with exit status 0 whatever the store and the files are. With
  a store that refuses every connection the connectivity check prints its failure line, the
  load fails and loads nothing, and the exit status is 0; \<^verbatim>\<open>main\<close> of the orchestrator logs
  \<^verbatim>\<open>Database connection failed. Exiting.\<close> only for a non-zero return code of the first
  command.
\<close>

lemma pipeline_ignores_the_store:
  assumes "\<forall>command. w_launch w command = Runs" "w_engine_ok w" "\<not> years_rejected w"
  shows "pipeline_main w = ran_all False \<and> exit_status w = 0"
  using assms
  by (simp add: exit_status_def pipeline_main_cases run_command_iff script_returncode_loader
      script_returncode_generation ran_all_def)

lemma pipeline_store_down:
  "connection_test_script world_store_down = Inr ''Database connection failed!''
   \<and> (\<exists>r. database_loader_main world_store_down = Inr (Finished r) \<and> \<not> succeeded r
          \<and> final_store r = empty_db)
   \<and> pipeline_main world_store_down = ran_all False
   \<and> exit_status world_store_down = 0"
proof -
  have "pipeline_main world_store_down = ran_all False \<and> exit_status world_store_down = 0"
    by (rule pipeline_ignores_the_store)
       (simp_all add: world_store_down_def plain_world_def years_rejected_def)
  then show ?thesis
    by (simp add: connection_test_script_def database_loader_main_def new_loader_def
        world_store_down_def plain_world_def open_store_def load_all_data_def)
qed

end
